(* ===== verification/Prelude.thy ===== *)
theory Prelude
  imports Main "HOL-Library.AList" "HOL-Library.Word" "HOL-Library.Sublist"
begin

text \<open>
  Shared vocabulary of the development.  It holds the counterpart of Rust's \<open>Result\<close>, the
  state-passing actions in which every effectful function of the gateway is written (an action maps
  a state to a result and the next state, \<open>and_then\<close> is the \<open>?\<close> operator), the
  hash maps of the source as association lists with distinct keys, the collections of simplification
  and elimination rules that carry the component proofs, and the machine integer types.
\<close>

section \<open>Machine integers\<close>

type_synonym u8 = "8 word"
type_synonym u16 = "16 word"
type_synonym u32 = "32 word"
type_synonym i32 = "32 word"
type_synonym u64 = "64 word"
type_synonym usize = "64 word"
type_synonym uuid = "128 word"

section \<open>Results\<close>

datatype ('a, 'e) result = Ok 'a | Err 'e

definition map_err :: "('e \<Rightarrow> 'f) \<Rightarrow> ('a, 'e) result \<Rightarrow> ('a, 'f) result" where
  "map_err f r = (case r of Ok x \<Rightarrow> Ok x | Err e \<Rightarrow> Err (f e))"

definition ok_or :: "'e \<Rightarrow> 'a option \<Rightarrow> ('a, 'e) result" where
  "ok_or e v = (case v of None \<Rightarrow> Err e | Some x \<Rightarrow> Ok x)"

definition is_err :: "('a, 'e) result \<Rightarrow> bool" where
  "is_err r = (case r of Ok _ \<Rightarrow> False | Err _ \<Rightarrow> True)"

definition bind_result :: "('a, 'e) result \<Rightarrow> ('a \<Rightarrow> ('b, 'e) result) \<Rightarrow> ('b, 'e) result" where
  "bind_result r k = (case r of Ok x \<Rightarrow> k x | Err e \<Rightarrow> Err e)"

lemma map_err_simps [simp]:
  "map_err f (Ok x) = Ok x"
  "map_err f (Err e) = Err (f e)"
  by (simp_all add: map_err_def)

lemma map_err_eq_Ok [simp]: "map_err f r = Ok x \<longleftrightarrow> r = Ok x"
  by (cases r) simp_all

lemma map_err_eq_Err: "map_err f r = Err e \<longleftrightarrow> (\<exists>e'. r = Err e' \<and> e = f e')"
  by (cases r) auto

lemma ok_or_simps [simp]:
  "ok_or e None = Err e"
  "ok_or e (Some x) = Ok x"
  by (simp_all add: ok_or_def)

lemma ok_or_eq_Ok [simp]: "ok_or e v = Ok x \<longleftrightarrow> v = Some x"
  by (cases v) simp_all

lemma ok_or_eq_Err [simp]: "ok_or e v = Err e' \<longleftrightarrow> v = None \<and> e' = e"
  by (cases v) auto

lemma is_err_simps [simp]:
  "is_err (Ok x) = False"
  "is_err (Err e) = True"
  by (simp_all add: is_err_def)

lemma not_is_err: "\<not> is_err r \<longleftrightarrow> (\<exists>x. r = Ok x)"
  by (cases r) simp_all

lemma bind_result_simps [simp]:
  "bind_result (Ok x) k = k x"
  "bind_result (Err e) k = Err e"
  by (simp_all add: bind_result_def)

lemma bind_result_eq_Ok: "bind_result r k = Ok y \<longleftrightarrow> (\<exists>x. r = Ok x \<and> k x = Ok y)"
  by (cases r) simp_all

lemma bind_result_OkE:
  assumes "bind_result r k = Ok y"
  obtains x where "r = Ok x" and "k x = Ok y"
  using assms by (cases r) simp_all

section \<open>State-passing actions\<close>

text \<open>
  An action of type \<open>('s, 'a, 'e) act\<close> is what a Rust function of type
  \<open>Result<'a, 'e>\<close> does to the state it can reach.  The state is returned on the error
  branch as well, since an early return leaves the effects of the statements before it.
\<close>

type_synonym ('s, 'a, 'e) act = "'s \<Rightarrow> ('a, 'e) result \<times> 's"

definition ret :: "'a \<Rightarrow> ('s, 'a, 'e) act" where
  "ret x s = (Ok x, s)"

definition fail :: "'e \<Rightarrow> ('s, 'a, 'e) act" where
  "fail e s = (Err e, s)"

definition from_result :: "('a, 'e) result \<Rightarrow> ('s, 'a, 'e) act" where
  "from_result r s = (r, s)"

definition and_then :: "('s, 'a, 'e) act \<Rightarrow> ('a \<Rightarrow> ('s, 'b, 'e) act) \<Rightarrow> ('s, 'b, 'e) act" where
  "and_then m k s = (case m s of (Ok x, s') \<Rightarrow> k x s' | (Err e, s') \<Rightarrow> (Err e, s'))"

definition with_err :: "('e \<Rightarrow> 'f) \<Rightarrow> ('s, 'a, 'e) act \<Rightarrow> ('s, 'a, 'f) act" where
  "with_err f m s = (case m s of (r, s') \<Rightarrow> (map_err f r, s'))"

definition ignore_err :: "('s, 'a, 'e) act \<Rightarrow> 's \<Rightarrow> 's" where
  "ignore_err m s = snd (m s)"

named_theorems act_simps \<open>evaluation of actions\<close>

lemma ret_run [simp, act_simps]: "ret x s = (Ok x, s)"
  by (simp add: ret_def)

lemma fail_run [simp, act_simps]: "fail e s = (Err e, s)"
  by (simp add: fail_def)

lemma from_result_run [simp, act_simps]: "from_result r s = (r, s)"
  by (simp add: from_result_def)

lemma and_then_Ok [simp, act_simps]: "m s = (Ok x, s') \<Longrightarrow> and_then m k s = k x s'"
  by (simp add: and_then_def)

lemma and_then_Err [simp, act_simps]: "m s = (Err e, s') \<Longrightarrow> and_then m k s = (Err e, s')"
  by (simp add: and_then_def)

lemma with_err_run [act_simps]: "with_err f m s = (map_err f (fst (m s)), snd (m s))"
  by (simp add: with_err_def split: prod.splits)

lemma and_then_ret_left [simp]: "and_then (ret x) k = k x"
  by (rule ext) (simp add: and_then_def)

lemma and_then_fail_left [simp]: "and_then (fail e) k = fail e"
  by (rule ext) (simp add: and_then_def)

lemma and_then_ret_right [simp]: "and_then m ret = m"
  by (rule ext) (simp add: and_then_def split: prod.splits result.splits)

lemma and_then_assoc: "and_then (and_then m k) l = and_then m (\<lambda>x. and_then (k x) l)"
  by (rule ext) (simp add: and_then_def split: prod.splits result.splits)

text \<open>Inversion: how a sequence of two actions can have produced its outcome.\<close>

lemma and_then_OkE:
  assumes "and_then m k s = (Ok y, t)"
  obtains x s' where "m s = (Ok x, s')" and "k x s' = (Ok y, t)"
  using assms by (auto simp: and_then_def split: prod.splits result.splits)

lemma and_then_ErrE:
  assumes "and_then m k s = (Err e, t)"
  obtains "m s = (Err e, t)" | x s' where "m s = (Ok x, s')" and "k x s' = (Err e, t)"
  using assms by (auto simp: and_then_def split: prod.splits result.splits)

lemma and_then_cases:
  assumes "and_then m k s = (r, t)"
  obtains e where "m s = (Err e, t)" and "r = Err e"
        | x s' where "m s = (Ok x, s')" and "k x s' = (r, t)"
  using assms by (auto simp: and_then_def split: prod.splits result.splits)

lemma with_err_cases:
  assumes "with_err f m s = (r, t)"
  obtains x where "m s = (Ok x, t)" and "r = Ok x"
        | e where "m s = (Err e, t)" and "r = Err (f e)"
  using assms by (cases "fst (m s)") (auto simp: with_err_def split: prod.splits)

lemma with_err_eq_Ok: "with_err f m s = (Ok x, t) \<longleftrightarrow> m s = (Ok x, t)"
  by (cases "m s") (auto simp: with_err_def)

text \<open>A relation between the state before and after, kept by every step, is kept by a sequence.\<close>

definition keeps :: "('s \<Rightarrow> 's \<Rightarrow> bool) \<Rightarrow> ('s, 'a, 'e) act \<Rightarrow> bool" where
  "keeps R m \<longleftrightarrow> (\<forall>s. R s (snd (m s)))"

named_theorems keeps_intros \<open>actions whose steps stay inside a relation\<close>

lemma keepsD: "keeps R m \<Longrightarrow> m s = (r, t) \<Longrightarrow> R s t"
  unfolding keeps_def by (metis snd_conv)

lemma keepsI: "(\<And>s r t. m s = (r, t) \<Longrightarrow> R s t) \<Longrightarrow> keeps R m"
  unfolding keeps_def by (metis prod.collapse)

lemma keeps_and_then:
  assumes "transp R" and "keeps R m" and "\<And>x. keeps R (k x)"
  shows "keeps R (and_then m k)"
proof (rule keepsI)
  fix s r t
  assume "and_then m k s = (r, t)"
  then show "R s t"
    by (rule and_then_cases) (use assms in \<open>blast dest: keepsD transpD\<close>)+
qed

lemma keeps_pure:
  assumes "reflp R"
  shows "keeps R (ret x)" and "keeps R (fail e)" and "keeps R (from_result r)"
  using assms by (auto intro!: keepsI dest: reflpD)

lemma keeps_with_err: "keeps R m \<Longrightarrow> keeps R (with_err f m)"
  unfolding keeps_def by (simp add: with_err_run)

section \<open>Hash maps\<close>

text \<open>
  A \<open>HashMap\<close> is an association list with distinct keys; its iteration order, which Rust
  leaves unspecified, is the order of the list.  Facts about what a map holds are stated with
  \<open>map_of\<close>, so they do not depend on that order.
\<close>

type_synonym ('k, 'v) hash_map = "('k \<times> 'v) list"

definition hm_get :: "'k \<Rightarrow> ('k, 'v) hash_map \<Rightarrow> 'v option" where
  "hm_get k m = map_of m k"

definition hm_contains :: "'k \<Rightarrow> ('k, 'v) hash_map \<Rightarrow> bool" where
  "hm_contains k m = (map_of m k \<noteq> None)"

definition hm_insert :: "'k \<Rightarrow> 'v \<Rightarrow> ('k, 'v) hash_map \<Rightarrow> ('k, 'v) hash_map" where
  "hm_insert k v m = AList.update k v m"

definition hm_remove :: "'k \<Rightarrow> ('k, 'v) hash_map \<Rightarrow> ('k, 'v) hash_map" where
  "hm_remove k m = AList.delete k m"

definition hm_wf :: "('k, 'v) hash_map \<Rightarrow> bool" where
  "hm_wf m = distinct (map fst m)"

lemma hm_wf_Nil [simp]: "hm_wf []"
  by (simp add: hm_wf_def)

lemma hm_wf_insert [simp]: "hm_wf m \<Longrightarrow> hm_wf (hm_insert k v m)"
  by (simp add: hm_wf_def hm_insert_def distinct_update)

lemma hm_wf_remove [simp]: "hm_wf m \<Longrightarrow> hm_wf (hm_remove k m)"
  by (simp add: hm_wf_def hm_remove_def distinct_delete)

lemma map_of_hm_insert [simp]: "map_of (hm_insert k v m) = (map_of m)(k \<mapsto> v)"
  by (simp add: hm_insert_def update_conv')

lemma map_of_hm_remove [simp]: "map_of (hm_remove k m) = (map_of m)(k := None)"
  by (simp add: hm_remove_def delete_conv')

lemma hm_get_iff [simp]: "hm_get k m = map_of m k"
  by (simp add: hm_get_def)

lemma hm_contains_iff [simp]: "hm_contains k m \<longleftrightarrow> map_of m k \<noteq> None"
  by (simp add: hm_contains_def)

lemma hm_wf_map_of_iff: "hm_wf m \<Longrightarrow> map_of m k = Some v \<longleftrightarrow> (k, v) \<in> set m"
  by (simp add: hm_wf_def)

lemma hm_remove_absent: "map_of m k = None \<Longrightarrow> hm_remove k m = m"
  by (simp add: hm_remove_def delete_id map_of_eq_None_iff)

lemma hm_wf_Cons: "hm_wf ((k, v) # m) \<longleftrightarrow> map_of m k = None \<and> hm_wf m"
  by (simp add: hm_wf_def map_of_eq_None_iff)

end
