(* ===== verification/Tasks.thy ===== *)
theory Tasks
  imports Prelude
begin

text \<open>
  Handlers that can be interrupted.  A task is what a thread still has to do: it is done, or it runs
  one section, an uninterrupted piece of the program such as the code between \<open>lock()\<close> and the
  drop of its guard, and goes on with another task.  Between two sections other threads may run.  The
  theory has the operations on tasks, their run without interference and against a given
  interference, and the rules with which a task is shown to obey a contract with the other threads:
  what it relies on between its sections and what it guarantees in each of them.
\<close>

section \<open>Tasks\<close>

datatype ('s, 'a) task = Done 'a | Section "'s \<Rightarrow> ('s, 'a) task \<times> 's"

primrec bind_task :: "('s, 'a) task \<Rightarrow> ('a \<Rightarrow> ('s, 'b) task) \<Rightarrow> ('s, 'b) task" where
  "bind_task (Done a) k = k a"
| "bind_task (Section f) k = Section (\<lambda>s. map_prod (\<lambda>t. bind_task t k) id (f s))"

text \<open>One action as one section, and the \<open>?\<close> operator between tasks.\<close>

definition atomically :: "('s, 'a, 'e) act \<Rightarrow> ('s, ('a, 'e) result) task" where
  "atomically m = Section (\<lambda>s. case m s of (r, s') \<Rightarrow> (Done r, s'))"

definition and_then_task ::
  "('s, ('a, 'e) result) task \<Rightarrow> ('a \<Rightarrow> ('s, ('b, 'e) result) task) \<Rightarrow> ('s, ('b, 'e) result) task"
where
  "and_then_task t k = bind_task t (\<lambda>r. case r of Ok x \<Rightarrow> k x | Err e \<Rightarrow> Done (Err e))"

definition with_err_task :: "('e \<Rightarrow> 'f) \<Rightarrow> ('s, ('a, 'e) result) task \<Rightarrow> ('s, ('a, 'f) result) task" where
  "with_err_task f t = bind_task t (\<lambda>r. Done (map_err f r))"

lemma and_then_Done [simp]:
  "and_then_task (Done (Ok x)) k = k x"
  "and_then_task (Done (Err e)) k = Done (Err e)"
  by (simp_all add: and_then_task_def)

lemma bind_Done: "bind_task t Done = t"
  by (induction t) (simp_all add: fsts.simps map_prod_def case_prod_unfold prod_eq_iff)

lemma bind_bind: "bind_task (bind_task t k) l = bind_task t (\<lambda>a. bind_task (k a) l)"
  by (induction t) (simp_all add: fsts.simps map_prod_def case_prod_unfold prod_eq_iff)

section \<open>Running\<close>

text \<open>To the end, with nobody in between.\<close>

primrec run_task :: "('s, 'a) task \<Rightarrow> 's \<Rightarrow> 'a \<times> 's" where
  "run_task (Done a) = (\<lambda>s. (a, s))"
| "run_task (Section f) = (\<lambda>s. case map_prod run_task id (f s) of (g, s') \<Rightarrow> g s')"

text \<open>
  Against a list of interferences, one before each section; the run stops where the list ends, so
  that a list shorter than the task is a run the process did not survive.
\<close>

fun run_against :: "('s \<Rightarrow> 's) list \<Rightarrow> ('s, 'a) task \<Rightarrow> 's \<Rightarrow> ('s, 'a) task \<times> 's" where
  "run_against [] t s = (t, s)"
| "run_against (e # es) (Done a) s = (Done a, s)"
| "run_against (e # es) (Section f) s = (case f (e s) of (t', s') \<Rightarrow> run_against es t' s')"

lemma run_bind [simp]:
  "run_task (bind_task t k) = (\<lambda>s. case run_task t s of (a, s') \<Rightarrow> run_task (k a) s')"
proof
  show "run_task (bind_task t k) s = (case run_task t s of (a, s') \<Rightarrow> run_task (k a) s')" for s
    by (induction t arbitrary: s) (simp_all add: case_prod_unfold fsts.simps)
qed

lemma run_atomically [simp]: "run_task (atomically m) = m"
  by (rule ext) (simp add: atomically_def split: prod.splits)

lemma run_and_then [simp]: "run_task (and_then_task t k) = and_then (run_task t) (\<lambda>x. run_task (k x))"
  by (rule ext) (simp add: and_then_task_def and_then_def split: prod.splits result.splits)

lemma run_with_err [simp]: "run_task (with_err_task f t) = with_err f (run_task t)"
  by (rule ext) (simp add: with_err_task_def with_err_def split: prod.splits)

section \<open>The number of sections\<close>

text \<open>A task that is done after at most so many of its own sections, whatever happens in between.\<close>

primrec within :: "('s, 'a) task \<Rightarrow> nat \<Rightarrow> bool" where
  "within (Done a) = (\<lambda>n. True)"
| "within (Section f) =
     (\<lambda>n. case n of 0 \<Rightarrow> False | Suc m \<Rightarrow> \<forall>s. fst (map_prod (\<lambda>t. within t m) id (f s)))"

lemma within_Section [simp]:
  "within (Section f) n \<longleftrightarrow> (\<exists>m. n = Suc m \<and> (\<forall>s. within (fst (f s)) m))"
  by (cases n) simp_all

declare within.simps(2) [simp del]

lemma within_more: "within t m \<Longrightarrow> m \<le> n \<Longrightarrow> within t n"
proof (induction t arbitrary: m n)
  case (Section f)
  then show ?case by (cases n) (auto simp: fsts.simps, metis Suc_le_mono prod.collapse rangeI)
qed simp

lemma within_bind:
  assumes "within t m" and "\<And>a. within (k a) n"
  shows "within (bind_task t k) (m + n)"
  using assms(1)
proof (induction t arbitrary: m)
  case (Done a)
  then show ?case using within_more [OF assms(2)] by simp
next
  case (Section f)
  then show ?case by (auto simp: fsts.simps, metis prod.collapse rangeI)
qed

lemma within_atomically: "within (atomically m) 1"
  by (simp add: atomically_def split: prod.splits)

lemma within_and_then:
  assumes "within t m" and "\<And>x. within (k x) n"
  shows "within (and_then_task t k) (m + n)"
  unfolding and_then_task_def using assms(1)
  by (rule within_bind) (simp add: assms(2) split: result.splits)

lemma within_with_err: "within t m \<Longrightarrow> within (with_err_task f t) m"
  unfolding with_err_task_def using within_bind [of t m "\<lambda>r. Done (map_err f r)" 0] by simp

lemma within_finishes:
  assumes "within t (length es)" and "run_against es t s = (t', s')"
  obtains a where "t' = Done a"
  using assms
proof (induction es t s arbitrary: thesis rule: run_against.induct)
  case (1 t s)
  then show ?case by (cases t) auto
next
  case (2 e es a s)
  then show ?case by auto
next
  case (3 e es f s)
  obtain t1 s1 where step: "f (e s) = (t1, s1)" by fastforce
  have "within (fst (f (e s))) (length es)" using 3(3) by simp
  then show ?case using step 3(1) [OF step [symmetric] 3(2)] 3(4) by simp
qed

section \<open>Contracts\<close>

text \<open>
  \<open>obeys R G Q t s\<close>: if between the sections the others move the state only as \<open>R\<close> allows,
  each section of \<open>t\<close> moves it as \<open>G\<close> says, and the outcome and the state after the last
  section satisfy \<open>Q\<close>.
\<close>

primrec obeys ::
  "('s \<Rightarrow> 's \<Rightarrow> bool) \<Rightarrow> ('s \<Rightarrow> 's \<Rightarrow> bool) \<Rightarrow> ('a \<Rightarrow> 's \<Rightarrow> bool) \<Rightarrow> ('s, 'a) task \<Rightarrow> 's \<Rightarrow> bool"
where
  "obeys R G Q (Done a) = Q a"
| "obeys R G Q (Section f) =
     (\<lambda>s. \<forall>s1. R s s1 \<longrightarrow> (case map_prod (obeys R G Q) id (f s1) of (h, s2) \<Rightarrow> G s1 s2 \<and> h s2))"

lemma obeys_Section:
  "obeys R G Q (Section f) s \<longleftrightarrow>
     (\<forall>s1 t s2. R s s1 \<longrightarrow> f s1 = (t, s2) \<longrightarrow> G s1 s2 \<and> obeys R G Q t s2)"
  unfolding obeys.simps(2) case_prod_unfold by simp (metis fst_conv snd_conv surjective_pairing)

declare obeys.simps(2) [simp del]

lemma obeys_atomically:
  "obeys R G Q (atomically m) s \<longleftrightarrow>
     (\<forall>s1 r s2. R s s1 \<longrightarrow> m s1 = (r, s2) \<longrightarrow> G s1 s2 \<and> Q r s2)"
  by (simp add: atomically_def obeys_Section split: prod.splits) (metis obeys.simps(1) prod.inject)

lemma obeys_bind [simp]:
  "obeys R G Q (bind_task t k) s \<longleftrightarrow> obeys R G (\<lambda>a. obeys R G Q (k a)) t s"
proof (induction t arbitrary: s)
  case (Section f)
  then show ?case
    by (simp add: obeys.simps(2) case_prod_unfold fsts.simps)
qed simp

lemma obeys_and_then [simp]:
  "obeys R G Q (and_then_task t k) s \<longleftrightarrow>
     obeys R G (\<lambda>r s. case r of Ok x \<Rightarrow> obeys R G Q (k x) s | Err e \<Rightarrow> Q (Err e) s) t s"
proof -
  have "(\<lambda>r. obeys R G Q (case r of Ok x \<Rightarrow> k x | Err e \<Rightarrow> Done (Err e))) =
      (\<lambda>r s. case r of Ok x \<Rightarrow> obeys R G Q (k x) s | Err e \<Rightarrow> Q (Err e) s)"
    by (intro ext) (simp split: result.splits)
  then show ?thesis by (simp add: and_then_task_def)
qed

lemma obeys_with_err [simp]:
  "obeys R G Q (with_err_task f t) s \<longleftrightarrow> obeys R G (\<lambda>r. Q (map_err f r)) t s"
  by (simp add: with_err_task_def)

lemma obeys_weaken:
  assumes "obeys R G Q t s" and "\<And>a s. Q a s \<Longrightarrow> Q' a s"
    and "\<And>s s'. G s s' \<Longrightarrow> G' s s'" and "\<And>s s'. R' s s' \<Longrightarrow> R s s'"
  shows "obeys R' G' Q' t s"
  using assms(1)
proof (induction t arbitrary: s)
  case (Done a)
  then show ?case using assms(2) by simp
next
  case (Section f)
  show ?case
    unfolding obeys_Section
  proof (intro allI impI)
    fix s1 t s2 assume step: "R' s s1" "f s1 = (t, s2)"
    then have "G s1 s2 \<and> obeys R G Q t s2"
      using Section.prems assms(4) unfolding obeys_Section by blast
    moreover have "t \<in> Basic_BNFs.fsts (f s1)" by (simp add: step(2) prod_set_defs)
    ultimately show "G' s1 s2 \<and> obeys R' G' Q' t s2"
      using Section.IH [of "f s1" t] assms(3) by blast
  qed
qed

text \<open>What the others may do, as an interface: it can be nothing, and it can be done twice.\<close>

locale interference =
  fixes rely :: "'s \<Rightarrow> 's \<Rightarrow> bool"
  assumes rely_refl: "rely s s"
    and rely_trans: "rely a b \<Longrightarrow> rely b c \<Longrightarrow> rely a c"
begin

text \<open>A contract that holds now still holds after the others have moved.\<close>

lemma obeys_later:
  assumes "obeys rely G Q t s" and "rely s s'"
    and "\<And>a. Q a s \<Longrightarrow> Q a s'"
  shows "obeys rely G Q t s'"
  using assms by (cases t) (auto simp: obeys_Section intro: rely_trans)

lemma obeys_now: "obeys rely G Q (Section f) s \<Longrightarrow> f s = (t, s') \<Longrightarrow> G s s' \<and> obeys rely G Q t s'"
  unfolding obeys_Section using rely_refl by blast

text \<open>The outcome of a run against interferences that respect the rely.\<close>

lemma obeys_run_against:
  assumes "obeys rely G Q t s" and "run_against es t s = (t', s')"
    and "\<And>e s. e \<in> set es \<Longrightarrow> rely s (e s)"
  shows "obeys rely G Q t' s'"
  using assms
proof (induction es t s rule: run_against.induct)
  case (3 e es f s)
  obtain t1 s1 where step: "f (e s) = (t1, s1)" by fastforce
  have "rely s (e s)" using 3(4) by simp
  then have "obeys rely G Q t1 s1" using 3(2) step unfolding obeys_Section by blast
  then show ?case using 3 step by simp
qed auto

text \<open>What every section of the task leaves behind is there at the end, if it was there at the start.\<close>

lemma obeys_at_rest:
  assumes "obeys rely G Q t s" and "run_against es t s = (t', s')"
    and "\<And>e s. e \<in> set es \<Longrightarrow> rely s (e s)"
    and "\<And>s s'. G s s' \<Longrightarrow> P s'" and "P s"
  shows "P s'"
  using assms(1-3,5)
proof (induction es t s rule: run_against.induct)
  case (3 e es f s)
  obtain t1 s1 where step: "f (e s) = (t1, s1)" by fastforce
  have "rely s (e s)" using 3(4) by simp
  then have "G (e s) s1" "obeys rely G Q t1 s1" using 3(2) step unfolding obeys_Section by blast+
  then show ?case using 3 step assms(4) by simp
qed auto

text \<open>A relation that both sides respect holds between the ends of the run.\<close>

lemma run_against_steady:
  assumes "obeys rely G Q t s" and "run_against es t s = (t', s')"
    and "\<And>e s. e \<in> set es \<Longrightarrow> rely s (e s)"
    and "\<And>s s'. G s s' \<Longrightarrow> K s s'" and "\<And>s s'. rely s s' \<Longrightarrow> K s s'"
    and "reflp K" and "transp K"
  shows "K s s'"
  using assms(1-3)
proof (induction es t s rule: run_against.induct)
  case (3 e es f s)
  obtain t1 s1 where step: "f (e s) = (t1, s1)" by fastforce
  have "rely s (e s)" using 3(4) by simp
  then have "G (e s) s1" "obeys rely G Q t1 s1" using 3(2) step unfolding obeys_Section by blast+
  then have "K s1 s'" using 3 step by simp
  moreover have "K s (e s)" "K (e s) s1" using \<open>rely s (e s)\<close> \<open>G (e s) s1\<close> assms(4,5) by blast+
  ultimately show ?case using assms(7) by (blast dest: transpD)
qed (use assms(6) in \<open>auto dest: reflpD\<close>)

end

end
