(* ===== verification/Strings.thy ===== *)
theory Strings
  imports Prelude
begin

text \<open>
  The operations of \<open>str\<close> and \<open>String\<close> the gateway uses.  A Rust string is its UTF-8
  bytes, a \<open>string\<close> of HOL (a list of 8-bit characters), so \<open>len\<close> is the length of
  the list.  White space is Unicode's: trimming and splitting look for the UTF-8 encodings of the
  code points with the property \<open>White_Space\<close>, as \<open>char::is_whitespace\<close> does.
\<close>

section \<open>Case folding\<close>

definition ascii_lower :: "char \<Rightarrow> char" where
  "ascii_lower c =
     (let n = (of_char c :: nat) in if 65 \<le> n \<and> n \<le> 90 then char_of (n + 32) else c)"

definition to_ascii_lowercase :: "string \<Rightarrow> string" where
  "to_ascii_lowercase s = List.map ascii_lower s"

definition eq_ignore_ascii_case :: "string \<Rightarrow> string \<Rightarrow> bool" where
  "eq_ignore_ascii_case a b = (to_ascii_lowercase a = to_ascii_lowercase b)"

lemma length_to_ascii_lowercase [simp]: "length (to_ascii_lowercase s) = length s"
  by (simp add: to_ascii_lowercase_def)

lemma ascii_lower_range:
  "(of_char (ascii_lower c) :: nat) < 65 \<or> 90 < (of_char (ascii_lower c) :: nat)"
proof (cases "65 \<le> (of_char c :: nat) \<and> (of_char c :: nat) \<le> 90")
  case True
  then have "(of_char (ascii_lower c) :: nat) = of_char c + 32"
    by (simp add: ascii_lower_def Let_def)
  with True show ?thesis by simp
next
  case False
  then have "ascii_lower c = c"
    by (auto simp: ascii_lower_def Let_def)
  with False show ?thesis by auto
qed

lemma ascii_lower_idem [simp]: "ascii_lower (ascii_lower c) = ascii_lower c"
proof -
  have "\<not> (65 \<le> (of_char (ascii_lower c) :: nat) \<and> (of_char (ascii_lower c) :: nat) \<le> 90)"
    using ascii_lower_range [of c] by auto
  then have "(\<lambda>d. ascii_lower d = d) (ascii_lower c)"
    by (auto simp: ascii_lower_def [of "ascii_lower c"] Let_def)
  then show ?thesis by simp
qed

lemma to_ascii_lowercase_idem [simp]:
  "to_ascii_lowercase (to_ascii_lowercase s) = to_ascii_lowercase s"
  by (simp add: to_ascii_lowercase_def)

lemma eq_ignore_ascii_case_refl [simp]: "eq_ignore_ascii_case s s"
  by (simp add: eq_ignore_ascii_case_def)

lemma eq_ignore_ascii_case_lower:
  "eq_ignore_ascii_case (to_ascii_lowercase a) b = eq_ignore_ascii_case a b"
  by (simp add: eq_ignore_ascii_case_def)

section \<open>White space\<close>

definition ws_encodings :: "string list" where
  "ws_encodings =
     [[CHR 0x09], [CHR 0x0A], [CHR 0x0B], [CHR 0x0C], [CHR 0x0D], [CHR 0x20],
      [CHR 0xC2, CHR 0x85], [CHR 0xC2, CHR 0xA0], [CHR 0xE1, CHR 0x9A, CHR 0x80],
      [CHR 0xE2, CHR 0x80, CHR 0x80], [CHR 0xE2, CHR 0x80, CHR 0x81],
      [CHR 0xE2, CHR 0x80, CHR 0x82], [CHR 0xE2, CHR 0x80, CHR 0x83],
      [CHR 0xE2, CHR 0x80, CHR 0x84], [CHR 0xE2, CHR 0x80, CHR 0x85],
      [CHR 0xE2, CHR 0x80, CHR 0x86], [CHR 0xE2, CHR 0x80, CHR 0x87],
      [CHR 0xE2, CHR 0x80, CHR 0x88], [CHR 0xE2, CHR 0x80, CHR 0x89],
      [CHR 0xE2, CHR 0x80, CHR 0x8A], [CHR 0xE2, CHR 0x80, CHR 0xA8],
      [CHR 0xE2, CHR 0x80, CHR 0xA9], [CHR 0xE2, CHR 0x80, CHR 0xAF],
      [CHR 0xE2, CHR 0x81, CHR 0x9F], [CHR 0xE3, CHR 0x80, CHR 0x80]]"

text \<open>The number of bytes of white space that a list of bytes starts with: 0 when it starts with none.\<close>

fun ws_prefix_in :: "string list \<Rightarrow> string \<Rightarrow> nat" where
  "ws_prefix_in [] s = 0"
| "ws_prefix_in (e # es) s = (if take (length e) s = e then length e else ws_prefix_in es s)"

definition ws_len :: "string \<Rightarrow> nat" where
  "ws_len s = ws_prefix_in ws_encodings s"

definition ws_len_rev :: "string \<Rightarrow> nat" where
  "ws_len_rev s = ws_prefix_in (List.map rev ws_encodings) s"

lemma ws_prefix_in_le: "ws_prefix_in es s \<le> length s"
  by (induction es s rule: ws_prefix_in.induct) (auto dest: arg_cong [where f = length])

function trim_start_by :: "(string \<Rightarrow> nat) \<Rightarrow> string \<Rightarrow> string" where
  "trim_start_by w s =
     (if w s = 0 \<or> s = [] then s else trim_start_by w (drop (w s) s))"
  by pat_completeness auto
termination
  by (relation "measure (\<lambda>(w, s). length s)") auto

declare trim_start_by.simps [simp del]

definition trim_start :: "string \<Rightarrow> string" where
  "trim_start s = trim_start_by ws_len s"

definition trim_end :: "string \<Rightarrow> string" where
  "trim_end s = rev (trim_start_by ws_len_rev (rev s))"

definition trim :: "string \<Rightarrow> string" where
  "trim s = trim_end (trim_start s)"

definition is_blank :: "string \<Rightarrow> bool" where
  "is_blank s = (trim s = [])"

lemma trim_start_by_suffix: "\<exists>n. trim_start_by w s = drop n s"
proof (induction w s rule: trim_start_by.induct)
  case (1 w s)
  show ?case
  proof (cases "w s = 0 \<or> s = []")
    case True
    then have "trim_start_by w s = drop 0 s"
      by (simp add: trim_start_by.simps [of w s])
    then show ?thesis by blast
  next
    case False
    then obtain n where "trim_start_by w (drop (w s) s) = drop n (drop (w s) s)"
      using 1 by blast
    with False have "trim_start_by w s = drop (n + w s) s"
      by (simp add: trim_start_by.simps [of w s])
    then show ?thesis by blast
  qed
qed

lemma trim_start_by_stop: "w (trim_start_by w s) = 0 \<or> trim_start_by w s = []"
proof (induction w s rule: trim_start_by.induct)
  case (1 w s)
  then show ?case
    by (cases "w s = 0 \<or> s = []") (simp_all add: trim_start_by.simps [of w s])
qed

lemma trim_start_by_fixed: "w s = 0 \<Longrightarrow> trim_start_by w s = s"
  by (simp add: trim_start_by.simps [of w s])

lemma length_trim: "length (trim s) \<le> length s"
proof -
  obtain n where "trim_start s = drop n s"
    unfolding trim_start_def using trim_start_by_suffix by blast
  moreover obtain m where
    "trim_start_by ws_len_rev (rev (trim_start s)) = drop m (rev (trim_start s))"
    using trim_start_by_suffix by blast
  ultimately show ?thesis by (simp add: trim_def trim_end_def)
qed

section \<open>Splitting at white space\<close>

text \<open>
  \<open>take_word\<close> reads up to the next white space; \<open>split_whitespace\<close> collects the non-empty
  words, as the iterator of the same name yields them.
\<close>

fun take_word :: "string \<Rightarrow> string \<times> string" where
  "take_word [] = ([], [])"
| "take_word (c # cs) =
     (if ws_len (c # cs) = 0 then (case take_word cs of (u, r) \<Rightarrow> (c # u, r)) else ([], c # cs))"

lemma take_word_append: "take_word s = (u, r) \<Longrightarrow> s = u @ r"
  by (induction s arbitrary: u r) (auto split: if_splits prod.splits)

lemma take_word_length: "length (snd (take_word s)) \<le> length s"
  by (induction s) (auto split: prod.splits)

lemma trim_start_by_length: "length (trim_start_by w s) \<le> length s"
proof -
  obtain n where "trim_start_by w s = drop n s" using trim_start_by_suffix by blast
  then show ?thesis by simp
qed

lemma take_word_progress:
  assumes "trim_start s \<noteq> []"
  shows "length (snd (take_word (trim_start s))) < length s"
proof -
  obtain c cs where c: "trim_start s = c # cs"
    using assms by (cases "trim_start s") auto
  have "ws_len (trim_start s) = 0"
    using trim_start_by_stop [of ws_len s] assms by (simp add: trim_start_def)
  then have "snd (take_word (trim_start s)) = snd (take_word cs)"
    by (simp add: c split: prod.splits)
  then have "length (snd (take_word (trim_start s))) \<le> length cs"
    using take_word_length [of cs] by simp
  moreover have "length (trim_start s) \<le> length s"
    unfolding trim_start_def by (rule trim_start_by_length)
  ultimately show ?thesis by (simp add: c)
qed

function split_whitespace :: "string \<Rightarrow> string list" where
  "split_whitespace s =
     (let s' = trim_start s in
      if s' = [] then []
      else fst (take_word s') # split_whitespace (snd (take_word s')))"
  by pat_completeness auto
termination
  by (relation "measure length") (auto simp: take_word_progress)

declare split_whitespace.simps [simp del]

lemma split_whitespace_Nil: "trim_start s = [] \<Longrightarrow> split_whitespace s = []"
  by (simp add: split_whitespace.simps [of s] Let_def)

lemma split_whitespace_step:
  "trim_start s = s' \<Longrightarrow> s' \<noteq> [] \<Longrightarrow> take_word s' = (u, r) \<Longrightarrow>
   split_whitespace s = u # split_whitespace r"
  by (simp add: split_whitespace.simps [of s] Let_def)


section \<open>UTF-8\<close>

text \<open>
  \<open>utf8_seq\<close> looks at the start of a non-empty list of bytes: either a well-formed sequence of
  \<open>n\<close> bytes (\<open>(True, n)\<close>), or an ill-formed part of \<open>n\<close> bytes that
  \<open>from_utf8_lossy\<close> replaces by one U+FFFD (\<open>(False, n)\<close>).
\<close>

definition byte_in :: "nat \<Rightarrow> nat \<Rightarrow> char \<Rightarrow> bool" where
  "byte_in lo hi c = (lo \<le> (of_char c :: nat) \<and> (of_char c :: nat) \<le> hi)"

definition utf8_second :: "char \<Rightarrow> char \<Rightarrow> bool" where
  "utf8_second b c =
     (let n = (of_char b :: nat) in
      if n = 0xE0 then byte_in 0xA0 0xBF c
      else if n = 0xED then byte_in 0x80 0x9F c
      else if n = 0xF0 then byte_in 0x90 0xBF c
      else if n = 0xF4 then byte_in 0x80 0x8F c
      else byte_in 0x80 0xBF c)"

definition utf8_width :: "char \<Rightarrow> nat" where
  "utf8_width b =
     (if byte_in 0x00 0x7F b then 1
      else if byte_in 0xC2 0xDF b then 2
      else if byte_in 0xE0 0xEF b then 3
      else if byte_in 0xF0 0xF4 b then 4
      else 0)"

fun utf8_rest :: "nat \<Rightarrow> nat \<Rightarrow> string \<Rightarrow> bool \<times> nat" where
  "utf8_rest 0 k cs = (True, k)"
| "utf8_rest (Suc m) k [] = (False, k)"
| "utf8_rest (Suc m) k (c # cs) =
     (if byte_in 0x80 0xBF c then utf8_rest m (Suc k) cs else (False, k))"

fun utf8_seq :: "string \<Rightarrow> bool \<times> nat" where
  "utf8_seq [] = (True, 0)"
| "utf8_seq [b] = (if utf8_width b = 1 then (True, 1) else (False, 1))"
| "utf8_seq (b # c # cs) =
     (if utf8_width b = 1 then (True, 1)
      else if utf8_width b = 0 \<or> \<not> utf8_second b c then (False, 1)
      else utf8_rest (utf8_width b - 2) 2 cs)"

lemma utf8_rest_ge: "k \<le> snd (utf8_rest m k cs)"
  by (induction m k cs rule: utf8_rest.induct) auto

lemma utf8_seq_pos: "s \<noteq> [] \<Longrightarrow> 0 < snd (utf8_seq s)"
proof (induction s rule: utf8_seq.induct)
  case (3 b c cs)
  have "0 < snd (utf8_rest (utf8_width b - 2) 2 cs)"
    using utf8_rest_ge [of 2 "utf8_width b - 2" cs] by linarith
  then show ?case by simp
qed auto

function valid_utf8 :: "string \<Rightarrow> bool" where
  "valid_utf8 s =
     (if s = [] then True
      else fst (utf8_seq s) \<and> valid_utf8 (drop (snd (utf8_seq s)) s))"
  by pat_completeness auto
termination
  by (relation "measure length") (auto simp: utf8_seq_pos)

declare valid_utf8.simps [simp del]

definition replacement_character :: string where
  "replacement_character = [CHR 0xEF, CHR 0xBF, CHR 0xBD]"

function from_utf8_lossy :: "string \<Rightarrow> string" where
  "from_utf8_lossy s =
     (if s = [] then []
      else
        (case utf8_seq s of (ok, n) \<Rightarrow>
           (if ok then take n s else replacement_character) @ from_utf8_lossy (drop n s)))"
  by pat_completeness auto
termination
  by (relation "measure length") (auto dest!: arg_cong [where f = snd] simp: utf8_seq_pos)

declare from_utf8_lossy.simps [simp del]

lemma from_utf8_lossy_Nil [simp]: "from_utf8_lossy [] = []"
  by (simp add: from_utf8_lossy.simps)

lemma valid_utf8_Nil [simp]: "valid_utf8 []"
  by (simp add: valid_utf8.simps)

lemma from_utf8_lossy_valid: "valid_utf8 s \<Longrightarrow> from_utf8_lossy s = s"
proof (induction s rule: valid_utf8.induct)
  case (1 s)
  show ?case
  proof (cases "s = []")
    case False
    then have "fst (utf8_seq s)" and "valid_utf8 (drop (snd (utf8_seq s)) s)"
      using "1.prems" by (simp_all add: valid_utf8.simps [of s])
    with 1 False show ?thesis
      by (cases "utf8_seq s") (simp add: from_utf8_lossy.simps [of s])
  qed simp
qed

text \<open>The result of \<open>String::from_utf8\<close>.\<close>

definition from_utf8 :: "string \<Rightarrow> string option" where
  "from_utf8 s = (if valid_utf8 s then Some s else None)"


section \<open>Hexadecimal text\<close>

text \<open>\<open>format!("{byte:02x}")\<close> for every byte of a digest.\<close>

definition hex_digit :: "nat \<Rightarrow> char" where
  "hex_digit n = (if n < 10 then char_of (48 + n) else char_of (87 + n))"

definition hex_byte :: "char \<Rightarrow> string" where
  "hex_byte c = (let n = (of_char c :: nat) in [hex_digit (n div 16), hex_digit (n mod 16)])"

definition hex_text :: "string \<Rightarrow> string" where
  "hex_text bytes = concat (List.map hex_byte bytes)"

lemma hex_digit_inj: "a < 16 \<Longrightarrow> b < 16 \<Longrightarrow> hex_digit a = hex_digit b \<Longrightarrow> a = b"
  by (auto simp: hex_digit_def split: if_splits dest!: arg_cong [where f = "of_char :: char \<Rightarrow> nat"])

lemma of_char_bound: "(of_char c :: nat) < 256"
  by (metis less_numeral_extra(3) mod_less_divisor of_char_mod_256 zero_less_numeral)

lemma hex_byte_inj: "hex_byte a = hex_byte b \<Longrightarrow> a = b"
proof -
  assume "hex_byte a = hex_byte b"
  then have "hex_digit ((of_char a :: nat) div 16) = hex_digit ((of_char b :: nat) div 16)"
    and "hex_digit ((of_char a :: nat) mod 16) = hex_digit ((of_char b :: nat) mod 16)"
    by (simp_all add: hex_byte_def Let_def)
  moreover have "(of_char a :: nat) div 16 < 16" and "(of_char b :: nat) div 16 < 16"
    using of_char_bound [of a] of_char_bound [of b] by linarith+
  ultimately have "(of_char a :: nat) div 16 = of_char b div 16"
    and "(of_char a :: nat) mod 16 = of_char b mod 16"
    by (auto intro!: hex_digit_inj)
  then have "(of_char a :: nat) = of_char b"
    by (metis div_mult_mod_eq)
  then show ?thesis by simp
qed

lemma hex_text_inj: "hex_text a = hex_text b \<longleftrightarrow> a = b"
proof
  show "hex_text a = hex_text b \<Longrightarrow> a = b"
  proof (induction a arbitrary: b)
    case Nil
    then show ?case by (cases b) (auto simp: hex_text_def hex_byte_def Let_def)
  next
    case (Cons c a)
    then obtain d b' where b: "b = d # b'"
      by (cases b) (auto simp: hex_text_def hex_byte_def Let_def)
    with Cons.prems have "hex_byte c = hex_byte d \<and> hex_text a = hex_text b'"
      by (auto simp: hex_text_def hex_byte_def Let_def)
    with Cons.IH b hex_byte_inj show ?case by blast
  qed
qed simp

section \<open>Decimal text\<close>

fun decimal :: "nat \<Rightarrow> string" where
  "decimal n = (if n < 10 then [char_of (48 + n)] else decimal (n div 10) @ [char_of (48 + n mod 10)])"

declare decimal.simps [simp del]

text \<open>A space in front is trimmed, and lower case keeps it.\<close>

lemma trim_space: "trim (CHR 0x20 # s) = trim s"
proof -
  have "ws_len (CHR 0x20 # s) = 1" by (simp add: ws_len_def ws_encodings_def)
  then have "trim_start (CHR 0x20 # s) = trim_start s"
    unfolding trim_start_def by (subst trim_start_by.simps) simp
  then show ?thesis by (simp add: trim_def)
qed

lemma ascii_lower_space: "ascii_lower c = CHR 0x20 \<longleftrightarrow> c = CHR 0x20"
proof
  assume lower: "ascii_lower c = CHR 0x20"
  show "c = CHR 0x20"
  proof (cases "65 \<le> (of_char c :: nat) \<and> (of_char c :: nat) \<le> 90")
    case True
    then have "(of_char (ascii_lower c) :: nat) = of_char c + 32" by (simp add: ascii_lower_def Let_def)
    then show ?thesis using True lower by simp
  qed (use lower in \<open>auto simp: ascii_lower_def Let_def\<close>)
qed (simp add: ascii_lower_def)

end
