(* ===== verification/Policy.thy ===== *)
theory Policy
  imports Strings
begin

text \<open>
  \<open>policy.rs\<close> and the capability policy of \<open>config.rs\<close>: the three decisions, the
  reasons that go into audit records, and the table that maps each operation to the configured
  decision.  The two lemmas at the end say which part of an evaluation the configuration controls.
\<close>

section \<open>Decisions and reasons\<close>

datatype policy_decision = Allow | Review | Block

datatype policy_reason =
  Safe | Write | ExternalWrite | CodeExecution | Destructive | OutOfScope

record policy_evaluation =
  decision :: policy_decision
  reason :: policy_reason

datatype policy_operation =
  OpAdd | OpReadFile | OpWriteFile | OpGitStatus | OpRunCargoTest | OpHttpGet | OpHttpPost

section \<open>The capability policy\<close>

record capability_policy_config =
  pc_add :: policy_decision
  pc_read_file :: policy_decision
  pc_write_file :: policy_decision
  pc_git_status :: policy_decision
  pc_run_cargo_test :: policy_decision
  pc_http_get :: policy_decision
  pc_http_post :: policy_decision

definition default_capability_policy :: capability_policy_config where
  "default_capability_policy =
     \<lparr>pc_add = Allow, pc_read_file = Allow, pc_write_file = Review, pc_git_status = Allow,
      pc_run_cargo_test = Review, pc_http_get = Allow, pc_http_post = Review\<rparr>"

definition evaluate_operation_with_config ::
  "policy_operation \<Rightarrow> capability_policy_config \<Rightarrow> policy_evaluation" where
  "evaluate_operation_with_config operation config =
     (case operation of
        OpAdd \<Rightarrow> \<lparr>decision = pc_add config, reason = Safe\<rparr>
      | OpReadFile \<Rightarrow> \<lparr>decision = pc_read_file config, reason = Safe\<rparr>
      | OpWriteFile \<Rightarrow> \<lparr>decision = pc_write_file config, reason = Write\<rparr>
      | OpGitStatus \<Rightarrow> \<lparr>decision = pc_git_status config, reason = Safe\<rparr>
      | OpRunCargoTest \<Rightarrow> \<lparr>decision = pc_run_cargo_test config, reason = CodeExecution\<rparr>
      | OpHttpGet \<Rightarrow> \<lparr>decision = pc_http_get config, reason = Safe\<rparr>
      | OpHttpPost \<Rightarrow> \<lparr>decision = pc_http_post config, reason = ExternalWrite\<rparr>)"

definition block_out_of_scope :: policy_evaluation where
  "block_out_of_scope = \<lparr>decision = Block, reason = OutOfScope\<rparr>"

text \<open>The fixed table the unit tests compare the default configuration with.\<close>

fun evaluate_operation :: "policy_operation \<Rightarrow> policy_evaluation" where
  "evaluate_operation OpAdd = \<lparr>decision = Allow, reason = Safe\<rparr>"
| "evaluate_operation OpReadFile = \<lparr>decision = Allow, reason = Safe\<rparr>"
| "evaluate_operation OpGitStatus = \<lparr>decision = Allow, reason = Safe\<rparr>"
| "evaluate_operation OpWriteFile = \<lparr>decision = Review, reason = Write\<rparr>"
| "evaluate_operation OpRunCargoTest = \<lparr>decision = Review, reason = CodeExecution\<rparr>"
| "evaluate_operation OpHttpGet = \<lparr>decision = Allow, reason = Safe\<rparr>"
| "evaluate_operation OpHttpPost = \<lparr>decision = Review, reason = ExternalWrite\<rparr>"

section \<open>Validation of the policy\<close>

datatype policy_error =
    ReviewUnsupported string
  | BypassesReview string

fun first_with :: "policy_decision \<Rightarrow> (string \<times> policy_decision) list \<Rightarrow> string option" where
  "first_with d [] = None"
| "first_with d ((n, d') # rest) = (if d' = d then Some n else first_with d rest)"

definition validate_capability_policy ::
  "capability_policy_config \<Rightarrow> (unit, policy_error) result" where
  "validate_capability_policy c =
     (case first_with Review
             [(''add'', pc_add c), (''read_file'', pc_read_file c),
              (''git_status'', pc_git_status c), (''http_get'', pc_http_get c)] of
        Some name \<Rightarrow> Err (ReviewUnsupported name)
      | None \<Rightarrow>
          (case first_with Allow
                  [(''write_file'', pc_write_file c), (''run_cargo_test'', pc_run_cargo_test c),
                   (''http_post'', pc_http_post c)] of
             Some name \<Rightarrow> Err (BypassesReview name)
           | None \<Rightarrow> Ok ()))"

text \<open>The operations with a lasting or external effect, and a policy that respects them.\<close>

definition high_impact :: "policy_operation \<Rightarrow> bool" where
  "high_impact op \<longleftrightarrow> op \<in> {OpWriteFile, OpRunCargoTest, OpHttpPost}"

definition policy_ok :: "capability_policy_config \<Rightarrow> bool" where
  "policy_ok c \<longleftrightarrow>
     pc_add c \<noteq> Review \<and> pc_read_file c \<noteq> Review \<and> pc_git_status c \<noteq> Review \<and>
     pc_http_get c \<noteq> Review \<and> pc_write_file c \<noteq> Allow \<and> pc_run_cargo_test c \<noteq> Allow \<and>
     pc_http_post c \<noteq> Allow"

lemma validate_capability_policy_iff:
  "validate_capability_policy c = Ok u \<longleftrightarrow> policy_ok c"
  by (simp add: validate_capability_policy_def policy_ok_def)

lemma policy_ok_default [simp]: "policy_ok default_capability_policy"
  by (simp add: policy_ok_def default_capability_policy_def)

lemma evaluate_default:
  "evaluate_operation_with_config op default_capability_policy = evaluate_operation op"
  by (cases op) (simp_all add: evaluate_operation_with_config_def default_capability_policy_def)

lemma policy_ok_decision:
  assumes "policy_ok c"
  shows "high_impact op \<Longrightarrow> decision (evaluate_operation_with_config op c) \<noteq> Allow"
    and "\<not> high_impact op \<Longrightarrow> decision (evaluate_operation_with_config op c) \<noteq> Review"
  using assms
  by (cases op; simp add: evaluate_operation_with_config_def policy_ok_def high_impact_def)+

lemma evaluate_reason:
  "reason (evaluate_operation_with_config op c) = reason (evaluate_operation op)"
  by (cases op) (simp_all add: evaluate_operation_with_config_def)

section \<open>Properties\<close>

text \<open>C21: the validation of a capability policy accepts exactly the policies under
  which a high-impact operation (a write, a Cargo run, an HTTP POST) is never allowed outright and
  no other operation is held for review, whatever the operation asked for.\<close>

theorem policy_gate:
  "(validate_capability_policy c = Ok ()) =
     (\<forall>op. if high_impact op then decision (evaluate_operation_with_config op c) \<in> {Review, Block}
            else decision (evaluate_operation_with_config op c) \<in> {Allow, Block})"
proof
  assume "validate_capability_policy c = Ok ()"
  then have ok: "policy_ok c" by (simp add: validate_capability_policy_iff)
  show "\<forall>op. if high_impact op then decision (evaluate_operation_with_config op c) \<in> {Review, Block}
      else decision (evaluate_operation_with_config op c) \<in> {Allow, Block}"
    using policy_ok_decision [OF ok] policy_decision.exhaust by (metis insertI1 insertI2)
next
  assume all: "\<forall>op. if high_impact op then decision (evaluate_operation_with_config op c) \<in> {Review, Block}
      else decision (evaluate_operation_with_config op c) \<in> {Allow, Block}"
  note evaluate = high_impact_def evaluate_operation_with_config_def
  show "validate_capability_policy c = Ok ()"
    unfolding validate_capability_policy_iff policy_ok_def
    by (intro conjI;
        (use all [THEN spec, of OpAdd] in \<open>fastforce simp: evaluate\<close>
        | use all [THEN spec, of OpReadFile] in \<open>fastforce simp: evaluate\<close>
        | use all [THEN spec, of OpWriteFile] in \<open>fastforce simp: evaluate\<close>
        | use all [THEN spec, of OpGitStatus] in \<open>fastforce simp: evaluate\<close>
        | use all [THEN spec, of OpRunCargoTest] in \<open>fastforce simp: evaluate\<close>
        | use all [THEN spec, of OpHttpGet] in \<open>fastforce simp: evaluate\<close>
        | use all [THEN spec, of OpHttpPost] in \<open>fastforce simp: evaluate\<close>))
qed

end
