(* ===== verification/Execution.thy ===== *)
theory Execution
  imports Policy
begin

text \<open>
  The request and audit data of \<open>execution.rs\<close>, \<open>audit.rs\<close>, \<open>cargo_test.rs\<close> and
  \<open>http_execution.rs\<close>: the structured execution requests, the results they produce and the
  audit record.  Strings are UTF-8 bytes; integers keep their width.
\<close>

section \<open>Requests\<close>

record add_arguments =
  add_left :: i32
  add_right :: i32

record read_file_arguments =
  rf_path :: string

record write_file_arguments =
  wf_path :: string
  wf_content :: string

datatype http_method = Get | Post

record http_request_arguments =
  http_method :: http_method
  http_url :: string
  http_body :: "string option"

datatype execution_request =
    Add add_arguments
  | ReadFile read_file_arguments
  | WriteFile write_file_arguments
  | GitStatus
  | RunCargoTest
  | HttpRequest http_request_arguments

section \<open>Results\<close>

record cargo_test_result =
  ct_success :: bool
  ct_exit_code :: "i32 option"
  ct_timed_out :: bool
  ct_stdout :: string
  ct_stderr :: string
  ct_stdout_truncated :: bool
  ct_stderr_truncated :: bool
  ct_duration_ms :: nat

record http_execution_result =
  hr_status_code :: u16
  hr_body :: string
  hr_body_truncated :: bool
  hr_duration_ms :: nat

datatype execution_result =
    Integer i32
  | TextResult string
  | CargoTest cargo_test_result
  | Http http_execution_result

section \<open>Audit records\<close>

datatype audit_phase = Approval | Rejection | PreExecution | Completion | Reconciliation

datatype execution_outcome = Success | Failed | NotExecuted | Unknown

record audit_record =
  ar_request_id :: uuid
  ar_timestamp_unix :: u64
  ar_message :: string
  ar_phase :: audit_phase
  ar_decision :: policy_decision
  ar_reason :: policy_reason
  ar_execution_outcome :: execution_outcome

section \<open>Write target states\<close>

datatype write_target_state = Missing | Existing string

text \<open>The requests whose effects leave the gateway: a file write, a build and an HTTP POST.\<close>

fun is_reviewable :: "execution_request \<Rightarrow> bool" where
  "is_reviewable (WriteFile _) = True"
| "is_reviewable RunCargoTest = True"
| "is_reviewable (HttpRequest a) = (http_method a = Post)"
| "is_reviewable _ = False"

section \<open>Git status results\<close>

datatype git_change = NewChange | Modified | Deleted | Renamed | Typechange

record git_status_entry =
  ge_path :: string
  ge_index :: "git_change list"
  ge_worktree :: "git_change list"

record git_status_result =
  gr_branch :: "string option"
  gr_entries :: "git_status_entry list"

section \<open>Responses\<close>

record gateway_response =
  gw_request_id :: uuid
  gw_status :: string
  gw_decision :: policy_decision
  gw_reason :: policy_reason
  gw_executed :: bool
  gw_result :: "execution_result option"
  gw_execution_outcome :: execution_outcome

end
