(* ===== verification/Paths.thy ===== *)
theory Paths
  imports Strings
begin

text \<open>
  \<open>std::path\<close> on Unix.  A path is its list of components, which is what \<open>Path\<close> compares,
  joins and takes apart: repeated separators and inner \<open>.\<close> components are gone, a leading
  \<open>.\<close> and every \<open>..\<close> stay.
\<close>

datatype component = RootDir | CurDir | ParentDir | Normal string

type_synonym path = "component list"

fun split_slash :: "string \<Rightarrow> string list" where
  "split_slash [] = [[]]"
| "split_slash (c # cs) =
     (if c = CHR ''/'' then [] # split_slash cs
      else (case split_slash cs of [] \<Rightarrow> [[c]] | w # ws \<Rightarrow> (c # w) # ws))"

definition inner_component :: "string \<Rightarrow> component list" where
  "inner_component w =
     (if w = [] \<or> w = ''.'' then []
      else if w = ''..'' then [ParentDir]
      else [Normal w])"

definition inner_components :: "string list \<Rightarrow> component list" where
  "inner_components ws = concat (List.map inner_component ws)"

definition path_of :: "string \<Rightarrow> path" where
  "path_of s =
     (case s of
        [] \<Rightarrow> []
      | c # cs \<Rightarrow>
          if c = CHR ''/'' then RootDir # inner_components (split_slash cs)
          else (case split_slash s of
                  [] \<Rightarrow> []
                | w # ws \<Rightarrow>
                    (if w = ''.'' then CurDir # inner_components ws
                     else inner_components (w # ws))))"

definition is_absolute :: "path \<Rightarrow> bool" where
  "is_absolute p = (case p of RootDir # _ \<Rightarrow> True | _ \<Rightarrow> False)"

definition path_parent :: "path \<Rightarrow> path option" where
  "path_parent p =
     (if p = [] then None
      else (case last p of RootDir \<Rightarrow> None | _ \<Rightarrow> Some (butlast p)))"

definition path_file_name :: "path \<Rightarrow> string option" where
  "path_file_name p =
     (if p = [] then None
      else (case last p of Normal n \<Rightarrow> Some n | _ \<Rightarrow> None))"

definition path_join :: "path \<Rightarrow> path \<Rightarrow> path" where
  "path_join a b =
     (if is_absolute b then b
      else if a = [] then b
      else a @ filter (\<lambda>c. c \<noteq> CurDir) b)"

definition path_starts_with :: "path \<Rightarrow> path \<Rightarrow> bool" where
  "path_starts_with p q = prefix q p"

definition path_strip_prefix :: "path \<Rightarrow> path \<Rightarrow> path option" where
  "path_strip_prefix p q = (if prefix q p then Some (drop (length q) p) else None)"

definition is_normal :: "component \<Rightarrow> bool" where
  "is_normal c = (case c of Normal _ \<Rightarrow> True | _ \<Rightarrow> False)"

lemma is_normal_simps [simp]:
  "is_normal (Normal n)"
  "\<not> is_normal RootDir"
  "\<not> is_normal CurDir"
  "\<not> is_normal ParentDir"
  by (simp_all add: is_normal_def)

lemma is_absolute_simps [simp]:
  "is_absolute (RootDir # p)"
  "\<not> is_absolute []"
  "is_absolute (c # p) \<longleftrightarrow> c = RootDir"
  by (cases c; simp add: is_absolute_def)+

lemma path_parent_simps [simp]:
  "path_parent [] = None"
  "path_parent (p @ [RootDir]) = None"
  "path_parent (p @ [CurDir]) = Some p"
  "path_parent (p @ [ParentDir]) = Some p"
  "path_parent (p @ [Normal n]) = Some p"
  by (simp_all add: path_parent_def)

lemma path_file_name_simps [simp]:
  "path_file_name [] = None"
  "path_file_name (p @ [Normal n]) = Some n"
  by (simp_all add: path_file_name_def)

lemma path_file_name_SomeD: "path_file_name p = Some n \<Longrightarrow> p = butlast p @ [Normal n]"
  by (metis append_butlast_last_id component.exhaust component.simps path_file_name_def option.inject
      option.distinct(1))

lemma inner_components_no_root: "RootDir \<notin> set (inner_components ws)"
  by (auto simp: inner_components_def inner_component_def split: if_splits)

lemma inner_components_no_cur: "CurDir \<notin> set (inner_components ws)"
  by (auto simp: inner_components_def inner_component_def split: if_splits)

lemma path_of_relative_no_root:
  assumes "\<not> is_absolute (path_of s)"
  shows "RootDir \<notin> set (path_of s)"
  using assms inner_components_no_root
  by (auto simp: path_of_def split: list.splits if_splits)

lemma path_join_prefix:
  assumes "\<not> is_absolute b" and "a \<noteq> []"
  shows "path_starts_with (path_join a b) a"
  using assms by (simp add: path_join_def path_starts_with_def)

lemma path_starts_with_refl [simp]: "path_starts_with p p"
  by (simp add: path_starts_with_def)

lemma path_strip_prefix_append [simp]: "path_strip_prefix (q @ p) q = Some p"
  by (simp add: path_strip_prefix_def)

lemma path_strip_prefix_SomeD: "path_strip_prefix p q = Some r \<Longrightarrow> p = q @ r"
  by (auto simp: path_strip_prefix_def prefix_def split: if_splits)

section \<open>Text of a path\<close>

text \<open>The text of a relative path, its components joined by the separator.\<close>

definition component_text :: "component \<Rightarrow> string" where
  "component_text c =
     (case c of RootDir \<Rightarrow> [] | CurDir \<Rightarrow> ''.'' | ParentDir \<Rightarrow> ''..'' | Normal n \<Rightarrow> n)"

fun relative_text :: "path \<Rightarrow> string" where
  "relative_text [] = []"
| "relative_text [c] = component_text c"
| "relative_text (c # d # p) = component_text c @ CHR ''/'' # relative_text (d # p)"

definition path_text :: "path \<Rightarrow> string" where
  "path_text p =
     (case p of RootDir # q \<Rightarrow> CHR ''/'' # relative_text q | _ \<Rightarrow> relative_text p)"

text \<open>A name a directory can hold: not empty, not a dot name, with no separator.\<close>

definition plain_name :: "string \<Rightarrow> bool" where
  "plain_name n \<longleftrightarrow> n \<noteq> [] \<and> n \<noteq> ''.'' \<and> n \<noteq> ''..'' \<and> CHR ''/'' \<notin> set n"

lemma split_slash_nonempty [simp]: "split_slash s \<noteq> []"
  by (induction s) (auto split: list.splits)

lemma split_slash_no_sep: "CHR ''/'' \<notin> set n \<Longrightarrow> split_slash n = [n]"
  by (induction n) auto

lemma split_slash_append:
  "CHR ''/'' \<notin> set n \<Longrightarrow> split_slash (n @ CHR ''/'' # s) = n # split_slash s"
  by (induction n) auto

lemma inner_component_plain [simp]: "plain_name n \<Longrightarrow> inner_component n = [Normal n]"
  by (auto simp: plain_name_def inner_component_def)

lemma split_slash_relative_text:
  assumes "p \<noteq> []" and "\<forall>c\<in>set p. \<exists>n. c = Normal n \<and> plain_name n"
  shows "split_slash (relative_text p) = List.map component_text p"
  using assms
proof (induction p rule: relative_text.induct)
  case (3 c d p)
  then obtain n where "c = Normal n" and "plain_name n" by auto
  with 3 show ?case
    by (simp add: component_text_def split_slash_append plain_name_def)
qed (auto simp: component_text_def split_slash_no_sep plain_name_def)

lemma inner_components_texts:
  assumes "\<forall>c\<in>set p. \<exists>n. c = Normal n \<and> plain_name n"
  shows "inner_components (List.map component_text p) = p"
  using assms
  by (induction p) (auto simp: inner_components_def component_text_def)

lemma path_of_relative_text:
  assumes "\<forall>c\<in>set p. \<exists>n. c = Normal n \<and> plain_name n"
  shows "path_of (relative_text p) = p"
proof (cases p)
  case Nil
  then show ?thesis by (simp add: path_of_def)
next
  case (Cons c q)
  then obtain n where n: "c = Normal n" "plain_name n" using assms by auto
  have texts: "split_slash (relative_text p) = List.map component_text p"
    using Cons assms by (intro split_slash_relative_text) auto
  from n Cons obtain d ds where head: "relative_text p = d # ds" "d \<noteq> CHR ''/''"
    by (cases q; cases n) (auto simp: component_text_def plain_name_def)
  have "n \<noteq> ''.''" using n by (simp add: plain_name_def)
  with texts head Cons n have "path_of (relative_text p) = inner_components (List.map component_text p)"
    by (simp add: path_of_def component_text_def split: list.splits)
  then show ?thesis using inner_components_texts [OF assms] by simp
qed

lemma relative_text_inj:
  assumes "\<forall>c\<in>set p. \<exists>n. c = Normal n \<and> plain_name n"
    and "\<forall>c\<in>set q. \<exists>n. c = Normal n \<and> plain_name n"
    and "relative_text p = relative_text q"
  shows "p = q"
  using assms path_of_relative_text by metis

end
