(* ===== verification/World.thy ===== *)
theory World
  imports Execution Paths
begin

text \<open>
  What the gateway reaches outside its own memory, as far as the source uses it through
  \<open>std::fs\<close>, \<open>std::time\<close> and the POSIX calls \<open>openat\<close>, \<open>renameat\<close>,
  \<open>unlinkat\<close> and \<open>fsync\<close>: an inode file system with symbolic links and a durable image,
  the wall clock and the monotonic clock (in nanoseconds), a source of UUIDs and the trace of
  effects.  Every call advances a tick; the functions \<open>w_fault\<close>, \<open>w_clock\<close>,
  \<open>w_mono\<close> and \<open>w_uuid\<close> say what the environment does at each tick and are arbitrary, so a theorem about a world covers every pattern of I/O failures.
\<close>

section \<open>I/O errors\<close>

datatype io_error =
    NotFound
  | AlreadyExists
  | NotADirectory
  | IsADirectory
  | FilesystemLoop
  | PermissionDenied
  | InvalidData
  | OtherIo string

section \<open>The file system\<close>

datatype node =
    FileNode string
  | DirNode "(string \<times> nat) list"
  | LinkNode string
  | SocketNode
  | SpecialNode

record inode =
  ino_node :: node
  ino_dev :: nat
  ino_mode :: nat

text \<open>
  \<open>fs_inodes\<close> is what a running process sees, \<open>fs_stable\<close> what the device holds for sure:
  a synced inode has the same value in both.
\<close>

record fsys =
  fs_inodes :: "nat \<Rightarrow> inode option"
  fs_stable :: "nat \<Rightarrow> inode option"
  fs_root :: nat
  fs_cwd :: "(string \<times> nat) list"
  fs_fresh :: nat

datatype file_kind = KFile | KDir | KSymlink | KSocket | KOther

record metadata =
  md_kind :: file_kind
  md_dev :: nat
  md_ino :: nat
  md_mode :: nat

definition node_kind :: "node \<Rightarrow> file_kind" where
  "node_kind n =
     (case n of FileNode _ \<Rightarrow> KFile | DirNode _ \<Rightarrow> KDir | LinkNode _ \<Rightarrow> KSymlink
      | SocketNode \<Rightarrow> KSocket | SpecialNode \<Rightarrow> KOther)"

definition is_file :: "metadata \<Rightarrow> bool" where "is_file m = (md_kind m = KFile)"
definition is_dir :: "metadata \<Rightarrow> bool" where "is_dir m = (md_kind m = KDir)"
definition is_symlink :: "metadata \<Rightarrow> bool" where "is_symlink m = (md_kind m = KSymlink)"
definition is_socket :: "metadata \<Rightarrow> bool" where "is_socket m = (md_kind m = KSocket)"

definition stat_inode :: "fsys \<Rightarrow> nat \<Rightarrow> (metadata, io_error) result" where
  "stat_inode fs i =
     (case fs_inodes fs i of
        None \<Rightarrow> Err NotFound
      | Some n \<Rightarrow> Ok \<lparr>md_kind = node_kind (ino_node n), md_dev = ino_dev n, md_ino = i,
                     md_mode = ino_mode n\<rparr>)"

definition dir_entries :: "fsys \<Rightarrow> nat \<Rightarrow> (string \<times> nat) list option" where
  "dir_entries fs i =
     (case fs_inodes fs i of
        Some n \<Rightarrow> (case ino_node n of DirNode es \<Rightarrow> Some es | _ \<Rightarrow> None)
      | None \<Rightarrow> None)"

definition file_content :: "fsys \<Rightarrow> nat \<Rightarrow> string option" where
  "file_content fs i =
     (case fs_inodes fs i of
        Some n \<Rightarrow> (case ino_node n of FileNode c \<Rightarrow> Some c | _ \<Rightarrow> None)
      | None \<Rightarrow> None)"

definition dir_lookup :: "fsys \<Rightarrow> nat \<Rightarrow> string \<Rightarrow> nat option" where
  "dir_lookup fs d n = (case dir_entries fs d of None \<Rightarrow> None | Some es \<Rightarrow> map_of es n)"

section \<open>Path resolution\<close>

text \<open>
  A position is the stack of names and inodes from the root, innermost first.  \<open>walk\<close> resolves
  a path from a position; it follows a symbolic link in the middle of the path always and at its
  end when asked to, and gives up after the given number of links, as the kernel does after 40.
\<close>

definition max_links :: nat where "max_links = 40"

definition pos_inode :: "fsys \<Rightarrow> (string \<times> nat) list \<Rightarrow> nat" where
  "pos_inode fs st = (case st of [] \<Rightarrow> fs_root fs | (n, i) # _ \<Rightarrow> i)"

function walk ::
  "nat \<Rightarrow> fsys \<Rightarrow> (string \<times> nat) list \<Rightarrow> path \<Rightarrow> bool \<Rightarrow> ((string \<times> nat) list, io_error) result"
where
  "walk k fs st [] follow = Ok st"
| "walk k fs st (RootDir # cs) follow = walk k fs [] cs follow"
| "walk k fs st (CurDir # cs) follow = walk k fs st cs follow"
| "walk k fs st (ParentDir # cs) follow =
     (if dir_entries fs (pos_inode fs st) = None then Err NotADirectory
      else walk k fs (tl st) cs follow)"
| "walk k fs st (Normal n # cs) follow =
     (case dir_entries fs (pos_inode fs st) of
        None \<Rightarrow> Err NotADirectory
      | Some es \<Rightarrow>
          (case map_of es n of
             None \<Rightarrow> Err NotFound
           | Some i \<Rightarrow>
               (case map_option ino_node (fs_inodes fs i) of
                  None \<Rightarrow> Err NotFound
                | Some (LinkNode t) \<Rightarrow>
                    (if cs = [] \<and> \<not> follow then Ok ((n, i) # st)
                     else if k = 0 then Err FilesystemLoop
                     else walk (k - 1) fs st (path_of t @ cs) follow)
                | Some _ \<Rightarrow> walk k fs ((n, i) # st) cs follow)))"
  by pat_completeness auto
termination
  by (relation "measures [\<lambda>(k, fs, st, p, f). k, \<lambda>(k, fs, st, p, f). length p]") auto

definition pos_path :: "(string \<times> nat) list \<Rightarrow> path" where
  "pos_path st = RootDir # List.map (\<lambda>(n, i). Normal n) (rev st)"

definition fs_canonicalize :: "path \<Rightarrow> fsys \<Rightarrow> (path, io_error) result" where
  "fs_canonicalize p fs =
     bind_result (walk max_links fs (fs_cwd fs) p True) (\<lambda>st. Ok (pos_path st))"

definition fs_lookup :: "bool \<Rightarrow> path \<Rightarrow> fsys \<Rightarrow> (nat, io_error) result" where
  "fs_lookup follow p fs =
     bind_result (walk max_links fs (fs_cwd fs) p follow) (\<lambda>st. Ok (pos_inode fs st))"

definition fs_symlink_metadata :: "path \<Rightarrow> fsys \<Rightarrow> (metadata, io_error) result" where
  "fs_symlink_metadata p fs = bind_result (fs_lookup False p fs) (stat_inode fs)"

definition fs_metadata :: "path \<Rightarrow> fsys \<Rightarrow> (metadata, io_error) result" where
  "fs_metadata p fs = bind_result (fs_lookup True p fs) (stat_inode fs)"

definition fs_read_dir :: "path \<Rightarrow> fsys \<Rightarrow> (string list, io_error) result" where
  "fs_read_dir p fs =
     bind_result (fs_lookup True p fs)
       (\<lambda>i. case dir_entries fs i of None \<Rightarrow> Err NotADirectory | Some es \<Rightarrow> Ok (List.map fst es))"

definition fs_read :: "path \<Rightarrow> fsys \<Rightarrow> (string, io_error) result" where
  "fs_read p fs =
     bind_result (fs_lookup True p fs)
       (\<lambda>i. case file_content fs i of None \<Rightarrow> Err IsADirectory | Some c \<Rightarrow> Ok c)"

text \<open>\<open>open\<close> with \<open>O_DIRECTORY\<close> and \<open>O_NOFOLLOW\<close>: the handle is the inode.\<close>

definition fs_open_dir_nofollow :: "path \<Rightarrow> fsys \<Rightarrow> (nat, io_error) result" where
  "fs_open_dir_nofollow p fs =
     bind_result (fs_lookup False p fs)
       (\<lambda>i. if dir_entries fs i = None then Err NotADirectory else Ok i)"

section \<open>Operations relative to an open directory\<close>

definition set_inode :: "nat \<Rightarrow> inode \<Rightarrow> fsys \<Rightarrow> fsys" where
  "set_inode i n fs = fs\<lparr>fs_inodes := (fs_inodes fs)(i \<mapsto> n)\<rparr>"

definition set_entries :: "nat \<Rightarrow> (string \<times> nat) list \<Rightarrow> fsys \<Rightarrow> fsys" where
  "set_entries d es fs =
     (case fs_inodes fs d of
        None \<Rightarrow> fs
      | Some n \<Rightarrow> set_inode d (n\<lparr>ino_node := DirNode es\<rparr>) fs)"

text \<open>\<open>O_CREAT | O_EXCL\<close>: a new empty file, and never an existing entry of any kind.\<close>

definition fs_create_at :: "nat \<Rightarrow> string \<Rightarrow> nat \<Rightarrow> fsys \<Rightarrow> (nat \<times> fsys, io_error) result" where
  "fs_create_at d name mode fs =
     (case dir_entries fs d of
        None \<Rightarrow> Err NotADirectory
      | Some es \<Rightarrow>
          (if map_of es name \<noteq> None then Err AlreadyExists
           else
             (let i = fs_fresh fs;
                  dev = (case fs_inodes fs d of Some n \<Rightarrow> ino_dev n | None \<Rightarrow> 0);
                  file = \<lparr>ino_node = FileNode [], ino_dev = dev, ino_mode = mode\<rparr>
              in Ok (i, set_entries d (AList.update name i es)
                          (set_inode i file (fs\<lparr>fs_fresh := Suc i\<rparr>))))))"

text \<open>\<open>O_NOFOLLOW\<close> on an existing entry, for reading and for writing.\<close>

definition fs_open_at :: "bool \<Rightarrow> nat \<Rightarrow> string \<Rightarrow> fsys \<Rightarrow> (nat, io_error) result" where
  "fs_open_at writing d name fs =
     (case dir_entries fs d of
        None \<Rightarrow> Err NotADirectory
      | Some es \<Rightarrow>
          (case map_of es name of
             None \<Rightarrow> Err NotFound
           | Some i \<Rightarrow>
               (case map_option ino_node (fs_inodes fs i) of
                  None \<Rightarrow> Err NotFound
                | Some (LinkNode _) \<Rightarrow> Err FilesystemLoop
                | Some (DirNode _) \<Rightarrow> (if writing then Err IsADirectory else Ok i)
                | Some SocketNode \<Rightarrow> Err (OtherIo ''No such device or address'')
                | Some _ \<Rightarrow> Ok i)))"

definition fs_rename_at :: "nat \<Rightarrow> string \<Rightarrow> string \<Rightarrow> fsys \<Rightarrow> (unit \<times> fsys, io_error) result" where
  "fs_rename_at d old new fs =
     (case dir_entries fs d of
        None \<Rightarrow> Err NotADirectory
      | Some es \<Rightarrow>
          (case map_of es old of
             None \<Rightarrow> Err NotFound
           | Some i \<Rightarrow>
               (case map_of es new of
                  Some j \<Rightarrow>
                    (if dir_entries fs j \<noteq> None then Err IsADirectory
                     else Ok ((), set_entries d (AList.update new i (AList.delete old es)) fs))
                | None \<Rightarrow> Ok ((), set_entries d (AList.update new i (AList.delete old es)) fs))))"

definition fs_unlink_at :: "nat \<Rightarrow> string \<Rightarrow> fsys \<Rightarrow> (unit \<times> fsys, io_error) result" where
  "fs_unlink_at d name fs =
     (case dir_entries fs d of
        None \<Rightarrow> Err NotADirectory
      | Some es \<Rightarrow>
          (case map_of es name of
             None \<Rightarrow> Err NotFound
           | Some i \<Rightarrow>
               (if dir_entries fs i \<noteq> None then Err IsADirectory
                else Ok ((), set_entries d (AList.delete name es) fs))))"

definition fs_append :: "nat \<Rightarrow> string \<Rightarrow> fsys \<Rightarrow> fsys" where
  "fs_append i bytes fs =
     (case fs_inodes fs i of
        Some n \<Rightarrow>
          (case ino_node n of
             FileNode c \<Rightarrow> set_inode i (n\<lparr>ino_node := FileNode (c @ bytes)\<rparr>) fs
           | _ \<Rightarrow> fs)
      | None \<Rightarrow> fs)"

definition fs_chmod :: "nat \<Rightarrow> nat \<Rightarrow> fsys \<Rightarrow> fsys" where
  "fs_chmod i mode fs =
     (case fs_inodes fs i of
        Some n \<Rightarrow> set_inode i (n\<lparr>ino_mode := mode\<rparr>) fs
      | None \<Rightarrow> fs)"

definition fs_sync :: "nat \<Rightarrow> fsys \<Rightarrow> fsys" where
  "fs_sync i fs = fs\<lparr>fs_stable := (fs_stable fs)(i := fs_inodes fs i)\<rparr>"

section \<open>The world\<close>

text \<open>
  The effects the gateway exists to control, in the order they happen: an audit line written, the
  audit file synced, a workspace file replaced, a build started, an HTTP request sent.
\<close>

datatype event =
    EvAudit audit_record
  | EvAuditSynced
  | EvReplaced string string
  | EvCargo string
  | EvHttp http_method string "string option"

record world =
  w_fs :: fsys
  w_tick :: nat
  w_fault :: "nat \<Rightarrow> (io_error \<times> nat) option"
  w_clock :: "nat \<Rightarrow> u64 option"
  w_mono :: "nat \<Rightarrow> nat"
  w_now :: nat
  w_uuid :: "nat \<Rightarrow> uuid"
  w_trace :: "event list"

definition tick :: "world \<Rightarrow> world" where
  "tick w = w\<lparr>w_tick := Suc (w_tick w)\<rparr>"

definition emit :: "event \<Rightarrow> world \<Rightarrow> world" where
  "emit ev w = w\<lparr>w_trace := w_trace w @ [ev]\<rparr>"

text \<open>A call that reads the file system, one that updates it, and a write that can stop half way.\<close>

definition sys_read :: "(fsys \<Rightarrow> ('a, io_error) result) \<Rightarrow> (world, 'a, io_error) act" where
  "sys_read f w =
     (case w_fault w (w_tick w) of
        Some (e, _) \<Rightarrow> (Err e, tick w)
      | None \<Rightarrow> (f (w_fs w), tick w))"

definition sys_update :: "(fsys \<Rightarrow> ('a \<times> fsys, io_error) result) \<Rightarrow> (world, 'a, io_error) act" where
  "sys_update f w =
     (case w_fault w (w_tick w) of
        Some (e, _) \<Rightarrow> (Err e, tick w)
      | None \<Rightarrow>
          (case f (w_fs w) of
             Err e \<Rightarrow> (Err e, tick w)
           | Ok (x, fs') \<Rightarrow> (Ok x, (tick w)\<lparr>w_fs := fs'\<rparr>)))"

definition sys_write_all :: "nat \<Rightarrow> string \<Rightarrow> (world, unit, io_error) act" where
  "sys_write_all i bytes w =
     (case w_fault w (w_tick w) of
        Some (e, n) \<Rightarrow> (Err e, (tick w)\<lparr>w_fs := fs_append i (take n bytes) (w_fs w)\<rparr>)
      | None \<Rightarrow> (Ok (), (tick w)\<lparr>w_fs := fs_append i bytes (w_fs w)\<rparr>))"

definition sys_sync :: "nat \<Rightarrow> (world, unit, io_error) act" where
  "sys_sync i = sys_update (\<lambda>fs. Ok ((), fs_sync i fs))"

definition sys_chmod :: "nat \<Rightarrow> nat \<Rightarrow> (world, unit, io_error) act" where
  "sys_chmod i mode = sys_update (\<lambda>fs. Ok ((), fs_chmod i mode fs))"

definition sys_fd_metadata :: "nat \<Rightarrow> (world, metadata, io_error) act" where
  "sys_fd_metadata i = sys_read (\<lambda>fs. stat_inode fs i)"

definition new_uuid :: "world \<Rightarrow> uuid \<times> world" where
  "new_uuid w = (w_uuid w (w_tick w), tick w)"

definition now_unix :: "world \<Rightarrow> u64 option \<times> world" where
  "now_unix w = (w_clock w (w_tick w), tick w)"

text \<open>
  \<open>Instant\<close> never goes backwards: each reading adds the time the environment let pass.  A
  sleep lasts at least as long as it was asked to; the rest shows up at the next reading.
\<close>

definition instant_now :: "world \<Rightarrow> nat \<times> world" where
  "instant_now w = (let now = w_now w + w_mono w (w_tick w) in (now, (tick w)\<lparr>w_now := now\<rparr>))"

definition sleep :: "nat \<Rightarrow> world \<Rightarrow> world" where
  "sleep nanoseconds w = w\<lparr>w_now := w_now w + nanoseconds\<rparr>"

end
