(* ===== verification/FsFacts.thy ===== *)
theory FsFacts
  imports World
begin

text \<open>
  How the calls of \<open>World\<close> act on the three views of the file system the proofs use: the entries
  of a directory, the bytes of a file, and the durable image.
\<close>

section \<open>Single updates\<close>

named_theorems fs_simps \<open>the views of an updated file system\<close>

lemma dir_entries_set_inode [fs_simps]:
  "dir_entries (set_inode i n fs) j =
     (if j = i then (case ino_node n of DirNode es \<Rightarrow> Some es | _ \<Rightarrow> None) else dir_entries fs j)"
  by (simp add: dir_entries_def set_inode_def)

lemma file_content_set_inode [fs_simps]:
  "file_content (set_inode i n fs) j =
     (if j = i then (case ino_node n of FileNode c \<Rightarrow> Some c | _ \<Rightarrow> None) else file_content fs j)"
  by (simp add: file_content_def set_inode_def)

lemma fs_inodes_set_inode [fs_simps]: "fs_inodes (set_inode i n fs) = (fs_inodes fs)(i \<mapsto> n)"
  by (simp add: set_inode_def)

lemma fs_stable_set_inode [fs_simps]: "fs_stable (set_inode i n fs) = fs_stable fs"
  by (simp add: set_inode_def)

lemma fs_fresh_set_inode [fs_simps]: "fs_fresh (set_inode i n fs) = fs_fresh fs"
  by (simp add: set_inode_def)

lemma dir_entries_inode: "dir_entries fs d = Some es \<Longrightarrow> \<exists>n. fs_inodes fs d = Some n"
  by (auto simp: dir_entries_def split: option.splits)

lemma dir_entries_set_entries [fs_simps]:
  "dir_entries fs d \<noteq> None \<Longrightarrow>
   dir_entries (set_entries d es fs) j = (if j = d then Some es else dir_entries fs j)"
  by (auto simp: set_entries_def dir_entries_set_inode dest!: dir_entries_inode)

lemma file_content_set_entries [fs_simps]:
  "dir_entries fs d \<noteq> None \<Longrightarrow> file_content (set_entries d es fs) j = file_content fs j"
  by (auto simp: set_entries_def file_content_def set_inode_def dir_entries_def
      split: option.splits node.splits)

lemma fs_stable_set_entries [fs_simps]: "fs_stable (set_entries d es fs) = fs_stable fs"
  by (simp add: set_entries_def fs_simps split: option.splits)

lemma fs_fresh_set_entries [fs_simps]: "fs_fresh (set_entries d es fs) = fs_fresh fs"
  by (simp add: set_entries_def fs_simps split: option.splits)

lemma fs_inodes_set_entries [fs_simps]:
  "j \<noteq> d \<Longrightarrow> fs_inodes (set_entries d es fs) j = fs_inodes fs j"
  by (simp add: set_entries_def fs_simps split: option.splits)

lemma dir_entries_append [fs_simps]: "dir_entries (fs_append i b fs) j = dir_entries fs j"
  by (auto simp: fs_append_def dir_entries_def set_inode_def split: option.splits node.splits)

lemma file_content_append [fs_simps]:
  "file_content (fs_append i b fs) j =
     (if j = i then map_option (\<lambda>c. c @ b) (file_content fs i) else file_content fs j)"
  by (auto simp: fs_append_def file_content_def set_inode_def split: option.splits node.splits)

lemma fs_stable_append [fs_simps]: "fs_stable (fs_append i b fs) = fs_stable fs"
  by (simp add: fs_append_def fs_simps split: option.splits node.splits)

lemma fs_fresh_append [fs_simps]: "fs_fresh (fs_append i b fs) = fs_fresh fs"
  by (simp add: fs_append_def fs_simps split: option.splits node.splits)

lemma fs_inodes_append [fs_simps]: "j \<noteq> i \<Longrightarrow> fs_inodes (fs_append i b fs) j = fs_inodes fs j"
  by (simp add: fs_append_def fs_simps split: option.splits node.splits)

lemma ino_mode_append [fs_simps]:
  "map_option ino_mode (fs_inodes (fs_append i b fs) j) = map_option ino_mode (fs_inodes fs j)"
  by (auto simp: fs_append_def set_inode_def split: option.splits node.splits)

lemma dir_entries_chmod [fs_simps]: "dir_entries (fs_chmod i m fs) j = dir_entries fs j"
  by (auto simp: fs_chmod_def dir_entries_def set_inode_def split: option.splits node.splits)

lemma file_content_chmod [fs_simps]: "file_content (fs_chmod i m fs) j = file_content fs j"
  by (auto simp: fs_chmod_def file_content_def set_inode_def split: option.splits node.splits)

lemma fs_stable_chmod [fs_simps]: "fs_stable (fs_chmod i m fs) = fs_stable fs"
  by (simp add: fs_chmod_def fs_simps split: option.splits)

lemma fs_fresh_chmod [fs_simps]: "fs_fresh (fs_chmod i m fs) = fs_fresh fs"
  by (simp add: fs_chmod_def fs_simps split: option.splits)

lemma ino_mode_chmod [fs_simps]:
  "map_option ino_mode (fs_inodes (fs_chmod i m fs) j) =
     (if j = i then map_option (\<lambda>_. m) (fs_inodes fs i) else map_option ino_mode (fs_inodes fs j))"
  by (auto simp: fs_chmod_def set_inode_def split: option.splits)

lemma dir_entries_sync [fs_simps]: "dir_entries (fs_sync i fs) j = dir_entries fs j"
  by (simp add: fs_sync_def dir_entries_def)

lemma file_content_sync [fs_simps]: "file_content (fs_sync i fs) j = file_content fs j"
  by (simp add: fs_sync_def file_content_def)

lemma fs_inodes_sync [fs_simps]: "fs_inodes (fs_sync i fs) = fs_inodes fs"
  by (simp add: fs_sync_def)

lemma fs_stable_sync [fs_simps]: "fs_stable (fs_sync i fs) = (fs_stable fs)(i := fs_inodes fs i)"
  by (simp add: fs_sync_def)

lemma fs_fresh_sync [fs_simps]: "fs_fresh (fs_sync i fs) = fs_fresh fs"
  by (simp add: fs_sync_def)

lemma dir_entries_fresh [fs_simps]: "dir_entries (fs\<lparr>fs_fresh := k\<rparr>) j = dir_entries fs j"
  by (simp add: dir_entries_def)

lemma file_content_fresh [fs_simps]: "file_content (fs\<lparr>fs_fresh := k\<rparr>) j = file_content fs j"
  by (simp add: file_content_def)

lemma dir_not_file: "dir_entries fs d = Some es \<Longrightarrow> file_content fs d = None"
  by (auto simp: dir_entries_def file_content_def split: option.splits node.splits)

lemma file_not_dir: "file_content fs i = Some c \<Longrightarrow> dir_entries fs i = None"
  by (auto simp: dir_entries_def file_content_def split: option.splits node.splits)

section \<open>Well-formed file systems\<close>

text \<open>Inode numbers not yet handed out are unused, and no directory names one.\<close>

definition fs_wf :: "fsys \<Rightarrow> bool" where
  "fs_wf fs \<longleftrightarrow>
     (\<forall>i\<ge>fs_fresh fs. fs_inodes fs i = None) \<and>
     (\<forall>d es n i. dir_entries fs d = Some es \<longrightarrow> map_of es n = Some i \<longrightarrow> i < fs_fresh fs)"

lemma fs_wf_unused: "fs_wf fs \<Longrightarrow> fs_inodes fs (fs_fresh fs) = None"
  by (simp add: fs_wf_def)

lemma fs_wf_dir_not_fresh: "fs_wf fs \<Longrightarrow> dir_entries fs d = Some es \<Longrightarrow> d \<noteq> fs_fresh fs"
  using fs_wf_unused by (fastforce simp: dir_entries_def)

lemma fs_wf_entry: "fs_wf fs \<Longrightarrow> dir_lookup fs d n = Some i \<Longrightarrow> i < fs_fresh fs"
  by (auto simp: fs_wf_def dir_lookup_def split: option.splits)

section \<open>Creating, renaming and unlinking\<close>

lemma fs_create_at_Ok:
  assumes "fs_create_at d name mode fs = Ok (i, fs')" and "fs_wf fs"
  shows "i = fs_fresh fs" and "i \<noteq> d" and "dir_lookup fs d name = None"
    and "dir_lookup fs' d n = (if n = name then Some i else dir_lookup fs d n)"
    and "file_content fs' j = (if j = i then Some [] else file_content fs j)"
    and "fs_stable fs' = fs_stable fs"
    and "map_option ino_mode (fs_inodes fs' i) = Some mode"
    and "dir_entries fs d \<noteq> None" and "dir_entries fs' d \<noteq> None"
proof -
  obtain es where es: "dir_entries fs d = Some es" "map_of es name = None"
    and i: "i = fs_fresh fs"
    using assms(1) by (auto simp: fs_create_at_def Let_def split: option.splits if_splits)
  let ?file = "\<lparr>ino_node = FileNode [],
      ino_dev = (case fs_inodes fs d of Some n \<Rightarrow> ino_dev n | None \<Rightarrow> 0), ino_mode = mode\<rparr>"
  let ?fs1 = "set_inode i ?file (fs\<lparr>fs_fresh := Suc i\<rparr>)"
  have fs': "fs' = set_entries d (AList.update name i es) ?fs1"
    using assms(1) es by (auto simp: fs_create_at_def Let_def)
  show "i = fs_fresh fs" by (rule i)
  show d: "i \<noteq> d" using fs_wf_dir_not_fresh [OF assms(2) es(1)] i by simp
  have d1: "dir_entries ?fs1 d = Some es" using d es by (simp add: fs_simps)
  show "dir_lookup fs d name = None" using es by (simp add: dir_lookup_def)
  show "dir_lookup fs' d n = (if n = name then Some i else dir_lookup fs d n)"
    using d1 es by (simp add: fs' dir_lookup_def fs_simps update_conv')
  show "file_content fs' j = (if j = i then Some [] else file_content fs j)"
    using d1 by (simp add: fs' fs_simps)
  show "fs_stable fs' = fs_stable fs" by (simp add: fs' fs_simps)
  show "map_option ino_mode (fs_inodes fs' i) = Some mode"
    using d by (simp add: fs' fs_simps)
  show "dir_entries fs d \<noteq> None" using es by simp
  show "dir_entries fs' d \<noteq> None" using d1 by (simp add: fs' fs_simps)
qed

lemma fs_open_at_Ok:
  assumes "fs_open_at True d name fs = Ok i"
  shows "dir_lookup fs d name = Some i"
  using assms by (auto simp: fs_open_at_def dir_lookup_def split: option.splits node.splits)

lemma fs_rename_at_Ok:
  assumes "fs_rename_at d old new fs = Ok (u, fs')" and "old \<noteq> new"
  shows "dir_lookup fs' d n =
           (if n = new then dir_lookup fs d old else if n = old then None else dir_lookup fs d n)"
    and "file_content fs' j = file_content fs j"
    and "fs_stable fs' = fs_stable fs"
    and "dir_lookup fs d old \<noteq> None"
    and "dir_entries fs' d \<noteq> None"
proof -
  obtain es i where es: "dir_entries fs d = Some es" "map_of es old = Some i"
    and fs': "fs' = set_entries d (AList.update new i (AList.delete old es)) fs"
    using assms(1) by (auto simp: fs_rename_at_def split: option.splits if_splits)
  show "dir_lookup fs' d n =
           (if n = new then dir_lookup fs d old else if n = old then None else dir_lookup fs d n)"
    using es assms(2) by (simp add: fs' dir_lookup_def fs_simps update_conv' delete_conv')
  show "file_content fs' j = file_content fs j" using es by (simp add: fs' fs_simps)
  show "fs_stable fs' = fs_stable fs" by (simp add: fs' fs_simps)
  show "dir_lookup fs d old \<noteq> None" using es by (simp add: dir_lookup_def)
  show "dir_entries fs' d \<noteq> None" using es by (simp add: fs' fs_simps)
qed

lemma fs_unlink_at_Ok:
  assumes "fs_unlink_at d name fs = Ok (u, fs')"
  shows "dir_lookup fs' d n = (if n = name then None else dir_lookup fs d n)"
    and "file_content fs' j = file_content fs j"
    and "fs_stable fs' = fs_stable fs"
proof -
  obtain es where es: "dir_entries fs d = Some es"
    and fs': "fs' = set_entries d (AList.delete name es) fs"
    using assms(1) by (auto simp: fs_unlink_at_def split: option.splits if_splits)
  show "dir_lookup fs' d n = (if n = name then None else dir_lookup fs d n)"
    using es by (simp add: fs' dir_lookup_def fs_simps delete_conv')
  show "file_content fs' j = file_content fs j" using es by (simp add: fs' fs_simps)
  show "fs_stable fs' = fs_stable fs" by (simp add: fs' fs_simps)
qed

lemma fs_create_at_inodes:
  assumes "fs_create_at d name mode fs = Ok (i, fs')" and "j \<noteq> i" and "j \<noteq> d"
  shows "fs_inodes fs' j = fs_inodes fs j"
  using assms by (auto simp: fs_create_at_def Let_def fs_simps split: option.splits if_splits)

lemma fs_rename_at_inodes:
  assumes "fs_rename_at d old new fs = Ok (u, fs')" and "j \<noteq> d"
  shows "fs_inodes fs' j = fs_inodes fs j"
  using assms by (auto simp: fs_rename_at_def fs_simps split: option.splits if_splits)

lemma fs_unlink_at_inodes:
  assumes "fs_unlink_at d name fs = Ok (u, fs')" and "j \<noteq> d"
  shows "fs_inodes fs' j = fs_inodes fs j"
  using assms by (auto simp: fs_unlink_at_def fs_simps split: option.splits if_splits)

section \<open>Preservation of well-formedness\<close>

lemma fs_wf_append [simp]: "fs_wf fs \<Longrightarrow> fs_wf (fs_append i b fs)"
  unfolding fs_wf_def
  by (auto simp: fs_simps) (auto simp: fs_append_def set_inode_def split: option.splits node.splits)

lemma fs_wf_chmod [simp]: "fs_wf fs \<Longrightarrow> fs_wf (fs_chmod i m fs)"
  unfolding fs_wf_def
  by (auto simp: fs_simps) (auto simp: fs_chmod_def set_inode_def split: option.splits)

lemma fs_wf_sync [simp]: "fs_wf fs \<Longrightarrow> fs_wf (fs_sync i fs)"
  by (simp add: fs_wf_def fs_simps)

lemma fs_wf_set_entries:
  assumes "fs_wf fs" and "dir_entries fs d \<noteq> None"
    and "\<And>n i. map_of es n = Some i \<Longrightarrow> i < fs_fresh fs"
  shows "fs_wf (set_entries d es fs)"
proof -
  obtain n where "fs_inodes fs d = Some n"
    using assms(2) by (auto simp: dir_entries_def split: option.splits)
  moreover have "d < fs_fresh fs"
    using assms(1) calculation unfolding fs_wf_def by (metis not_le option.distinct(1))
  ultimately show ?thesis
    using assms unfolding fs_wf_def
    by (auto simp: fs_simps)
qed

lemma fs_wf_create_at:
  assumes "fs_create_at d name mode fs = Ok (i, fs')" and "fs_wf fs"
  shows "fs_wf fs'"
proof -
  obtain es where es: "dir_entries fs d = Some es" and i: "i = fs_fresh fs"
    using assms(1) by (auto simp: fs_create_at_def Let_def split: option.splits if_splits)
  define fnode where "fnode = \<lparr>ino_node = FileNode [],
      ino_dev = (case fs_inodes fs d of Some n \<Rightarrow> ino_dev n | None \<Rightarrow> 0), ino_mode = mode\<rparr>"
  let ?fs1 = "set_inode i fnode (fs\<lparr>fs_fresh := Suc i\<rparr>)"
  have fs': "fs' = set_entries d (AList.update name i es) ?fs1"
    using assms(1) es by (auto simp: fs_create_at_def Let_def fnode_def split: if_splits)
  have d: "d \<noteq> i" using fs_wf_dir_not_fresh [OF assms(2) es] i by simp
  have old: "k < Suc i" if "dir_entries fs e = Some es'" "map_of es' n = Some k" for e es' n k
    using assms(2) that i unfolding fs_wf_def by (meson less_SucI)
  have wf1: "fs_wf ?fs1"
    using assms(2) old i
    by (auto simp: fs_wf_def fs_simps fnode_def split: if_splits)
  show ?thesis
    unfolding fs'
    by (rule fs_wf_set_entries [OF wf1])
      (use d es old i in \<open>auto simp: fs_simps update_conv' split: if_splits\<close>)
qed

lemma fs_wf_rename_at:
  assumes "fs_rename_at d old new fs = Ok (u, fs')" and "fs_wf fs"
  shows "fs_wf fs'"
proof -
  obtain es i where es: "dir_entries fs d = Some es" "map_of es old = Some i"
    and fs': "fs' = set_entries d (AList.update new i (AList.delete old es)) fs"
    using assms(1) by (auto simp: fs_rename_at_def split: option.splits if_splits)
  have bound: "k < fs_fresh fs" if "map_of es n = Some k" for n k
    using assms(2) es(1) that unfolding fs_wf_def by blast
  show ?thesis
    unfolding fs'
    by (rule fs_wf_set_entries [OF assms(2)])
      (use es bound in \<open>auto simp: update_conv' delete_conv' split: if_splits\<close>)
qed

lemma fs_wf_unlink_at:
  assumes "fs_unlink_at d name fs = Ok (u, fs')" and "fs_wf fs"
  shows "fs_wf fs'"
proof -
  obtain es where es: "dir_entries fs d = Some es"
    and fs': "fs' = set_entries d (AList.delete name es) fs"
    using assms(1) by (auto simp: fs_unlink_at_def split: option.splits if_splits)
  have bound: "k < fs_fresh fs" if "map_of es n = Some k" for n k
    using assms(2) es that unfolding fs_wf_def by blast
  show ?thesis
    unfolding fs'
    by (rule fs_wf_set_entries [OF assms(2)])
      (use es bound in \<open>auto simp: delete_conv' split: if_splits\<close>)
qed

lemma dir_lookup_sync [fs_simps]: "dir_lookup (fs_sync i fs) d n = dir_lookup fs d n"
  by (simp add: dir_lookup_def fs_simps)

lemma dir_lookup_append [fs_simps]: "dir_lookup (fs_append i b fs) d n = dir_lookup fs d n"
  by (simp add: dir_lookup_def fs_simps)

lemma dir_lookup_chmod [fs_simps]: "dir_lookup (fs_chmod i m fs) d n = dir_lookup fs d n"
  by (simp add: dir_lookup_def fs_simps)

section \<open>Calls of the world\<close>

lemma sys_read_cases:
  assumes "sys_read f w = (r, w')"
  obtains e where "r = Err e" and "w' = tick w" | "r = f (w_fs w)" and "w' = tick w"
  using assms by (auto simp: sys_read_def split: option.splits)

lemma sys_read_OkD: "sys_read f w = (Ok x, w') \<Longrightarrow> f (w_fs w) = Ok x \<and> w' = tick w"
  by (auto simp: sys_read_def split: option.splits)

lemma sys_update_OkD:
  "sys_update f w = (Ok x, w') \<Longrightarrow>
   \<exists>fs'. f (w_fs w) = Ok (x, fs') \<and> w' = (tick w)\<lparr>w_fs := fs'\<rparr>"
  by (auto simp: sys_update_def split: option.splits result.splits)

lemma sys_update_ErrD: "sys_update f w = (Err e, w') \<Longrightarrow> w' = tick w"
  by (auto simp: sys_update_def split: option.splits result.splits)

lemma sys_read_fs: "sys_read f w = (r, w') \<Longrightarrow> w_fs w' = w_fs w"
  by (auto simp: sys_read_def tick_def split: option.splits)

lemma w_fs_tick [simp]: "w_fs (tick w) = w_fs w"
  by (simp add: tick_def)

lemma sys_sync_OkD: "sys_sync i w = (Ok u, w') \<Longrightarrow> w' = (tick w)\<lparr>w_fs := fs_sync i (w_fs w)\<rparr>"
  by (auto simp: sys_sync_def dest: sys_update_OkD)

lemma sys_sync_ErrD: "sys_sync i w = (Err e, w') \<Longrightarrow> w' = tick w"
  by (auto simp: sys_sync_def dest: sys_update_ErrD)

lemma sys_chmod_OkD:
  "sys_chmod i m w = (Ok u, w') \<Longrightarrow> w' = (tick w)\<lparr>w_fs := fs_chmod i m (w_fs w)\<rparr>"
  by (auto simp: sys_chmod_def dest: sys_update_OkD)

lemma sys_chmod_ErrD: "sys_chmod i m w = (Err e, w') \<Longrightarrow> w' = tick w"
  by (auto simp: sys_chmod_def dest: sys_update_ErrD)

lemma sys_write_all_OkD:
  "sys_write_all i b w = (Ok u, w') \<Longrightarrow> w' = (tick w)\<lparr>w_fs := fs_append i b (w_fs w)\<rparr>"
  by (auto simp: sys_write_all_def split: option.splits)

lemma sys_write_all_ErrD:
  "sys_write_all i b w = (Err e, w') \<Longrightarrow>
   \<exists>n. w' = (tick w)\<lparr>w_fs := fs_append i (take n b) (w_fs w)\<rparr>"
  by (auto simp: sys_write_all_def split: option.splits prod.splits)

lemma sys_fd_metadata_OkD:
  "sys_fd_metadata i w = (Ok m, w') \<Longrightarrow> stat_inode (w_fs w) i = Ok m \<and> w' = tick w"
  by (auto simp: sys_fd_metadata_def dest: sys_read_OkD)

lemma stat_is_file: "stat_inode fs i = Ok m \<Longrightarrow> is_file m \<longleftrightarrow> file_content fs i \<noteq> None"
  by (auto simp: stat_inode_def is_file_def node_kind_def file_content_def
      split: option.splits node.splits)

lemma stat_is_dir: "stat_inode fs i = Ok m \<Longrightarrow> is_dir m \<longleftrightarrow> dir_entries fs i \<noteq> None"
  by (auto simp: stat_inode_def is_dir_def node_kind_def dir_entries_def
      split: option.splits node.splits)

lemmas sys_OkDs =
  sys_read_OkD sys_update_OkD sys_sync_OkD sys_chmod_OkD sys_write_all_OkD sys_fd_metadata_OkD

end
