(* ===== verification/Externals.thy ===== *)
theory Externals
  imports FsFacts
begin

text \<open>
  The third-party crates the gateway calls, as parameters of the model: a record of functions that
  the definitions take as an argument.  Nothing is defined about them here.  Results that depend on
  the environment (name resolution, an HTTP exchange, a child process, a repository) take the tick
  at which they are asked, so that two calls may answer differently.

  The anchored workspace directory of \<open>cap-std\<close> (\<open>Dir\<close>) is the record \<open>cap_dir\<close>: its
  methods act on the file system and report I/O errors.
\<close>

section \<open>URLs (crate url)\<close>

datatype url_host =
    Domain string
  | Ipv4Host u32
  | Ipv6Host uuid

record url =
  url_scheme :: string
  url_username :: string
  url_password :: "string option"
  url_host :: "url_host option"
  url_port :: "u16 option"
  url_text :: string

section \<open>Anchored directories (crate cap-std)\<close>

record cap_dir =
  cd_open_dir_nofollow :: "path \<Rightarrow> fsys \<Rightarrow> (unit, io_error) result"
  cd_symlink_metadata :: "path \<Rightarrow> fsys \<Rightarrow> (metadata, io_error) result"
  cd_open_nofollow :: "path \<Rightarrow> fsys \<Rightarrow> (nat, io_error) result"
  cd_create_new :: "path \<Rightarrow> fsys \<Rightarrow> (nat \<times> fsys, io_error) result"
  cd_rename :: "path \<Rightarrow> path \<Rightarrow> fsys \<Rightarrow> (unit \<times> fsys, io_error) result"
  cd_remove_file :: "path \<Rightarrow> fsys \<Rightarrow> (unit \<times> fsys, io_error) result"

section \<open>Network addresses\<close>

datatype ip_addr = V4 "u8 \<times> u8 \<times> u8 \<times> u8" | V6 "u16 list"

record socket_addr =
  sa_ip :: ip_addr
  sa_port :: u16

section \<open>Cargo child processes\<close>

text \<open>
  What the executor observes of a spawned child: the answers of \<open>try_wait\<close> poll by poll (an
  error, still running, or an exit with success flag and code), the result of the kill and of the
  final wait, and the bytes the child leaves in its two capture files.
\<close>

datatype exit_status = ExitStatus bool "i32 option"

record child_process =
  ch_pid :: u32
  ch_poll :: "nat \<Rightarrow> (exit_status option, io_error) result"
  ch_kill :: "nat \<Rightarrow> (unit, io_error) result"
  ch_wait :: "(exit_status, io_error) result"
  ch_stdout :: string
  ch_stderr :: string

section \<open>All parameters\<close>

record http_client =
  hc_timeout :: nat
  hc_redirects :: bool
  hc_proxy :: bool
  hc_https_only :: bool
  hc_host :: string
  hc_addresses :: "socket_addr list"

record http_response =
  rs_status :: u16
  rs_chunks :: "(string, io_error) result list"

text \<open>
  A libgit2 status is a set of flags; \<open>head\<close> and \<open>shorthand\<close> can each fail, and so can
  the path of an entry.
\<close>

datatype git_status_flag =
    IndexNew | IndexModified | IndexDeleted | IndexRenamed | IndexTypechange
  | WtNew | WtModified | WtDeleted | WtRenamed | WtTypechange

record git_entry =
  gi_path :: "(string, string) result"
  gi_status :: "git_status_flag list"

record git_repository =
  gp_path :: path
  gp_workdir :: "path option"
  gp_head :: "((string, string) result, string) result"
  gp_statuses :: "(git_entry list, string) result"

text \<open>
  Wasmtime, one field per call: building an engine with fuel and epoch interruption on, compiling a
  module text, setting the fuel of a store, instantiating, looking up an export, and calling it with
  two numbers while a timer thread runs (the answer of the call and whether the timer joined).
\<close>

record wasm_limits =
  wl_fuel :: u64
  wl_memory_bytes :: usize
  wl_epoch_deadline :: u64
  wl_timeout :: nat

record wasmtime =
  wm_engine :: "bool \<Rightarrow> bool \<Rightarrow> (unit, string) result"
  wm_module :: "string \<Rightarrow> (unit, string) result"
  wm_set_fuel :: "u64 \<Rightarrow> (unit, string) result"
  wm_instance :: "nat \<Rightarrow> wasm_limits \<Rightarrow> string \<Rightarrow> (unit, string) result"
  wm_typed_func :: "string \<Rightarrow> string \<Rightarrow> (unit, string) result"
  wm_call :: "nat \<Rightarrow> wasm_limits \<Rightarrow> string \<Rightarrow> string \<Rightarrow> i32 \<Rightarrow> i32 \<Rightarrow> (i32, string) result"
  wm_timer_joined :: "nat \<Rightarrow> bool"

text \<open>
  \<open>x_env\<close>, \<open>x_temp_dir\<close>, \<open>x_process_id\<close> and \<open>x_euid\<close> are the process environment
  (\<open>std::env::vars_os\<close>, \<open>temp_dir\<close>, \<open>std::process::id\<close>, \<open>geteuid\<close>), \<open>x_platform\<close> is the
  target the program was compiled for.
\<close>

datatype platform = MacOs | Linux | OtherPlatform

record externals =
  x_env :: "(string \<times> string) list"
  x_temp_dir :: path
  x_process_id :: u32
  x_euid :: u32
  x_platform :: platform
  x_url_parse :: "string \<Rightarrow> (url, string) result"
  x_host_str :: "url \<Rightarrow> string option"
  x_port_or_known_default :: "url \<Rightarrow> u16 option"
  x_host_parse :: "string \<Rightarrow> (url_host, string) result"
  x_sha256 :: "string \<Rightarrow> string"
  x_uuid_parse :: "string \<Rightarrow> uuid option"
  x_uuid_text :: "uuid \<Rightarrow> string"
  x_audit_json :: "audit_record \<Rightarrow> (string, string) result"
  x_cargo_json :: "cargo_test_result \<Rightarrow> (string, string) result"
  x_http_json :: "http_execution_result \<Rightarrow> (string, string) result"
  x_response_json :: "gateway_response \<Rightarrow> (string, string) result"
  x_open_ambient_dir :: "path \<Rightarrow> fsys \<Rightarrow> (cap_dir, io_error) result"
  x_resolve :: "nat \<Rightarrow> string \<Rightarrow> u16 \<Rightarrow> (socket_addr list, io_error) result"
  x_client_build :: "http_client \<Rightarrow> (unit, string) result"
  x_http_send ::
    "nat \<Rightarrow> http_client \<Rightarrow> http_method \<Rightarrow> string \<Rightarrow> string option \<Rightarrow> (http_response, string) result"
  x_wasm :: wasmtime
  x_git_open :: "nat \<Rightarrow> path \<Rightarrow> (git_repository, string) result"
  x_git_json :: "git_status_result \<Rightarrow> (string, string) result"
  x_spawn_cargo :: "nat \<Rightarrow> path \<Rightarrow> (string \<times> string) list \<Rightarrow> (child_process, io_error) result"

end
