(* ===== verification/Config.thy ===== *)
theory Config
  imports Externals
begin

text \<open>
  \<open>config.rs\<close> with the configuration structs of \<open>cargo_test.rs\<close>, \<open>http_execution.rs\<close>
  and \<open>sandbox.rs\<close>: the defaults, the TOML overlay, the hard maximums and the validation every
  configuration passes before the gateway starts.  A \<open>Duration\<close> is its number of nanoseconds;
  counts and sizes are 64-bit words.  The TOML parser and the URL host parser are parameters.
\<close>

section \<open>Durations and maximums\<close>

definition from_secs :: "u64 \<Rightarrow> nat" where
  "from_secs s = unat s * 1000000000"

definition from_millis :: "u64 \<Rightarrow> nat" where
  "from_millis ms = unat ms * 1000000"

definition MAX_HTTP_TIMEOUT_SECONDS :: u64 where "MAX_HTTP_TIMEOUT_SECONDS = 60"
definition MAX_HTTP_REQUEST_BODY_BYTES :: usize where "MAX_HTTP_REQUEST_BODY_BYTES = 1024 * 1024"
definition MAX_HTTP_RESPONSE_BODY_BYTES :: usize where
  "MAX_HTTP_RESPONSE_BODY_BYTES = 4 * 1024 * 1024"
definition MAX_CARGO_TEST_TIMEOUT_SECONDS :: u64 where "MAX_CARGO_TEST_TIMEOUT_SECONDS = 10 * 60"
definition MAX_CARGO_OUTPUT_BYTES :: usize where "MAX_CARGO_OUTPUT_BYTES = 1024 * 1024"
definition MAX_SANDBOX_FUEL_LIMIT :: u64 where "MAX_SANDBOX_FUEL_LIMIT = 10000000"
definition MAX_SANDBOX_MEMORY_BYTES :: usize where "MAX_SANDBOX_MEMORY_BYTES = 64 * 1024 * 1024"
definition MAX_SANDBOX_TIMEOUT_MILLISECONDS :: u64 where "MAX_SANDBOX_TIMEOUT_MILLISECONDS = 5000"

lemmas config_maximums =
  MAX_HTTP_TIMEOUT_SECONDS_def MAX_HTTP_REQUEST_BODY_BYTES_def MAX_HTTP_RESPONSE_BODY_BYTES_def
  MAX_CARGO_TEST_TIMEOUT_SECONDS_def MAX_CARGO_OUTPUT_BYTES_def MAX_SANDBOX_FUEL_LIMIT_def
  MAX_SANDBOX_MEMORY_BYTES_def MAX_SANDBOX_TIMEOUT_MILLISECONDS_def

section \<open>Configuration structs and defaults\<close>

record http_execution_config =
  he_timeout :: nat
  he_max_request_body_bytes :: usize
  he_max_response_body_bytes :: usize

definition default_http_execution :: http_execution_config where
  "default_http_execution =
     \<lparr>he_timeout = from_secs 10, he_max_request_body_bytes = 64 * 1024,
      he_max_response_body_bytes = 256 * 1024\<rparr>"

record http_policy_config =
  hp_allowed_hosts :: "string list"
  hp_execution :: http_execution_config

definition default_http_policy :: http_policy_config where
  "default_http_policy =
     \<lparr>hp_allowed_hosts = [''api.example.com''], hp_execution = default_http_execution\<rparr>"

record cargo_test_config =
  cc_timeout :: nat
  cc_max_stdout_bytes :: usize
  cc_max_stderr_bytes :: usize

definition default_cargo_test :: cargo_test_config where
  "default_cargo_test =
     \<lparr>cc_timeout = from_secs 60, cc_max_stdout_bytes = 64 * 1024,
      cc_max_stderr_bytes = 64 * 1024\<rparr>"

record sandbox_config =
  sb_fuel_limit :: u64
  sb_memory_limit_bytes :: usize
  sb_timeout :: nat

definition default_sandbox :: sandbox_config where
  "default_sandbox =
     \<lparr>sb_fuel_limit = 10000, sb_memory_limit_bytes = 2 * 1024 * 1024,
      sb_timeout = from_millis 250\<rparr>"

record gateway_config =
  gc_http :: http_policy_config
  gc_cargo_test :: cargo_test_config
  gc_sandbox :: sandbox_config
  gc_policy :: capability_policy_config

definition default_gateway_config :: gateway_config where
  "default_gateway_config =
     \<lparr>gc_http = default_http_policy, gc_cargo_test = default_cargo_test,
      gc_sandbox = default_sandbox, gc_policy = default_capability_policy\<rparr>"

lemmas config_defaults =
  default_gateway_config_def default_http_policy_def default_http_execution_def
  default_cargo_test_def default_sandbox_def

section \<open>The configuration file\<close>

record cargo_test_config_file =
  cf_timeout_seconds :: "u64 option"
  cf_max_stdout_bytes :: "usize option"
  cf_max_stderr_bytes :: "usize option"

record sandbox_config_file =
  sf_fuel_limit :: "u64 option"
  sf_memory_limit_bytes :: "usize option"
  sf_timeout_milliseconds :: "u64 option"

record http_config_file =
  hf_allowed_hosts :: "string list option"
  hf_timeout_seconds :: "u64 option"
  hf_max_request_body_bytes :: "usize option"
  hf_max_response_body_bytes :: "usize option"

record capability_policy_config_file =
  pf_add :: "string option"
  pf_read_file :: "string option"
  pf_write_file :: "string option"
  pf_git_status :: "string option"
  pf_run_cargo_test :: "string option"
  pf_http_get :: "string option"
  pf_http_post :: "string option"

record gateway_config_file =
  gf_http :: "http_config_file option"
  gf_policy :: "capability_policy_config_file option"
  gf_cargo_test :: "cargo_test_config_file option"
  gf_sandbox :: "sandbox_config_file option"

section \<open>Errors\<close>

datatype config_error =
    ConfigUnreadable io_error
  | ConfigUnparsable string
  | InvalidDecision string string
  | PolicyRejected policy_error
  | HttpTimeoutZero
  | HttpRequestBodyZero
  | HttpResponseBodyZero
  | HttpTimeoutTooLarge
  | HttpRequestBodyTooLarge
  | HttpResponseBodyTooLarge
  | HostEmpty
  | HostInvalid string string
  | HostIsIp string
  | HostIsLocalhost
  | HostDuplicate string
  | CargoTimeoutZero
  | CargoStdoutZero
  | CargoStderrZero
  | CargoTimeoutTooLarge
  | CargoStdoutTooLarge
  | CargoStderrTooLarge
  | SandboxFuelZero
  | SandboxMemoryZero
  | SandboxTimeoutZero
  | SandboxFuelTooLarge
  | SandboxMemoryTooLarge
  | SandboxTimeoutTooLarge

section \<open>Parsing\<close>

definition parse_policy_decision :: "string \<Rightarrow> string \<Rightarrow> (policy_decision, config_error) result" where
  "parse_policy_decision name value =
     (let v = to_ascii_lowercase (trim value) in
      if v = ''allow'' then Ok Allow
      else if v = ''review'' then Ok Review
      else if v = ''block'' then Ok Block
      else Err (InvalidDecision name v))"

text \<open>\<open>if let Some(value) = field { target = value }\<close>, without and with parsing.\<close>

definition overlay :: "'a option \<Rightarrow> ('a \<Rightarrow> 'c \<Rightarrow> 'c) \<Rightarrow> 'c \<Rightarrow> 'c" where
  "overlay v upd c = (case v of None \<Rightarrow> c | Some x \<Rightarrow> upd x c)"

definition overlay_decision ::
  "string \<Rightarrow> string option \<Rightarrow> (policy_decision \<Rightarrow> capability_policy_config \<Rightarrow> capability_policy_config)
   \<Rightarrow> capability_policy_config \<Rightarrow> (capability_policy_config, config_error) result" where
  "overlay_decision name v upd c =
     (case v of
        None \<Rightarrow> Ok c
      | Some s \<Rightarrow> bind_result (parse_policy_decision name s) (\<lambda>d. Ok (upd d c)))"

definition overlay_http :: "http_config_file \<Rightarrow> http_policy_config \<Rightarrow> http_policy_config" where
  "overlay_http f c =
     (let c1 = overlay (hf_allowed_hosts f) (\<lambda>h c. c\<lparr>hp_allowed_hosts := h\<rparr>) c;
          e0 = hp_execution c1;
          e1 = overlay (hf_timeout_seconds f) (\<lambda>s e. e\<lparr>he_timeout := from_secs s\<rparr>) e0;
          e2 = overlay (hf_max_request_body_bytes f) (\<lambda>n e. e\<lparr>he_max_request_body_bytes := n\<rparr>) e1;
          e3 = overlay (hf_max_response_body_bytes f) (\<lambda>n e. e\<lparr>he_max_response_body_bytes := n\<rparr>) e2
      in c1\<lparr>hp_execution := e3\<rparr>)"

definition overlay_cargo :: "cargo_test_config_file \<Rightarrow> cargo_test_config \<Rightarrow> cargo_test_config" where
  "overlay_cargo f c =
     overlay (cf_max_stderr_bytes f) (\<lambda>n c. c\<lparr>cc_max_stderr_bytes := n\<rparr>)
       (overlay (cf_max_stdout_bytes f) (\<lambda>n c. c\<lparr>cc_max_stdout_bytes := n\<rparr>)
         (overlay (cf_timeout_seconds f) (\<lambda>s c. c\<lparr>cc_timeout := from_secs s\<rparr>) c))"

definition overlay_sandbox :: "sandbox_config_file \<Rightarrow> sandbox_config \<Rightarrow> sandbox_config" where
  "overlay_sandbox f c =
     overlay (sf_timeout_milliseconds f) (\<lambda>ms c. c\<lparr>sb_timeout := from_millis ms\<rparr>)
       (overlay (sf_memory_limit_bytes f) (\<lambda>n c. c\<lparr>sb_memory_limit_bytes := n\<rparr>)
         (overlay (sf_fuel_limit f) (\<lambda>n c. c\<lparr>sb_fuel_limit := n\<rparr>) c))"

definition overlay_policy ::
  "capability_policy_config_file \<Rightarrow> capability_policy_config
   \<Rightarrow> (capability_policy_config, config_error) result" where
  "overlay_policy f c =
     bind_result (overlay_decision ''add'' (pf_add f) (\<lambda>d c. c\<lparr>pc_add := d\<rparr>) c) (\<lambda>c.
     bind_result (overlay_decision ''read_file'' (pf_read_file f) (\<lambda>d c. c\<lparr>pc_read_file := d\<rparr>) c) (\<lambda>c.
     bind_result (overlay_decision ''write_file'' (pf_write_file f) (\<lambda>d c. c\<lparr>pc_write_file := d\<rparr>) c) (\<lambda>c.
     bind_result (overlay_decision ''git_status'' (pf_git_status f) (\<lambda>d c. c\<lparr>pc_git_status := d\<rparr>) c) (\<lambda>c.
     bind_result
       (overlay_decision ''run_cargo_test'' (pf_run_cargo_test f) (\<lambda>d c. c\<lparr>pc_run_cargo_test := d\<rparr>) c) (\<lambda>c.
     bind_result (overlay_decision ''http_get'' (pf_http_get f) (\<lambda>d c. c\<lparr>pc_http_get := d\<rparr>) c) (\<lambda>c.
     overlay_decision ''http_post'' (pf_http_post f) (\<lambda>d c. c\<lparr>pc_http_post := d\<rparr>) c))))))"


section \<open>Validation\<close>

definition check :: "bool \<Rightarrow> 'e \<Rightarrow> (unit, 'e) result \<Rightarrow> (unit, 'e) result" where
  "check bad e rest = (if bad then Err e else rest)"

lemma check_eq_Ok [simp]: "check bad e rest = Ok u \<longleftrightarrow> \<not> bad \<and> rest = Ok u"
  by (simp add: check_def)

fun validate_hosts ::
  "(string \<Rightarrow> (url_host, string) result) \<Rightarrow> string list \<Rightarrow> string list \<Rightarrow> (unit, config_error) result"
where
  "validate_hosts host_parse seen [] = Ok ()"
| "validate_hosts host_parse seen (allowed_host # rest) =
     (let host = trim allowed_host in
      if host = [] then Err HostEmpty
      else
        (case host_parse host of
           Err e \<Rightarrow> Err (HostInvalid host e)
         | Ok (Ipv4Host _) \<Rightarrow> Err (HostIsIp host)
         | Ok (Ipv6Host _) \<Rightarrow> Err (HostIsIp host)
         | Ok (Domain domain) \<Rightarrow>
             (if eq_ignore_ascii_case domain ''localhost'' then Err HostIsLocalhost
              else
                (let normalized = to_ascii_lowercase domain in
                 if normalized \<in> set seen then Err (HostDuplicate host)
                 else validate_hosts host_parse (normalized # seen) rest))))"

definition validate_http_policy ::
  "(string \<Rightarrow> (url_host, string) result) \<Rightarrow> http_policy_config \<Rightarrow> (unit, config_error) result" where
  "validate_http_policy host_parse c =
     (let e = hp_execution c in
      check (he_timeout e = 0) HttpTimeoutZero
      (check (he_max_request_body_bytes e = 0) HttpRequestBodyZero
      (check (he_max_response_body_bytes e = 0) HttpResponseBodyZero
      (check (he_timeout e > from_secs MAX_HTTP_TIMEOUT_SECONDS) HttpTimeoutTooLarge
      (check (he_max_request_body_bytes e > MAX_HTTP_REQUEST_BODY_BYTES) HttpRequestBodyTooLarge
      (check (he_max_response_body_bytes e > MAX_HTTP_RESPONSE_BODY_BYTES) HttpResponseBodyTooLarge
      (validate_hosts host_parse [] (hp_allowed_hosts c))))))))"

definition validate_gateway_config ::
  "(string \<Rightarrow> (url_host, string) result) \<Rightarrow> gateway_config \<Rightarrow> (unit, config_error) result" where
  "validate_gateway_config host_parse c =
     bind_result (validate_http_policy host_parse (gc_http c)) (\<lambda>_.
     bind_result (map_err PolicyRejected (validate_capability_policy (gc_policy c))) (\<lambda>_.
     let t = gc_cargo_test c; s = gc_sandbox c in
     check (cc_timeout t = 0) CargoTimeoutZero
     (check (cc_max_stdout_bytes t = 0) CargoStdoutZero
     (check (cc_max_stderr_bytes t = 0) CargoStderrZero
     (check (cc_timeout t > from_secs MAX_CARGO_TEST_TIMEOUT_SECONDS) CargoTimeoutTooLarge
     (check (cc_max_stdout_bytes t > MAX_CARGO_OUTPUT_BYTES) CargoStdoutTooLarge
     (check (cc_max_stderr_bytes t > MAX_CARGO_OUTPUT_BYTES) CargoStderrTooLarge
     (check (sb_fuel_limit s = 0) SandboxFuelZero
     (check (sb_memory_limit_bytes s = 0) SandboxMemoryZero
     (check (sb_timeout s = 0) SandboxTimeoutZero
     (check (sb_fuel_limit s > MAX_SANDBOX_FUEL_LIMIT) SandboxFuelTooLarge
     (check (sb_memory_limit_bytes s > MAX_SANDBOX_MEMORY_BYTES) SandboxMemoryTooLarge
     (check (sb_timeout s > from_millis MAX_SANDBOX_TIMEOUT_MILLISECONDS) SandboxTimeoutTooLarge
     (Ok ()))))))))))))))"

definition parse_gateway_config_toml ::
  "(string \<Rightarrow> (gateway_config_file, string) result) \<Rightarrow> (string \<Rightarrow> (url_host, string) result)
   \<Rightarrow> string \<Rightarrow> (gateway_config, config_error) result" where
  "parse_gateway_config_toml toml host_parse input =
     bind_result (map_err ConfigUnparsable (toml input)) (\<lambda>file.
     let c0 = default_gateway_config;
         c1 = overlay (gf_http file) (\<lambda>f c. c\<lparr>gc_http := overlay_http f (gc_http c)\<rparr>) c0;
         c2 = overlay (gf_cargo_test file)
                (\<lambda>f c. c\<lparr>gc_cargo_test := overlay_cargo f (gc_cargo_test c)\<rparr>) c1;
         c3 = overlay (gf_sandbox file)
                (\<lambda>f c. c\<lparr>gc_sandbox := overlay_sandbox f (gc_sandbox c)\<rparr>) c2
     in bind_result
          (case gf_policy file of
             None \<Rightarrow> Ok c3
           | Some f \<Rightarrow>
               bind_result (overlay_policy f (gc_policy c3)) (\<lambda>p. Ok (c3\<lparr>gc_policy := p\<rparr>)))
          (\<lambda>c4. bind_result (validate_gateway_config host_parse c4) (\<lambda>_. Ok c4)))"

definition load_gateway_config_from_path ::
  "(string \<Rightarrow> (gateway_config_file, string) result) \<Rightarrow> (string \<Rightarrow> (url_host, string) result)
   \<Rightarrow> path \<Rightarrow> (world, gateway_config, config_error) act" where
  "load_gateway_config_from_path toml host_parse p =
     and_then (with_err ConfigUnreadable (sys_read (fs_read p)))
       (\<lambda>bytes. case from_utf8 bytes of
                  None \<Rightarrow> fail (ConfigUnreadable InvalidData)
                | Some contents \<Rightarrow> from_result (parse_gateway_config_toml toml host_parse contents))"

definition resolve_gateway_config ::
  "(string \<Rightarrow> (gateway_config_file, string) result) \<Rightarrow> (string \<Rightarrow> (url_host, string) result)
   \<Rightarrow> path option \<Rightarrow> (world, gateway_config, config_error) act" where
  "resolve_gateway_config toml host_parse config_path =
     (case config_path of
        Some p \<Rightarrow> load_gateway_config_from_path toml host_parse p
      | None \<Rightarrow>
          from_result
            (bind_result (validate_gateway_config host_parse default_gateway_config)
               (\<lambda>_. Ok default_gateway_config)))"

section \<open>What a validated configuration guarantees\<close>

definition resources_bounded :: "gateway_config \<Rightarrow> bool" where
  "resources_bounded c \<longleftrightarrow>
     0 < he_timeout (hp_execution (gc_http c)) \<and>
     he_timeout (hp_execution (gc_http c)) \<le> 60 * 1000000000 \<and>
     0 < unat (he_max_request_body_bytes (hp_execution (gc_http c))) \<and>
     unat (he_max_request_body_bytes (hp_execution (gc_http c))) \<le> 1048576 \<and>
     0 < unat (he_max_response_body_bytes (hp_execution (gc_http c))) \<and>
     unat (he_max_response_body_bytes (hp_execution (gc_http c))) \<le> 4194304 \<and>
     0 < cc_timeout (gc_cargo_test c) \<and> cc_timeout (gc_cargo_test c) \<le> 600 * 1000000000 \<and>
     0 < unat (cc_max_stdout_bytes (gc_cargo_test c)) \<and>
     unat (cc_max_stdout_bytes (gc_cargo_test c)) \<le> 1048576 \<and>
     0 < unat (cc_max_stderr_bytes (gc_cargo_test c)) \<and>
     unat (cc_max_stderr_bytes (gc_cargo_test c)) \<le> 1048576 \<and>
     0 < unat (sb_fuel_limit (gc_sandbox c)) \<and> unat (sb_fuel_limit (gc_sandbox c)) \<le> 10000000 \<and>
     0 < unat (sb_memory_limit_bytes (gc_sandbox c)) \<and>
     unat (sb_memory_limit_bytes (gc_sandbox c)) \<le> 67108864 \<and>
     0 < sb_timeout (gc_sandbox c) \<and> sb_timeout (gc_sandbox c) \<le> 5000 * 1000000"

text \<open>An allowlist entry as validation reads it: trimmed, parsed, lower case.\<close>

definition host_key :: "(string \<Rightarrow> (url_host, string) result) \<Rightarrow> string \<Rightarrow> string option" where
  "host_key host_parse h =
     (case host_parse (trim h) of
        Ok (Domain d) \<Rightarrow>
          (if trim h = [] \<or> eq_ignore_ascii_case d ''localhost'' then None
           else Some (to_ascii_lowercase d))
      | _ \<Rightarrow> None)"

definition hosts_ok :: "(string \<Rightarrow> (url_host, string) result) \<Rightarrow> string list \<Rightarrow> bool" where
  "hosts_ok host_parse hs \<longleftrightarrow>
     None \<notin> set (List.map (host_key host_parse) hs) \<and> distinct (List.map (host_key host_parse) hs)"

lemma validate_hosts_iff:
  "validate_hosts host_parse seen hs = Ok u \<longleftrightarrow>
   hosts_ok host_parse hs \<and> Some ` set seen \<inter> set (List.map (host_key host_parse) hs) = {}"
proof (induction host_parse seen hs rule: validate_hosts.induct)
  case (2 host_parse seen h rest)
  then show ?case
    by (auto simp: Let_def hosts_ok_def host_key_def split: result.splits url_host.splits)
qed (simp add: hosts_ok_def)

lemma word_le_bound: "(a :: 64 word) \<le> b \<Longrightarrow> unat a \<le> unat b"
  by (simp add: word_le_nat_alt)

lemma word_pos_unat: "(a :: 64 word) \<noteq> 0 \<Longrightarrow> 0 < unat a"
  by (simp add: unat_gt_0)

lemma validate_gateway_config_Ok:
  assumes "validate_gateway_config host_parse c = Ok u"
  shows "resources_bounded c" and "policy_ok (gc_policy c)"
    and "hosts_ok host_parse (hp_allowed_hosts (gc_http c))"
proof -
  show "policy_ok (gc_policy c)"
    using assms
    by (auto simp: validate_gateway_config_def bind_result_eq_Ok validate_capability_policy_iff)
  show "hosts_ok host_parse (hp_allowed_hosts (gc_http c))"
    using assms
    by (auto simp: validate_gateway_config_def validate_http_policy_def bind_result_eq_Ok Let_def
        validate_hosts_iff)
  show "resources_bounded c"
    using assms
    by (auto simp: validate_gateway_config_def validate_http_policy_def bind_result_eq_Ok Let_def
        resources_bounded_def config_maximums from_secs_def from_millis_def not_less
        word_pos_unat dest!: word_le_bound)
qed

text \<open>The other direction: nothing else is asked of a configuration.\<close>

lemma unat_le_word: "unat (a :: 64 word) \<le> unat b \<Longrightarrow> a \<le> b"
  by (simp add: word_le_nat_alt)

lemma validate_gateway_config_complete:
  assumes "resources_bounded c" and "policy_ok (gc_policy c)"
    and "hosts_ok host_parse (hp_allowed_hosts (gc_http c))"
  shows "validate_gateway_config host_parse c = Ok ()"
  using assms
  by (auto simp: validate_gateway_config_def validate_http_policy_def bind_result_eq_Ok Let_def
      validate_hosts_iff validate_capability_policy_iff resources_bounded_def config_maximums
      from_secs_def from_millis_def not_less intro!: unat_le_word)

section \<open>Properties\<close>

text \<open>C32: the validation accepts a configuration exactly when every timeout, size
  and fuel limit is positive and at most its compiled-in maximum, every high-impact operation is
  behind review or blocked, and the allowlist has distinct domain names other than localhost only;
  and a file is never loaded into a configuration that fails it.\<close>

theorem configuration_gate:
  "(validate_gateway_config host_parse c = Ok () \<longleftrightarrow>
      resources_bounded c \<and> policy_ok (gc_policy c) \<and> hosts_ok host_parse (hp_allowed_hosts (gc_http c))) \<and>
   (case parse_gateway_config_toml toml host_parse input of
      Ok loaded \<Rightarrow> validate_gateway_config host_parse loaded = Ok () | Err _ \<Rightarrow> True)"
proof
  show "validate_gateway_config host_parse c = Ok () \<longleftrightarrow>
      resources_bounded c \<and> policy_ok (gc_policy c) \<and> hosts_ok host_parse (hp_allowed_hosts (gc_http c))"
    using validate_gateway_config_Ok [of host_parse c] validate_gateway_config_complete [of c host_parse]
    by blast
  show "case parse_gateway_config_toml toml host_parse input of
      Ok loaded \<Rightarrow> validate_gateway_config host_parse loaded = Ok () | Err _ \<Rightarrow> True"
    by (auto simp: parse_gateway_config_toml_def Let_def split: result.splits elim!: bind_result_OkE)
qed

end
