(* ===== verification/Samples.thy ===== *)
theory Samples
  imports Externals
begin

text \<open>
  One small concrete world for the examples that accompany the properties: a file system with a
  state directory (inode 1) and a workspace (inode 2), clocks without faults, and one instance of
  every parameter.
\<close>

definition sample_file :: "string \<Rightarrow> inode" where
  "sample_file c = \<lparr>ino_node = FileNode c, ino_dev = 1, ino_mode = 384\<rparr>"

definition sample_dir :: "(string \<times> nat) list \<Rightarrow> inode" where
  "sample_dir es = \<lparr>ino_node = DirNode es, ino_dev = 1, ino_mode = 448\<rparr>"

definition sample_inodes :: "nat \<Rightarrow> inode option" where
  "sample_inodes =
     [0 \<mapsto> sample_dir [(''state'', 1), (''work'', 2)],
      1 \<mapsto> sample_dir [],
      2 \<mapsto> sample_dir [(''Cargo.toml'', 3)],
      3 \<mapsto> sample_file ''[package]'']"

definition sample_fs :: fsys where
  "sample_fs = \<lparr>fs_inodes = sample_inodes, fs_stable = sample_inodes, fs_root = 0, fs_cwd = [], fs_fresh = 4\<rparr>"

definition sample_world :: world where
  "sample_world =
     \<lparr>w_fs = sample_fs, w_tick = 0, w_fault = (\<lambda>_. None), w_clock = (\<lambda>t. Some 1700000000),
      w_mono = (\<lambda>_. 1), w_now = 0, w_uuid = (\<lambda>t. word_of_nat (100 + t)), w_trace = []\<rparr>"

definition sample_name :: "path \<Rightarrow> string" where
  "sample_name p = (case path_file_name p of Some n \<Rightarrow> n | None \<Rightarrow> [])"

definition sample_cap_dir :: cap_dir where
  "sample_cap_dir =
     \<lparr>cd_open_dir_nofollow = (\<lambda>p fs. if p = [] then Ok () else Err NotFound),
      cd_symlink_metadata = (\<lambda>p fs. bind_result (ok_or NotFound (dir_lookup fs 2 (sample_name p))) (stat_inode fs)),
      cd_open_nofollow = (\<lambda>p. fs_open_at False 2 (sample_name p)),
      cd_create_new = (\<lambda>p. fs_create_at 2 (sample_name p) 384),
      cd_rename = (\<lambda>p q. fs_rename_at 2 (sample_name p) (sample_name q)),
      cd_remove_file = (\<lambda>p. fs_unlink_at 2 (sample_name p))\<rparr>"

definition sample_url :: url where
  "sample_url =
     \<lparr>url_scheme = ''https'', url_username = [], url_password = None,
      url_host = Some (Domain ''api.example.com''), url_port = None,
      url_text = ''https://api.example.com/''\<rparr>"

definition sample_address :: socket_addr where
  "sample_address = \<lparr>sa_ip = V4 (93, 184, 216, 34), sa_port = 443\<rparr>"

definition sample_child :: child_process where
  "sample_child =
     \<lparr>ch_pid = 7, ch_poll = (\<lambda>n. Ok (if n = 0 then None else Some (ExitStatus True (Some 0)))),
      ch_kill = (\<lambda>_. Ok ()), ch_wait = Ok (ExitStatus False None), ch_stdout = ''ok'', ch_stderr = []\<rparr>"

definition sample_wasmtime :: wasmtime where
  "sample_wasmtime =
     \<lparr>wm_engine = (\<lambda>_ _. Ok ()), wm_module = (\<lambda>_. Ok ()), wm_set_fuel = (\<lambda>_. Ok ()),
      wm_instance = (\<lambda>_ _ _. Ok ()), wm_typed_func = (\<lambda>_ _. Ok ()),
      wm_call = (\<lambda>_ _ _ _ l r. Ok (l + r)), wm_timer_joined = (\<lambda>_. True)\<rparr>"

definition sample_externals :: externals where
  "sample_externals =
     \<lparr>x_env = [(''PATH'', ''/bin''), (''SECRET'', ''s'')], x_temp_dir = [RootDir, Normal ''state''],
      x_process_id = 42, x_euid = 1000, x_platform = Linux,
      x_url_parse = (\<lambda>_. Ok sample_url), x_host_str = (\<lambda>_. Some ''api.example.com''),
      x_port_or_known_default = (\<lambda>_. Some 443), x_host_parse = (\<lambda>h. Ok (Domain h)),
      x_sha256 = (\<lambda>b. b), x_uuid_parse = (\<lambda>s. if s = ''u'' then Some 5 else None),
      x_uuid_text = (\<lambda>_. ''u''), x_audit_json = (\<lambda>_. Ok ''{}''), x_cargo_json = (\<lambda>_. Ok ''{}''),
      x_http_json = (\<lambda>_. Ok ''{}''), x_response_json = (\<lambda>r. Ok (gw_status r)),
      x_open_ambient_dir = (\<lambda>_ _. Ok sample_cap_dir),
      x_resolve = (\<lambda>_ _ _. Ok [sample_address]), x_client_build = (\<lambda>_. Ok ()),
      x_http_send = (\<lambda>_ _ _ _ _. Ok \<lparr>rs_status = 200, rs_chunks = [Ok ''hi'']\<rparr>),
      x_wasm = sample_wasmtime,
      x_git_open = (\<lambda>_ _. Err ''none''), x_git_json = (\<lambda>_. Ok ''{}''),
      x_spawn_cargo = (\<lambda>_ _ _. Ok sample_child)\<rparr>"

lemmas sample_defs =
  sample_externals_def sample_world_def sample_fs_def sample_inodes_def sample_dir_def sample_file_def

lemma sample_fs_wf: "fs_wf sample_fs"
  by (auto simp: fs_wf_def sample_defs dir_entries_def split: if_splits)

end
