(* ===== verification/Http.thy ===== *)
theory Http
  imports Config Samples
begin

text \<open>
  \<open>http.rs\<close> and \<open>http_execution.rs\<close>: the checks an outbound URL passes, the address filter,
  the bounded body reader and the executor.  URL parsing, name resolution and the HTTP exchange are
  parameters; what the gateway hands to them and does with their answers is the model.
\<close>

section \<open>Destinations\<close>

datatype http_error =
    InvalidUrl string
  | NotHttps
  | EmbeddedCredentials
  | IpLiteralHost
  | MissingHost
  | LocalhostHost
  | NonDefaultPort
  | HostNotAllowed
  | RequestBodyTooLarge usize
  | GetWithBody
  | ValidatedWithoutHost
  | ValidatedWithoutPort
  | ResolveFailed io_error
  | DisallowedAddress ip_addr
  | NoAddresses
  | ClientBuildFailed string
  | RequestFailed string
  | BodyReadFailed io_error

datatype validated_http_url = ValidatedHttpUrl (as_url: url)

definition validate_http_destination ::
  "(string \<Rightarrow> (url, string) result) \<Rightarrow> string \<Rightarrow> string list \<Rightarrow> (validated_http_url, http_error) result"
where
  "validate_http_destination url_parse input allowed_hosts =
     (case url_parse input of
        Err e \<Rightarrow> Err (InvalidUrl e)
      | Ok u \<Rightarrow>
          (if url_scheme u \<noteq> ''https'' then Err NotHttps
           else if url_username u \<noteq> [] \<or> url_password u \<noteq> None then Err EmbeddedCredentials
           else
             (case url_host u of
                None \<Rightarrow> Err MissingHost
              | Some (Ipv4Host _) \<Rightarrow> Err IpLiteralHost
              | Some (Ipv6Host _) \<Rightarrow> Err IpLiteralHost
              | Some (Domain host) \<Rightarrow>
                  (if eq_ignore_ascii_case host ''localhost'' then Err LocalhostHost
                   else if (case url_port u of None \<Rightarrow> False | Some port \<Rightarrow> port \<noteq> 443)
                     then Err NonDefaultPort
                   else if \<not> list_ex (\<lambda>allowed. eq_ignore_ascii_case host allowed) allowed_hosts
                     then Err HostNotAllowed
                   else Ok (ValidatedHttpUrl u)))))"

text \<open>What a validated destination is.\<close>

definition safe_destination :: "string list \<Rightarrow> url \<Rightarrow> bool" where
  "safe_destination allowed_hosts u \<longleftrightarrow>
     url_scheme u = ''https'' \<and> url_username u = [] \<and> url_password u = None \<and>
     (url_port u = None \<or> url_port u = Some 443) \<and>
     (\<exists>host. url_host u = Some (Domain host) \<and> \<not> eq_ignore_ascii_case host ''localhost'' \<and>
        (\<exists>allowed\<in>set allowed_hosts. eq_ignore_ascii_case host allowed))"

lemma validate_http_destination_iff:
  "validate_http_destination url_parse input allowed_hosts = Ok v \<longleftrightarrow>
   url_parse input = Ok (as_url v) \<and> safe_destination allowed_hosts (as_url v)"
  by (cases v)
    (auto simp: validate_http_destination_def safe_destination_def list_ex_iff
      split: result.splits option.splits url_host.splits)

section \<open>Outbound addresses\<close>

definition v4_loopback :: "u8 \<times> u8 \<times> u8 \<times> u8 \<Rightarrow> bool" where
  "v4_loopback a = (case a of (o0, _, _, _) \<Rightarrow> o0 = 127)"

definition v4_private :: "u8 \<times> u8 \<times> u8 \<times> u8 \<Rightarrow> bool" where
  "v4_private a =
     (case a of (o0, o1, _, _) \<Rightarrow>
        o0 = 10 \<or> (o0 = 172 \<and> 16 \<le> o1 \<and> o1 \<le> 31) \<or> (o0 = 192 \<and> o1 = 168))"

definition v4_link_local :: "u8 \<times> u8 \<times> u8 \<times> u8 \<Rightarrow> bool" where
  "v4_link_local a = (case a of (o0, o1, _, _) \<Rightarrow> o0 = 169 \<and> o1 = 254)"

definition v4_unspecified :: "u8 \<times> u8 \<times> u8 \<times> u8 \<Rightarrow> bool" where
  "v4_unspecified a = (a = (0, 0, 0, 0))"

definition v4_broadcast :: "u8 \<times> u8 \<times> u8 \<times> u8 \<Rightarrow> bool" where
  "v4_broadcast a = (a = (255, 255, 255, 255))"

definition v4_multicast :: "u8 \<times> u8 \<times> u8 \<times> u8 \<Rightarrow> bool" where
  "v4_multicast a = (case a of (o0, _, _, _) \<Rightarrow> 224 \<le> o0 \<and> o0 \<le> 239)"

definition v6_segment0 :: "u16 list \<Rightarrow> u16" where
  "v6_segment0 s = (case s of [] \<Rightarrow> 0 | x # _ \<Rightarrow> x)"

definition v6_loopback :: "u16 list \<Rightarrow> bool" where
  "v6_loopback s = (s = [0, 0, 0, 0, 0, 0, 0, 1])"

definition v6_unspecified :: "u16 list \<Rightarrow> bool" where
  "v6_unspecified s = (s = [0, 0, 0, 0, 0, 0, 0, 0])"

unbundle bit_operations_syntax

definition v6_unique_local :: "u16 list \<Rightarrow> bool" where
  "v6_unique_local s = (v6_segment0 s AND 0xfe00 = 0xfc00)"

definition v6_unicast_link_local :: "u16 list \<Rightarrow> bool" where
  "v6_unicast_link_local s = (v6_segment0 s AND 0xffc0 = 0xfe80)"

definition v6_multicast :: "u16 list \<Rightarrow> bool" where
  "v6_multicast s = (v6_segment0 s AND 0xff00 = 0xff00)"

definition is_safe_outbound_ip :: "ip_addr \<Rightarrow> bool" where
  "is_safe_outbound_ip address =
     (case address of
        V4 a \<Rightarrow>
          (case a of (o0, o1, o2, o3) \<Rightarrow>
             let is_shared_address_space = (o0 = 100 \<and> 64 \<le> o1 \<and> o1 \<le> 127);
                 is_benchmarking = (o0 = 198 \<and> (o1 = 18 \<or> o1 = 19))
             in \<not> (v4_loopback a \<or> v4_private a \<or> v4_link_local a \<or> v4_unspecified a \<or>
                   v4_broadcast a \<or> v4_multicast a \<or> is_shared_address_space \<or> is_benchmarking))
      | V6 s \<Rightarrow>
          \<not> (v6_loopback s \<or> v6_unspecified s \<or> v6_unique_local s \<or> v6_unicast_link_local s \<or>
             v6_multicast s))"

fun collect_safe :: "socket_addr list \<Rightarrow> socket_addr list \<Rightarrow> (socket_addr list, http_error) result"
where
  "collect_safe acc [] = Ok acc"
| "collect_safe acc (a # rest) =
     (if \<not> is_safe_outbound_ip (sa_ip a) then Err (DisallowedAddress (sa_ip a))
      else collect_safe (if a \<in> set acc then acc else acc @ [a]) rest)"

definition resolve_safe_outbound_addresses ::
  "externals \<Rightarrow> string \<Rightarrow> u16 \<Rightarrow> (world, socket_addr list, http_error) act" where
  "resolve_safe_outbound_addresses X host port w =
     (case x_resolve X (w_tick w) host port of
        Err e \<Rightarrow> (Err (ResolveFailed e), tick w)
      | Ok resolved \<Rightarrow>
          (case collect_safe [] resolved of
             Err e \<Rightarrow> (Err e, tick w)
           | Ok addresses \<Rightarrow>
               (if addresses = [] then (Err NoAddresses, tick w) else (Ok addresses, tick w))))"

lemma collect_safe_Ok:
  assumes "collect_safe acc as = Ok r" and "distinct acc"
  shows "set r = set acc \<union> set as" and "distinct r" and "\<forall>a\<in>set as. is_safe_outbound_ip (sa_ip a)"
  using assms
  by (induction acc as rule: collect_safe.induct) (auto split: if_splits)

lemma collect_safe_unsafe:
  "\<exists>a\<in>set as. \<not> is_safe_outbound_ip (sa_ip a) \<Longrightarrow> is_err (collect_safe acc as)"
  by (induction acc as rule: collect_safe.induct) auto

section \<open>Bounded reading\<close>

text \<open>
  A reader is the list of answers to its successive \<open>read\<close> calls, each the bytes of one call
  (at most the 8192 of the buffer) or an error; an empty answer or the end of the list is the end of
  the stream.  The loop keeps what fits and goes on reading, so the limit bounds the memory used.
\<close>

fun read_loop ::
  "nat \<Rightarrow> string \<Rightarrow> bool \<Rightarrow> (string, io_error) result list \<Rightarrow> (string \<times> bool, io_error) result" where
  "read_loop maximum_bytes captured truncated [] = Ok (captured, truncated)"
| "read_loop maximum_bytes captured truncated (Err e # rest) = Err e"
| "read_loop maximum_bytes captured truncated (Ok buffer # rest) =
     (if buffer = [] then Ok (captured, truncated)
      else
        (let remaining = maximum_bytes - length captured;
             bytes_to_keep = min (length buffer) remaining
         in read_loop maximum_bytes (captured @ take bytes_to_keep buffer)
              (truncated \<or> bytes_to_keep < length buffer) rest))"

definition read_bounded_body ::
  "(string, io_error) result list \<Rightarrow> usize \<Rightarrow> (string \<times> bool, http_error) result" where
  "read_bounded_body reader maximum_bytes =
     (case read_loop (unat maximum_bytes) [] False reader of
        Err e \<Rightarrow> Err (BodyReadFailed e)
      | Ok (captured, truncated) \<Rightarrow> Ok (from_utf8_lossy captured, truncated))"

text \<open>All the bytes a reader delivers before the end of its stream, if no read fails.\<close>

fun stream_bytes :: "(string, io_error) result list \<Rightarrow> (string, io_error) result" where
  "stream_bytes [] = Ok []"
| "stream_bytes (Err e # rest) = Err e"
| "stream_bytes (Ok b # rest) =
     (if b = [] then Ok [] else bind_result (stream_bytes rest) (\<lambda>bs. Ok (b @ bs)))"

lemma read_loop_spec:
  assumes "length captured \<le> m" and "truncated \<Longrightarrow> length captured = m"
  shows "read_loop m captured truncated reader =
     bind_result (stream_bytes reader)
       (\<lambda>bs. Ok (take m (captured @ bs), truncated \<or> m < length (captured @ bs)))"
  using assms
proof (induction m captured truncated reader rule: read_loop.induct)
  case (3 m captured truncated buffer rest)
  show ?case
  proof (cases "buffer = []")
    case True
    with 3 show ?thesis by auto
  next
    case False
    define keep where "keep = min (length buffer) (m - length captured)"
    let ?cap = "captured @ take keep buffer"
    have len: "length ?cap \<le> m" "truncated \<or> keep < length buffer \<Longrightarrow> length ?cap = m"
      using "3.prems" by (auto simp: keep_def min_def)
    have "read_loop m captured truncated (Ok buffer # rest) =
          read_loop m ?cap (truncated \<or> keep < length buffer) rest"
      using False by (simp add: keep_def Let_def)
    also have "\<dots> = bind_result (stream_bytes rest)
       (\<lambda>bs. Ok (take m (?cap @ bs), (truncated \<or> keep < length buffer) \<or> m < length (?cap @ bs)))"
      using "3.IH" [OF False refl refl] len by (simp add: keep_def)
    also have "\<dots> = bind_result (stream_bytes rest)
       (\<lambda>bs. Ok (take m (captured @ buffer @ bs), truncated \<or> m < length (captured @ buffer @ bs)))"
      using "3.prems" False
      by (auto simp: bind_result_def keep_def min_def not_less split: result.splits if_splits)
    finally show ?thesis
      using False by (auto simp: bind_result_def split: result.splits)
  qed
qed auto

lemma read_bounded_body_spec:
  "read_bounded_body reader maximum_bytes =
     (case stream_bytes reader of
        Err e \<Rightarrow> Err (BodyReadFailed e)
      | Ok bs \<Rightarrow>
          Ok (from_utf8_lossy (take (unat maximum_bytes) bs), unat maximum_bytes < length bs))"
  by (simp add: read_bounded_body_def read_loop_spec bind_result_def split: result.splits)

section \<open>The executor\<close>

definition validate_request_body :: "http_execution_config \<Rightarrow> string option \<Rightarrow> (unit, http_error) result"
where
  "validate_request_body c body =
     (let body_length = (case body of None \<Rightarrow> 0 | Some b \<Rightarrow> length b) in
      if body_length > unat (he_max_request_body_bytes c)
      then Err (RequestBodyTooLarge (he_max_request_body_bytes c))
      else Ok ())"

definition read_response_body ::
  "http_execution_config \<Rightarrow> http_response \<Rightarrow> (string \<times> bool, http_error) result" where
  "read_response_body c response =
     read_bounded_body (rs_chunks response) (he_max_response_body_bytes c)"

definition build_client_for_destination ::
  "externals \<Rightarrow> http_execution_config \<Rightarrow> validated_http_url \<Rightarrow> (world, http_client, http_error) act" where
  "build_client_for_destination X c destination =
     (case x_host_str X (as_url destination) of
        None \<Rightarrow> fail ValidatedWithoutHost
      | Some host \<Rightarrow>
          (case x_port_or_known_default X (as_url destination) of
             None \<Rightarrow> fail ValidatedWithoutPort
           | Some port \<Rightarrow>
               and_then (resolve_safe_outbound_addresses X host port)
                 (\<lambda>addresses.
                    let client = \<lparr>hc_timeout = he_timeout c, hc_redirects = False, hc_proxy = False,
                                  hc_https_only = True, hc_host = host, hc_addresses = addresses\<rparr>
                    in (case x_client_build X client of
                          Err e \<Rightarrow> fail (ClientBuildFailed e)
                        | Ok _ \<Rightarrow> ret client))))"

definition elapsed_ms :: "nat \<Rightarrow> nat \<Rightarrow> nat" where
  "elapsed_ms started now = (now - started) div 1000000"

definition execute_with_client ::
  "externals \<Rightarrow> http_execution_config \<Rightarrow> http_client \<Rightarrow> http_method \<Rightarrow> validated_http_url \<Rightarrow> string option
   \<Rightarrow> (world, http_execution_result, http_error) act" where
  "execute_with_client X c client method destination body w =
     (case instant_now w of (started, w1) \<Rightarrow>
        let sent = (case method of Get \<Rightarrow> None | Post \<Rightarrow> body);
            target = url_text (as_url destination);
            w2 = emit (EvHttp method target sent) (tick w1)
        in (case x_http_send X (w_tick w1) client method target sent of
              Err e \<Rightarrow> (Err (RequestFailed e), w2)
            | Ok response \<Rightarrow>
                (case read_response_body c response of
                   Err e \<Rightarrow> (Err e, w2)
                 | Ok (text, body_truncated) \<Rightarrow>
                     (case instant_now w2 of (now, w3) \<Rightarrow>
                        (Ok \<lparr>hr_status_code = rs_status response, hr_body = text,
                             hr_body_truncated = body_truncated,
                             hr_duration_ms = elapsed_ms started now\<rparr>, w3)))))"

definition http_execute ::
  "externals \<Rightarrow> http_execution_config \<Rightarrow> http_method \<Rightarrow> validated_http_url \<Rightarrow> string option
   \<Rightarrow> (world, http_execution_result, http_error) act" where
  "http_execute X c method destination body =
     and_then (from_result (validate_request_body c body)) (\<lambda>_.
     if method = Get \<and> body \<noteq> None then fail GetWithBody
     else and_then (build_client_for_destination X c destination) (\<lambda>client.
          execute_with_client X c client method destination body))"

section \<open>Properties\<close>

text \<open>C29: a destination passes exactly when the URL parses, its scheme is
  https without user information, its port is the default one, and its host is a domain name other
  than localhost that equals an entry of the allowlist up to ASCII case.\<close>

theorem http_destination:
  "(validate_http_destination url_parse input allowed_hosts = Ok v) =
     (url_parse input = Ok (as_url v) \<and>
      url_scheme (as_url v) = ''https'' \<and> url_username (as_url v) = [] \<and>
      url_password (as_url v) = None \<and> url_port (as_url v) \<in> {None, Some 443} \<and>
      (\<exists>host allowed. url_host (as_url v) = Some (Domain host) \<and>
         to_ascii_lowercase host \<noteq> ''localhost'' \<and> allowed \<in> set allowed_hosts \<and>
         to_ascii_lowercase host = to_ascii_lowercase allowed))"
proof -
  have l: "to_ascii_lowercase ''localhost'' = ''localhost''" by code_simp
  show ?thesis
    unfolding validate_http_destination_iff safe_destination_def eq_ignore_ascii_case_def l
    by auto
qed

lemma collect_safe_total:
  "\<forall>a\<in>set as. is_safe_outbound_ip (sa_ip a) \<Longrightarrow> \<exists>r. collect_safe acc as = Ok r"
  by (induction acc as rule: collect_safe.induct) auto


text \<open>C31: however a response is cut into pieces, the body that is kept is the
  first bytes of its stream up to the limit, decoded, and the flag says whether bytes were dropped;
  a read error anywhere is an error.\<close>

theorem response_body:
  "read_response_body c response =
     (case stream_bytes (rs_chunks response) of
        Err e \<Rightarrow> Err (BodyReadFailed e)
      | Ok bytes \<Rightarrow>
          Ok (from_utf8_lossy (take (unat (he_max_response_body_bytes c)) bytes),
              unat (he_max_response_body_bytes c) < length bytes))"
  by (simp add: read_response_body_def read_bounded_body_spec)

text \<open>The filter looks at the family of an address only, so the
  loopback and the private IPv4 addresses pass it in their IPv4-mapped IPv6 form.\<close>

theorem mapped_addresses_pass:
  "is_safe_outbound_ip (V6 [0, 0, 0, 0, 0, 0xffff, 0x7f00, 1]) \<and>
   is_safe_outbound_ip (V6 [0, 0, 0, 0, 0, 0xffff, 0x0a00, 1]) \<and>
   \<not> is_safe_outbound_ip (V4 (127, 0, 0, 1)) \<and> \<not> is_safe_outbound_ip (V4 (10, 0, 0, 1))"
  by code_simp

text \<open>The allowlist is validated with its entries trimmed and compared
  with them as they are: an accepted entry stays accepted with a space in front, and then no
  destination matches it any more.\<close>

theorem spaced_entry_matches_nothing:
  assumes "validate_hosts host_parse seen [h] = Ok ()"
    and "url_parse input = Ok u" and "\<And>d. url_host u = Some (Domain d) \<Longrightarrow> CHR 0x20 \<notin> set d"
  shows "validate_hosts host_parse seen [CHR 0x20 # h] = Ok () \<and>
    is_err (validate_http_destination url_parse input [CHR 0x20 # h])"
proof -
  have "validate_hosts host_parse seen [CHR 0x20 # h] = Ok ()"
    using assms(1) by (simp add: trim_space)
  moreover have "\<not> eq_ignore_ascii_case d (CHR 0x20 # h)" if "url_host u = Some (Domain d)" for d
    using assms(3) [OF that]
    by (cases d) (auto simp: eq_ignore_ascii_case_def to_ascii_lowercase_def ascii_lower_space
        ascii_lower_space [THEN iffD2, OF refl])
  then have "validate_http_destination url_parse input [CHR 0x20 # h] \<noteq> Ok v" for v
    using assms(2) by (auto simp: validate_http_destination_iff safe_destination_def)
  ultimately show ?thesis by (meson not_is_err)
qed

theorem spaced_entry_matches_nothing_witness:
  "is_err (validate_http_destination (\<lambda>_. Ok sample_url) ''u'' ['' api.example.com'']) \<and>
   \<not> is_err (validate_http_destination (\<lambda>_. Ok sample_url) ''u'' [''api.example.com''])"
proof -
  have "validate_hosts (\<lambda>h. Ok (Domain h)) [] [''api.example.com''] = Ok ()" by code_simp
  moreover have "\<not> is_err (validate_http_destination (\<lambda>_. Ok sample_url) ''u'' [''api.example.com''])" by code_simp
  ultimately show ?thesis
    using spaced_entry_matches_nothing [of "\<lambda>h. Ok (Domain h)" "[]" "''api.example.com''" "\<lambda>_. Ok sample_url" "''u''" sample_url]
    by (auto simp: sample_url_def)
qed

end
