(* ===== verification/AuditLog.thy ===== *)
theory AuditLog
  imports Http Samples
begin

text \<open>
  \<open>audit.rs\<close>: audit records and the two audit sinks.  Both end in
  \<open>persist_audit_with_parent\<close>, which opens the log relative to a directory handle without
  following links, restricts its mode, appends one line and syncs.  The trait \<open>AuditSink\<close> is the
  locale \<open>audit_sink\<close>; its laws say what a sink does to the trace of effects, and both sinks of
  the source satisfy them.
\<close>

section \<open>Errors\<close>

datatype audit_error =
    AuditSerialize string
  | AuditWriteFailed io_error
  | AuditNoParent
  | AuditNoFileName
  | AuditResolveParent io_error
  | AuditOpenParent io_error
  | AuditInspectParent io_error
  | AuditParentNotDir
  | AuditParentChanged nat nat nat nat
  | AuditNulName
  | AuditCreate io_error
  | AuditOpenExisting io_error
  | AuditInspect io_error
  | AuditNotRegular
  | AuditPermissions io_error
  | AuditSyncNew io_error
  | AuditSyncParent io_error
  | AuditSync io_error

section \<open>Records\<close>

text \<open>\<open>AuditRecord::new\<close> reads the wall clock and fails when it stands before the epoch.\<close>

definition new_audit_record ::
  "uuid \<Rightarrow> string \<Rightarrow> policy_decision \<Rightarrow> policy_reason \<Rightarrow> audit_phase \<Rightarrow> execution_outcome
   \<Rightarrow> world \<Rightarrow> audit_record option \<times> world" where
  "new_audit_record request_id message d r phase outcome w =
     (case now_unix w of
        (None, w') \<Rightarrow> (None, w')
      | (Some timestamp_unix, w') \<Rightarrow>
          (Some \<lparr>ar_request_id = request_id, ar_timestamp_unix = timestamp_unix,
                 ar_message = message, ar_phase = phase, ar_decision = d, ar_reason = r,
                 ar_execution_outcome = outcome\<rparr>, w'))"

text \<open>\<open>writeln!(writer, "{json}")\<close> writes the JSON text and then the line feed.\<close>

definition newline :: string where "newline = [CHR 0x0A]"

definition write_audit ::
  "externals \<Rightarrow> nat \<Rightarrow> audit_record \<Rightarrow> (world, unit, audit_error) act" where
  "write_audit X file record =
     (case x_audit_json X record of
        Err e \<Rightarrow> fail (AuditSerialize e)
      | Ok json \<Rightarrow>
          and_then (with_err AuditWriteFailed (sys_write_all file json)) (\<lambda>_.
          and_then (with_err AuditWriteFailed (sys_write_all file newline)) (\<lambda>_ w.
          (Ok (), emit (EvAudit record) w))))"

section \<open>Appending to the log\<close>

definition mode_owner_only :: nat where "mode_owner_only = 6 * 8 * 8"

definition nul_in :: "string \<Rightarrow> bool" where "nul_in s = (CHR 0x00 \<in> set s)"

text \<open>Create the log, or open the one that exists; the flag says whether it is new.\<close>

definition open_audit_file ::
  "nat \<Rightarrow> string \<Rightarrow> (world, nat \<times> bool, audit_error) act" where
  "open_audit_file parent_directory file_name w =
     (case sys_update (fs_create_at parent_directory file_name mode_owner_only) w of
        (Ok i, w') \<Rightarrow> (Ok (i, True), w')
      | (Err e, w') \<Rightarrow>
          (if e \<noteq> AlreadyExists then (Err (AuditCreate e), w')
           else
             (case sys_read (fs_open_at True parent_directory file_name) w' of
                (Err e', w'') \<Rightarrow> (Err (AuditOpenExisting e'), w'')
              | (Ok i, w'') \<Rightarrow> (Ok (i, False), w''))))"

definition only_if :: "bool \<Rightarrow> ('s, unit, 'e) act \<Rightarrow> ('s, unit, 'e) act" where
  "only_if b m = (if b then m else ret ())"

definition note_synced :: "(world, unit, audit_error) act" where
  "note_synced w = (Ok (), emit EvAuditSynced w)"

definition persist_audit_with_parent ::
  "externals \<Rightarrow> path \<Rightarrow> nat \<Rightarrow> audit_record \<Rightarrow> (world, unit, audit_error) act" where
  "persist_audit_with_parent X audit_path parent_directory record =
     (case path_file_name audit_path of
        None \<Rightarrow> fail AuditNoFileName
      | Some file_name \<Rightarrow>
          if nul_in file_name then fail AuditNulName
          else
            and_then (open_audit_file parent_directory file_name) (\<lambda>(file, newly_created).
            and_then (with_err AuditInspect (sys_fd_metadata file)) (\<lambda>metadata.
            if \<not> is_file metadata then fail AuditNotRegular
            else
              and_then (with_err AuditPermissions (sys_chmod file mode_owner_only)) (\<lambda>_.
              and_then (only_if newly_created
                (and_then (with_err AuditSyncNew (sys_sync file)) (\<lambda>_.
                 with_err AuditSyncParent (sys_sync parent_directory)))) (\<lambda>_.
              and_then (write_audit X file record) (\<lambda>_.
              and_then (with_err AuditSync (sys_sync file)) (\<lambda>_.
              and_then note_synced (\<lambda>_.
              only_if newly_created (with_err AuditSyncParent (sys_sync parent_directory))))))))))"

text \<open>The sink of the tests and tools: a plain path, whose parent is opened for every record.\<close>

definition persist_audit ::
  "externals \<Rightarrow> path \<Rightarrow> audit_record \<Rightarrow> (world, unit, audit_error) act" where
  "persist_audit X audit_path record =
     (case path_parent audit_path of
        None \<Rightarrow> fail AuditNoParent
      | Some parent \<Rightarrow>
          and_then (with_err AuditResolveParent (sys_read (fs_canonicalize parent))) (\<lambda>canonical_parent.
          and_then (with_err AuditOpenParent (sys_read (fs_open_dir_nofollow canonical_parent)))
            (\<lambda>parent_directory.
          and_then (with_err AuditInspectParent (sys_fd_metadata parent_directory)) (\<lambda>metadata.
          if \<not> is_dir metadata then fail AuditParentNotDir
          else persist_audit_with_parent X audit_path parent_directory record))))"

section \<open>The anchored log\<close>

record anchored_audit_log =
  al_path :: path
  al_parent_directory :: nat

definition from_validated_path ::
  "path \<Rightarrow> nat \<Rightarrow> nat \<Rightarrow> (world, anchored_audit_log, audit_error) act" where
  "from_validated_path path expected_parent_device expected_parent_inode =
     (case path_parent path of
        None \<Rightarrow> fail AuditNoParent
      | Some parent \<Rightarrow>
          (case path_file_name path of
             None \<Rightarrow> fail AuditNoFileName
           | Some file_name \<Rightarrow>
               and_then (with_err AuditResolveParent (sys_read (fs_canonicalize parent)))
                 (\<lambda>canonical_parent.
               and_then (with_err AuditOpenParent (sys_read (fs_open_dir_nofollow canonical_parent)))
                 (\<lambda>parent_directory.
               and_then (with_err AuditInspectParent (sys_fd_metadata parent_directory)) (\<lambda>metadata.
               if \<not> is_dir metadata then fail AuditParentNotDir
               else if md_dev metadata \<noteq> expected_parent_device
                       \<or> md_ino metadata \<noteq> expected_parent_inode
               then fail (AuditParentChanged expected_parent_device expected_parent_inode
                            (md_dev metadata) (md_ino metadata))
               else ret \<lparr>al_path = path_join canonical_parent [Normal file_name],
                         al_parent_directory = parent_directory\<rparr>)))))"

definition anchored_persist ::
  "externals \<Rightarrow> anchored_audit_log \<Rightarrow> audit_record \<Rightarrow> (world, unit, audit_error) act" where
  "anchored_persist X log record =
     persist_audit_with_parent X (al_path log) (al_parent_directory log) record"

section \<open>What a call leaves alone\<close>

text \<open>The environment functions never change and no call of the file system touches the trace.\<close>

definition same_env :: "world \<Rightarrow> world \<Rightarrow> bool" where
  "same_env w w' \<longleftrightarrow>
     w_fault w' = w_fault w \<and> w_clock w' = w_clock w \<and> w_mono w' = w_mono w \<and> w_uuid w' = w_uuid w"

definition quiet :: "world \<Rightarrow> world \<Rightarrow> bool" where
  "quiet w w' \<longleftrightarrow> same_env w w' \<and> w_trace w' = w_trace w"

text \<open>A sink may append this record's line, and after it the mark that it is on the device.\<close>

definition audit_progress :: "audit_record \<Rightarrow> world \<Rightarrow> world \<Rightarrow> bool" where
  "audit_progress r w w' \<longleftrightarrow>
     same_env w w' \<and> (\<exists>es. w_trace w' = w_trace w @ es \<and> es \<in> {[], [EvAudit r], [EvAudit r, EvAuditSynced]})"

lemma same_env_refl [simp]: "same_env w w"
  by (simp add: same_env_def)

lemma same_env_trans: "same_env u v \<Longrightarrow> same_env v w \<Longrightarrow> same_env u w"
  by (simp add: same_env_def)

lemma quiet_refl [simp]: "quiet w w"
  by (simp add: quiet_def)

lemma quiet_transp: "transp quiet"
  by (auto simp: transp_def quiet_def intro: same_env_trans)

lemma quiet_reflp: "reflp quiet"
  by (simp add: reflp_def)

lemma quiet_trans: "quiet u v \<Longrightarrow> quiet v w \<Longrightarrow> quiet u w"
  using quiet_transp by (blast dest: transpD)

lemma quiet_tick [simp]: "quiet w (tick w)"
  by (simp add: quiet_def same_env_def tick_def)

lemma quiet_sys_read [keeps_intros]: "keeps quiet (sys_read f)"
  by (rule keepsI) (auto simp: sys_read_def split: option.splits)

lemma quiet_sys_update [keeps_intros]: "keeps quiet (sys_update f)"
  by (rule keepsI)
    (auto simp: sys_update_def quiet_def same_env_def tick_def
      split: option.splits result.splits prod.splits)

lemma quiet_sys_write_all [keeps_intros]: "keeps quiet (sys_write_all i b)"
  by (rule keepsI) (auto simp: sys_write_all_def quiet_def same_env_def tick_def split: option.splits)

lemma quiet_sys_sync [keeps_intros]: "keeps quiet (sys_sync i)"
  unfolding sys_sync_def by (rule keeps_intros)

lemma quiet_sys_chmod [keeps_intros]: "keeps quiet (sys_chmod i m)"
  unfolding sys_chmod_def by (rule keeps_intros)

lemma quiet_sys_fd_metadata [keeps_intros]: "keeps quiet (sys_fd_metadata i)"
  unfolding sys_fd_metadata_def by (rule keeps_intros)

lemmas quiet_and_then [keeps_intros] = keeps_and_then [OF quiet_transp]
lemmas quiet_pure [keeps_intros] = keeps_pure [OF quiet_reflp]
lemmas quiet_with_err [keeps_intros] = keeps_with_err [where R = quiet]

lemma quiet_only_if [keeps_intros]: "keeps quiet m \<Longrightarrow> keeps quiet (only_if b m)"
  by (auto simp: only_if_def intro: keeps_intros)

lemma quiet_open_audit_file [keeps_intros]: "keeps quiet (open_audit_file d n)"
proof (rule keepsI)
  fix w r w'
  assume "open_audit_file d n w = (r, w')"
  then show "quiet w w'"
    unfolding open_audit_file_def
    by (auto split: prod.splits result.splits if_splits
        dest!: keepsD [OF quiet_sys_update] keepsD [OF quiet_sys_read] intro: quiet_trans)
qed

lemma quiet_new_audit_record:
  "new_audit_record i m d r p out w = (rec, w') \<Longrightarrow> quiet w w'"
  by (auto simp: new_audit_record_def now_unix_def split: option.splits)

lemma new_audit_record_Some:
  "new_audit_record i m d r p out w = (Some rec, w') \<Longrightarrow>
   ar_request_id rec = i \<and> ar_message rec = m \<and> ar_phase rec = p \<and> ar_decision rec = d \<and>
   ar_reason rec = r \<and> ar_execution_outcome rec = out"
  by (auto simp: new_audit_record_def now_unix_def split: option.splits)

lemma write_audit_trace:
  assumes "write_audit X file r w = (res, w')"
  shows "same_env w w' \<and> w_trace w' = w_trace w @ (if res = Ok () then [EvAudit r] else [])"
proof (cases "x_audit_json X r")
  case (Err e)
  with assms show ?thesis by (auto simp: write_audit_def)
next
  case (Ok json)
  from assms show ?thesis
    unfolding write_audit_def Ok
    by (auto simp: emit_def quiet_def same_env_def elim!: and_then_cases with_err_cases
        dest!: keepsD [OF quiet_sys_write_all])
qed


section \<open>What persisting a record does\<close>

lemma audit_progress_refl [simp]: "audit_progress r w w"
  by (auto simp: audit_progress_def)

lemma quiet_audit_progress: "quiet w w' \<Longrightarrow> audit_progress r w w'"
  by (auto simp: audit_progress_def quiet_def)

lemma audit_progress_quiet_trans:
  "quiet u v \<Longrightarrow> audit_progress r v w \<Longrightarrow> audit_progress r u w"
  by (auto simp: audit_progress_def quiet_def intro: same_env_trans)

lemma audit_progress_trans_quiet:
  "audit_progress r u v \<Longrightarrow> quiet v w \<Longrightarrow> audit_progress r u w"
  by (auto simp: audit_progress_def quiet_def intro: same_env_trans)

text \<open>The part of \<open>persist_audit_with_parent\<close> after the log is open, and the part before it.\<close>

definition persist_opened ::
  "externals \<Rightarrow> nat \<Rightarrow> audit_record \<Rightarrow> nat \<times> bool \<Rightarrow> (world, unit, audit_error) act" where
  "persist_opened X parent_directory record = (\<lambda>(file, newly_created).
     and_then (with_err AuditInspect (sys_fd_metadata file)) (\<lambda>metadata.
     if \<not> is_file metadata then fail AuditNotRegular
     else
       and_then (with_err AuditPermissions (sys_chmod file mode_owner_only)) (\<lambda>_.
       and_then (only_if newly_created
         (and_then (with_err AuditSyncNew (sys_sync file)) (\<lambda>_.
          with_err AuditSyncParent (sys_sync parent_directory)))) (\<lambda>_.
       and_then (write_audit X file record) (\<lambda>_.
       and_then (with_err AuditSync (sys_sync file)) (\<lambda>_.
       and_then note_synced (\<lambda>_.
       only_if newly_created (with_err AuditSyncParent (sys_sync parent_directory)))))))))"

lemma persist_audit_with_parent_alt:
  "persist_audit_with_parent X p d r =
     (case path_file_name p of
        None \<Rightarrow> fail AuditNoFileName
      | Some name \<Rightarrow>
          if nul_in name then fail AuditNulName
          else and_then (open_audit_file d name) (persist_opened X d r))"
  by (simp add: persist_audit_with_parent_def persist_opened_def split: option.splits)

definition after_line :: "nat \<Rightarrow> bool \<Rightarrow> nat \<Rightarrow> (world, unit, audit_error) act" where
  "after_line file new d =
     and_then (with_err AuditSync (sys_sync file)) (\<lambda>_.
     and_then note_synced (\<lambda>_. only_if new (with_err AuditSyncParent (sys_sync d))))"

lemma after_line_trace:
  assumes "after_line file new d w = (res, w')"
  shows "same_env w w' \<and> (w_trace w' = w_trace w @ [EvAuditSynced] \<or>
           (res \<noteq> Ok () \<and> w_trace w' = w_trace w))"
  using assms unfolding after_line_def
proof (rule and_then_cases)
  fix e
  assume "with_err AuditSync (sys_sync file) w = (Err e, w')" and "res = Err e"
  then show ?thesis
    using keepsD [OF quiet_with_err [OF quiet_sys_sync]] by (fastforce simp: quiet_def)
next
  fix u w1
  assume s: "with_err AuditSync (sys_sync file) w = (Ok u, w1)"
    and "and_then note_synced (\<lambda>_. only_if new (with_err AuditSyncParent (sys_sync d))) w1 = (res, w')"
  then have "only_if new (with_err AuditSyncParent (sys_sync d)) (emit EvAuditSynced w1) = (res, w')"
    by (simp add: and_then_def note_synced_def)
  then have "quiet (emit EvAuditSynced w1) w'"
    by (rule keepsD [OF quiet_only_if [OF quiet_with_err [OF quiet_sys_sync]]])
  moreover have "quiet w w1"
    using s by (rule keepsD [OF quiet_with_err [OF quiet_sys_sync]])
  ultimately show ?thesis
    by (auto simp: quiet_def emit_def same_env_def)
qed

lemma persist_opened_trace:
  assumes "persist_opened X d r (file, new) w = (res, w')"
  shows "audit_progress r w w' \<and>
     (res = Ok () \<longrightarrow> w_trace w' = w_trace w @ [EvAudit r, EvAuditSynced])"
proof -
  let ?pre = "\<lambda>u. and_then (with_err AuditPermissions (sys_chmod file mode_owner_only)) (\<lambda>_.
       only_if new (and_then (with_err AuditSyncNew (sys_sync file)) (\<lambda>_.
          with_err AuditSyncParent (sys_sync d))))"
  have split: "persist_opened X d r (file, new) =
     and_then (with_err AuditInspect (sys_fd_metadata file)) (\<lambda>metadata.
       if \<not> is_file metadata then fail AuditNotRegular
       else and_then (?pre ()) (\<lambda>_. and_then (write_audit X file r) (\<lambda>_. after_line file new d)))"
    by (simp add: persist_opened_def after_line_def and_then_assoc cong: if_cong)
  have pre: "keeps quiet (?pre ())"
    by (intro keeps_intros)
  show ?thesis
    using assms unfolding split
  proof (rule and_then_cases)
    fix e
    assume "with_err AuditInspect (sys_fd_metadata file) w = (Err e, w')" and "res = Err e"
    then show ?thesis
      using keepsD [OF quiet_with_err [OF quiet_sys_fd_metadata]] quiet_audit_progress by fastforce
  next
    fix md w1
    assume md: "with_err AuditInspect (sys_fd_metadata file) w = (Ok md, w1)"
      and k: "(if \<not> is_file md then fail AuditNotRegular
        else and_then (?pre ()) (\<lambda>_. and_then (write_audit X file r) (\<lambda>_. after_line file new d))) w1
        = (res, w')"
    have q1: "quiet w w1"
      using md by (rule keepsD [OF quiet_with_err [OF quiet_sys_fd_metadata]])
    show ?thesis
    proof (cases "is_file md")
      case False
      with k q1 show ?thesis by (auto intro: quiet_audit_progress)
    next
      case True
      with k have "and_then (?pre ()) (\<lambda>_. and_then (write_audit X file r)
        (\<lambda>_. after_line file new d)) w1 = (res, w')" by simp
      then show ?thesis
      proof (rule and_then_cases)
        fix e
        assume p: "?pre () w1 = (Err e, w')" and res: "res = Err e"
        have "quiet w1 w'" using p by (rule keepsD [OF pre])
        with q1 have "quiet w w'" by (rule quiet_trans)
        with res show ?thesis by (simp add: quiet_audit_progress)
      next
        fix u w2
        assume p: "?pre () w1 = (Ok u, w2)"
          and k2: "and_then (write_audit X file r) (\<lambda>_. after_line file new d) w2 = (res, w')"
        have "quiet w1 w2" using p by (rule keepsD [OF pre])
        with q1 have q2: "quiet w w2" by (rule quiet_trans)
        from k2 show ?thesis
        proof (rule and_then_cases)
          fix e
          assume "write_audit X file r w2 = (Err e, w')" and "res = Err e"
          with q2 show ?thesis
            by (auto dest!: write_audit_trace simp: quiet_def audit_progress_def intro: same_env_trans)
        next
          fix v w3
          assume "write_audit X file r w2 = (Ok v, w3)" and "after_line file new d w3 = (res, w')"
          with q2 show ?thesis
            by (auto dest!: write_audit_trace after_line_trace
                simp: quiet_def audit_progress_def intro: same_env_trans)
        qed
      qed
    qed
  qed
qed

lemma persist_audit_with_parent_trace:
  assumes "persist_audit_with_parent X p d r w = (res, w')"
  shows "audit_progress r w w' \<and>
     (res = Ok () \<longrightarrow> w_trace w' = w_trace w @ [EvAudit r, EvAuditSynced])"
proof (cases "path_file_name p")
  case None
  with assms show ?thesis by (auto simp: persist_audit_with_parent_alt)
next
  case (Some name)
  show ?thesis
  proof (cases "nul_in name")
    case True
    with assms Some show ?thesis by (auto simp: persist_audit_with_parent_alt)
  next
    case False
    with assms Some have "and_then (open_audit_file d name) (persist_opened X d r) w = (res, w')"
      by (simp add: persist_audit_with_parent_alt)
    then show ?thesis
    proof (rule and_then_cases)
      fix e
      assume "open_audit_file d name w = (Err e, w')" and "res = Err e"
      then show ?thesis
        using keepsD [OF quiet_open_audit_file] by (auto intro: quiet_audit_progress)
    next
      fix fn w1
      assume o: "open_audit_file d name w = (Ok fn, w1)" and k: "persist_opened X d r fn w1 = (res, w')"
      have "quiet w w1" using o by (rule keepsD [OF quiet_open_audit_file])
      moreover have "audit_progress r w1 w' \<and>
          (res = Ok () \<longrightarrow> w_trace w' = w_trace w1 @ [EvAudit r, EvAuditSynced])"
        using k persist_opened_trace by (cases fn) blast
      ultimately show ?thesis
        by (auto simp: quiet_def intro: audit_progress_quiet_trans)
    qed
  qed
qed

section \<open>The interface of an audit sink\<close>

text \<open>
  The trait \<open>AuditSink\<close>: one operation that persists a record.  A sink that reports success has
  put exactly this record on the device; a sink that reports an error has added at most this record.
\<close>

locale audit_sink =
  fixes persist_record :: "audit_record \<Rightarrow> (world, unit, audit_error) act"
  assumes persist_ok: "persist_record r w = (Ok (), w') \<Longrightarrow>
      same_env w w' \<and> w_trace w' = w_trace w @ [EvAudit r, EvAuditSynced]"
    and persist_progress: "persist_record r w = (res, w') \<Longrightarrow> audit_progress r w w'"
begin

lemma persist_env: "persist_record r w = (res, w') \<Longrightarrow> same_env w w'"
  using persist_progress by (auto simp: audit_progress_def)

lemma persist_extends: "persist_record r w = (res, w') \<Longrightarrow> prefix (w_trace w) (w_trace w')"
  using persist_progress by (fastforce simp: audit_progress_def)

lemma persist_only_audit:
  assumes "persist_record r w = (res, w')" and "w_trace w' = w_trace w @ es" and "ev \<in> set es"
  shows "ev = EvAudit r \<or> ev = EvAuditSynced"
  using persist_progress [OF assms(1)] assms(2,3) by (auto simp: audit_progress_def)

end

interpretation anchored: audit_sink "anchored_persist X log" for X log
proof unfold_locales
  fix r :: audit_record and w w' and res :: "(unit, audit_error) result"
  show "anchored_persist X log r w = (Ok (), w') \<Longrightarrow>
      same_env w w' \<and> w_trace w' = w_trace w @ [EvAudit r, EvAuditSynced]"
    unfolding anchored_persist_def
    using persist_audit_with_parent_trace by (fastforce simp: audit_progress_def)
  show "anchored_persist X log r w = (res, w') \<Longrightarrow> audit_progress r w w'"
    unfolding anchored_persist_def using persist_audit_with_parent_trace by blast
qed

lemma persist_audit_trace:
  assumes "persist_audit X p r w = (res, w')"
  shows "audit_progress r w w' \<and>
     (res = Ok () \<longrightarrow> w_trace w' = w_trace w @ [EvAudit r, EvAuditSynced])"
proof (cases "path_parent p")
  case None
  with assms show ?thesis by (auto simp: persist_audit_def)
next
  case (Some parent)
  let ?open = "\<lambda>_::unit. and_then (with_err AuditResolveParent (sys_read (fs_canonicalize parent)))
     (\<lambda>c. and_then (with_err AuditOpenParent (sys_read (fs_open_dir_nofollow c)))
     (\<lambda>d. and_then (with_err AuditInspectParent (sys_fd_metadata d))
     (\<lambda>m. if \<not> is_dir m then fail AuditParentNotDir else ret d)))"
  have split: "persist_audit X p r = and_then (?open ()) (\<lambda>d. persist_audit_with_parent X p d r)"
    using Some by (simp add: persist_audit_def and_then_assoc if_distrib [where f = "\<lambda>m. and_then m _"]
        cong: if_cong)
  have open_quiet: "keeps quiet (?open ())"
  proof (intro keeps_intros)
    fix d m
    show "keeps quiet (if \<not> is_dir m then fail AuditParentNotDir else ret d)"
      by (simp add: quiet_pure)
  qed
  from assms show ?thesis
    unfolding split
  proof (rule and_then_cases)
    fix e
    assume "?open () w = (Err e, w')" and "res = Err e"
    then show ?thesis using keepsD [OF open_quiet] by (auto intro: quiet_audit_progress)
  next
    fix d w1
    assume "?open () w = (Ok d, w1)" and k: "persist_audit_with_parent X p d r w1 = (res, w')"
    then have "quiet w w1" using keepsD [OF open_quiet] by blast
    then show ?thesis
      using persist_audit_with_parent_trace [OF k]
      by (auto simp: quiet_def intro: audit_progress_quiet_trans)
  qed
qed

interpretation path_sink: audit_sink "persist_audit X p" for X p
proof unfold_locales
  fix r :: audit_record and w w' and res :: "(unit, audit_error) result"
  show "persist_audit X p r w = (Ok (), w') \<Longrightarrow>
      same_env w w' \<and> w_trace w' = w_trace w @ [EvAudit r, EvAuditSynced]"
    using persist_audit_trace by (fastforce simp: audit_progress_def)
  show "persist_audit X p r w = (res, w') \<Longrightarrow> audit_progress r w w'"
    using persist_audit_trace by blast
qed


section \<open>What a persisted record leaves in the log\<close>

definition log_text :: "fsys \<Rightarrow> nat \<Rightarrow> string \<Rightarrow> string" where
  "log_text fs d name =
     (case dir_lookup fs d name of
        None \<Rightarrow> []
      | Some i \<Rightarrow> (case file_content fs i of None \<Rightarrow> [] | Some c \<Rightarrow> c))"

lemma write_audit_OkD:
  assumes "write_audit X i r w = (Ok (), w')"
  shows "\<exists>json. x_audit_json X r = Ok json \<and>
     w_fs w' = fs_append i newline (fs_append i json (w_fs w))"
  using assms
  by (auto simp: write_audit_def with_err_eq_Ok emit_def split: result.splits
      elim!: and_then_OkE dest!: sys_write_all_OkD)

lemma persist_opened_OkD:
  assumes "persist_opened X d r (i, new) w = (Ok (), w')"
  obtains json c where "x_audit_json X r = Ok json" and "file_content (w_fs w) i = Some c"
    and "file_content (w_fs w') i = Some (c @ json @ newline)"
    and "\<And>n. dir_lookup (w_fs w') d n = dir_lookup (w_fs w) d n"
    and "fs_stable (w_fs w') i = fs_inodes (w_fs w') i"
    and "map_option ino_mode (fs_inodes (w_fs w') i) = Some mode_owner_only"
proof -
  from assms obtain md w1 w2 w3 w4 w5 where
    md: "sys_fd_metadata i w = (Ok md, w1)" "is_file md"
    and ch: "sys_chmod i mode_owner_only w1 = (Ok (), w2)"
    and sy: "only_if new (and_then (with_err AuditSyncNew (sys_sync i)) (\<lambda>_.
          with_err AuditSyncParent (sys_sync d))) w2 = (Ok (), w3)"
    and wr: "write_audit X i r w3 = (Ok (), w4)"
    and s2: "sys_sync i w4 = (Ok (), w5)"
    and s3: "only_if new (with_err AuditSyncParent (sys_sync d)) (emit EvAuditSynced w5) = (Ok (), w')"
    unfolding persist_opened_def
    by (auto simp: with_err_eq_Ok note_synced_def split: if_splits elim!: and_then_OkE)
  obtain c where c: "file_content (w_fs w) i = Some c"
    using md by (auto dest!: sys_fd_metadata_OkD stat_is_file)
  have i: "\<exists>n. fs_inodes (w_fs w) i = Some n"
    using c by (auto simp: file_content_def split: option.splits)
  obtain json where json: "x_audit_json X r = Ok json"
    and fs4: "w_fs w4 = fs_append i newline (fs_append i json (w_fs w3))"
    using write_audit_OkD [OF wr] by blast
  have fs2: "w_fs w2 = fs_chmod i mode_owner_only (w_fs w)"
    using md ch by (auto dest!: sys_fd_metadata_OkD sys_chmod_OkD)
  have fs3: "w_fs w3 = (if new then fs_sync d (fs_sync i (w_fs w2)) else w_fs w2)"
    using sy by (auto simp: only_if_def with_err_eq_Ok elim!: and_then_OkE dest!: sys_sync_OkD)
  have fs5: "w_fs w5 = fs_sync i (w_fs w4)"
    using s2 by (auto dest!: sys_sync_OkD)
  have fs': "w_fs w' = (if new then fs_sync d (w_fs w5) else w_fs w5)"
    using s3 by (auto simp: only_if_def with_err_eq_Ok emit_def dest!: sys_sync_OkD)
  show thesis
  proof (rule that [OF json c])
    show "file_content (w_fs w') i = Some (c @ json @ newline)"
      using c by (simp add: fs' fs5 fs4 fs3 fs2 fs_simps)
    show "dir_lookup (w_fs w') d n = dir_lookup (w_fs w) d n" for n
      by (simp add: fs' fs5 fs4 fs3 fs2 fs_simps)
    show "fs_stable (w_fs w') i = fs_inodes (w_fs w') i"
      by (simp add: fs' fs5 fs_simps)
    show "map_option ino_mode (fs_inodes (w_fs w') i) = Some mode_owner_only"
      using i by (auto simp: fs' fs5 fs4 fs3 fs2 fs_simps simp del: map_option_eq_Some)
  qed
qed

lemma open_audit_file_OkD:
  assumes "open_audit_file d name w = (Ok (i, new), w')" and "fs_wf (w_fs w)"
  shows "dir_lookup (w_fs w') d name = Some i"
    and "\<exists>c. file_content (w_fs w') i = Some c \<Longrightarrow> log_text (w_fs w') d name = log_text (w_fs w) d name"
proof -
  have "dir_lookup (w_fs w') d name = Some i \<and>
      (file_content (w_fs w') i \<noteq> None \<longrightarrow> log_text (w_fs w') d name = log_text (w_fs w) d name)"
  proof (cases new)
    case True
    with assms(1) obtain fs' where "fs_create_at d name mode_owner_only (w_fs w) = Ok (i, fs')"
      and "w_fs w' = fs'"
      by (auto simp: open_audit_file_def split: prod.splits result.splits if_splits
          dest!: sys_update_OkD)
    then show ?thesis
      using fs_create_at_Ok [OF _ assms(2)] by (simp add: log_text_def)
  next
    case False
    with assms(1) have "fs_open_at True d name (w_fs w) = Ok i" and "w_fs w' = w_fs w"
      by (auto simp: open_audit_file_def split: prod.splits result.splits if_splits
          dest!: sys_update_ErrD sys_read_OkD)
    then show ?thesis
      using fs_open_at_Ok by (simp add: log_text_def)
  qed
  then show "dir_lookup (w_fs w') d name = Some i"
    and "\<exists>c. file_content (w_fs w') i = Some c \<Longrightarrow> log_text (w_fs w') d name = log_text (w_fs w) d name"
    by auto
qed

lemma persist_audit_with_parent_log:
  assumes "persist_audit_with_parent X p d r w = (Ok (), w')" and "path_file_name p = Some name"
    and "fs_wf (w_fs w)"
  shows "\<exists>i json. x_audit_json X r = Ok json \<and> dir_lookup (w_fs w') d name = Some i \<and>
     file_content (w_fs w') i = Some (log_text (w_fs w) d name @ json @ newline) \<and>
     fs_stable (w_fs w') i = fs_inodes (w_fs w') i \<and>
     map_option ino_mode (fs_inodes (w_fs w') i) = Some mode_owner_only"
proof -
  from assms(1,2) obtain i new w1 where
    o: "open_audit_file d name w = (Ok (i, new), w1)"
    and po: "persist_opened X d r (i, new) w1 = (Ok (), w')"
    by (auto simp: persist_audit_with_parent_alt split: if_splits elim!: and_then_OkE)
  obtain json c where json: "x_audit_json X r = Ok json" and c: "file_content (w_fs w1) i = Some c"
    and new: "file_content (w_fs w') i = Some (c @ json @ newline)"
      "\<And>n. dir_lookup (w_fs w') d n = dir_lookup (w_fs w1) d n"
      "fs_stable (w_fs w') i = fs_inodes (w_fs w') i"
      "map_option ino_mode (fs_inodes (w_fs w') i) = Some mode_owner_only"
    using po by (rule persist_opened_OkD) blast
  have "dir_lookup (w_fs w1) d name = Some i" and "log_text (w_fs w) d name = c"
    using open_audit_file_OkD [OF o assms(3)] c by (auto simp: log_text_def)
  with json new show ?thesis by auto
qed

section \<open>Properties\<close>

text \<open>C27: an audit record that is reported as persisted is the last line of the log:
  the earlier bytes are kept, the line is the record's JSON text, the file is on the device and only
  its owner can read it.\<close>

theorem audit_appends:
  assumes "anchored_persist X log r w = (Ok (), w')" and "path_file_name (al_path log) = Some name"
    and "fs_wf (w_fs w)"
  shows "\<exists>i json. x_audit_json X r = Ok json \<and> dir_lookup (w_fs w') (al_parent_directory log) name = Some i \<and>
     file_content (w_fs w') i = Some (log_text (w_fs w) (al_parent_directory log) name @ json @ newline) \<and>
     fs_stable (w_fs w') i = fs_inodes (w_fs w') i \<and>
     map_option ino_mode (fs_inodes (w_fs w') i) = Some mode_owner_only"
  using persist_audit_with_parent_log [OF _ assms(2,3)] assms(1) by (simp add: anchored_persist_def)

definition sample_log :: anchored_audit_log where
  "sample_log = \<lparr>al_path = [RootDir, Normal ''state'', Normal ''audit''], al_parent_directory = 1\<rparr>"

definition sample_record :: audit_record where
  "sample_record =
     \<lparr>ar_request_id = 5, ar_timestamp_unix = 0, ar_message = ''m'', ar_phase = Approval,
      ar_decision = Review, ar_reason = Write, ar_execution_outcome = NotExecuted\<rparr>"

theorem audit_appends_witness:
  "\<exists>w' i. anchored_persist sample_externals sample_log sample_record sample_world = (Ok (), w') \<and>
     file_content (w_fs w') i = Some (''{}'' @ newline)"
proof -
  have "fst (anchored_persist sample_externals sample_log sample_record sample_world) = Ok ()" by code_simp
  then obtain w' where run: "anchored_persist sample_externals sample_log sample_record sample_world = (Ok (), w')"
    by (metis prod.collapse)
  have "path_file_name (al_path sample_log) = Some ''audit''" by code_simp
  moreover have "fs_wf (w_fs sample_world)" using sample_fs_wf by (simp add: sample_world_def)
  moreover have "log_text (w_fs sample_world) (al_parent_directory sample_log) ''audit'' = []" by code_simp
  moreover have "x_audit_json sample_externals sample_record = Ok ''{}''" by (simp add: sample_externals_def)
  ultimately show ?thesis using audit_appends [OF run] run by fastforce
qed

end
