(* ===== verification/FileSystem.thy ===== *)
theory FileSystem
  imports AuditLog
begin

text \<open>
  \<open>filesystem.rs\<close>: the workspace capability.  Policy evaluation resolves paths by name
  (\<open>resolve_existing_path\<close>, \<open>resolve_write_target\<close>); the reads and writes themselves go
  through the anchored directory, which is the parameter \<open>cap_dir\<close>.
\<close>

definition MAX_READ_BYTES :: nat where "MAX_READ_BYTES = 1024 * 1024"
definition MAX_WRITE_BYTES :: nat where "MAX_WRITE_BYTES = 1024 * 1024"

record file_system_capability =
  fc_workspace_root :: path
  fc_workspace_dir :: "cap_dir option"

datatype fs_error =
    OpenWorkspace io_error
  | AbsolutePath
  | ParentTraversal
  | OutsideWorkspace
  | ResolveRoot io_error
  | ResolvePath io_error
  | EscapesWorkspace
  | TargetNotRegular
  | TargetNoParent
  | ResolveTargetParent io_error
  | TargetNoFileName
  | NotAnchored
  | RevalidateParent io_error
  | TargetIsSymlink
  | RevalidateTarget io_error
  | InspectTarget io_error
  | OpenTarget io_error
  | ReadTarget io_error
  | ContentTooLarge
  | ReadTargetMetadata io_error
  | CreateTemporary io_error
  | PreservePermissions io_error
  | WriteTemporary io_error
  | SyncTemporary io_error
  | ReplaceTarget io_error
  | ReadNoParent
  | ReadParent io_error
  | InspectFile io_error
  | ReadIsSymlink
  | ReadNotRegular
  | OpenFile io_error
  | ReadFileFailed io_error
  | FileTooLarge
  | NotUtf8

definition try_new :: "externals \<Rightarrow> path \<Rightarrow> (world, file_system_capability, fs_error) act" where
  "try_new X workspace_root =
     and_then (with_err OpenWorkspace (sys_read (x_open_ambient_dir X workspace_root)))
       (\<lambda>workspace_dir. ret \<lparr>fc_workspace_root = workspace_root, fc_workspace_dir = Some workspace_dir\<rparr>)"

section \<open>Lexical checks\<close>

fun check_components :: "path \<Rightarrow> (unit, fs_error) result" where
  "check_components [] = Ok ()"
| "check_components (ParentDir # p) = Err ParentTraversal"
| "check_components (RootDir # p) = Err OutsideWorkspace"
| "check_components (_ # p) = check_components p"

definition check_relative :: "path \<Rightarrow> (unit, fs_error) result" where
  "check_relative p = (if is_absolute p then Err AbsolutePath else check_components p)"

definition validate_relative_path ::
  "file_system_capability \<Rightarrow> string \<Rightarrow> (path, fs_error) result" where
  "validate_relative_path fc requested_path =
     bind_result (check_relative (path_of requested_path))
       (\<lambda>_. Ok (path_join (fc_workspace_root fc) (path_of requested_path)))"

lemma check_components_iff: "check_components p = Ok u \<longleftrightarrow> ParentDir \<notin> set p \<and> RootDir \<notin> set p"
  by (induction p rule: check_components.induct) auto

lemma check_relative_iff: "check_relative p = Ok u \<longleftrightarrow> ParentDir \<notin> set p \<and> RootDir \<notin> set p"
  by (cases p) (auto simp: check_relative_def check_components_iff)

section \<open>Resolution by name\<close>

definition resolve_existing_path ::
  "file_system_capability \<Rightarrow> string \<Rightarrow> (world, path, fs_error) act" where
  "resolve_existing_path fc requested_path =
     and_then (from_result (validate_relative_path fc requested_path)) (\<lambda>candidate.
     and_then (with_err ResolveRoot (sys_read (fs_canonicalize (fc_workspace_root fc))))
       (\<lambda>canonical_root.
     and_then (with_err ResolvePath (sys_read (fs_canonicalize candidate)))
       (\<lambda>canonical_candidate.
     if \<not> path_starts_with canonical_candidate canonical_root then fail EscapesWorkspace
     else ret canonical_candidate)))"

text \<open>\<open>Path::is_file\<close>: false when the metadata cannot be read.\<close>

definition sys_is_file :: "path \<Rightarrow> world \<Rightarrow> bool \<times> world" where
  "sys_is_file p w =
     (case sys_read (fs_metadata p) w of
        (Ok m, w') \<Rightarrow> (is_file m, w')
      | (Err _, w') \<Rightarrow> (False, w'))"

definition resolve_write_target ::
  "file_system_capability \<Rightarrow> string \<Rightarrow> (world, path, fs_error) act" where
  "resolve_write_target fc requested_path =
     and_then (from_result (validate_relative_path fc requested_path)) (\<lambda>candidate.
     and_then (with_err ResolveRoot (sys_read (fs_canonicalize (fc_workspace_root fc))))
       (\<lambda>canonical_root w.
     (case sys_read (fs_symlink_metadata candidate) w of
        (Ok _, w1) \<Rightarrow>
          and_then (with_err ResolvePath (sys_read (fs_canonicalize candidate)))
            (\<lambda>canonical_candidate w2.
               if \<not> path_starts_with canonical_candidate canonical_root
               then (Err EscapesWorkspace, w2)
               else
                 (case sys_is_file canonical_candidate w2 of
                    (regular, w3) \<Rightarrow>
                      if \<not> regular then (Err TargetNotRegular, w3)
                      else (Ok canonical_candidate, w3))) w1
      | (Err _, w1) \<Rightarrow>
          (case path_parent candidate of
             None \<Rightarrow> (Err TargetNoParent, w1)
           | Some parent \<Rightarrow>
               and_then (with_err ResolveTargetParent (sys_read (fs_canonicalize parent)))
                 (\<lambda>canonical_parent.
                    if \<not> path_starts_with canonical_parent canonical_root then fail EscapesWorkspace
                    else
                      (case path_file_name candidate of
                         None \<Rightarrow> fail TargetNoFileName
                       | Some file_name \<Rightarrow> ret (path_join canonical_parent [Normal file_name])))
                 w1))))"

section \<open>Anchored revalidation\<close>

definition revalidate_write_target ::
  "file_system_capability \<Rightarrow> string \<Rightarrow> (world, unit, fs_error) act" where
  "revalidate_write_target fc requested_path =
     (let relative_path = path_of requested_path in
      and_then (from_result (check_relative relative_path)) (\<lambda>_.
      case path_parent relative_path of
        None \<Rightarrow> fail TargetNoParent
      | Some parent \<Rightarrow>
          (case fc_workspace_dir fc of
             None \<Rightarrow> fail NotAnchored
           | Some workspace \<Rightarrow>
               and_then
                 (if parent \<noteq> []
                  then with_err RevalidateParent (sys_read (cd_open_dir_nofollow workspace parent))
                  else ret ())
                 (\<lambda>_ w.
                    (case sys_read (cd_symlink_metadata workspace relative_path) w of
                       (Ok metadata, w') \<Rightarrow>
                         if is_symlink metadata then (Err TargetIsSymlink, w')
                         else if \<not> is_file metadata then (Err TargetNotRegular, w')
                         else (Ok (), w')
                     | (Err e, w') \<Rightarrow>
                         if e = NotFound then (Ok (), w') else (Err (RevalidateTarget e), w'))))))"

definition file_bytes :: "nat \<Rightarrow> fsys \<Rightarrow> (string, io_error) result" where
  "file_bytes i fs = (case file_content fs i of None \<Rightarrow> Err IsADirectory | Some c \<Rightarrow> Ok c)"

definition sha256_hex :: "externals \<Rightarrow> string \<Rightarrow> string" where
  "sha256_hex X bytes = hex_text (x_sha256 X bytes)"

definition capture_write_target_state ::
  "externals \<Rightarrow> file_system_capability \<Rightarrow> string \<Rightarrow> (world, write_target_state, fs_error) act" where
  "capture_write_target_state X fc requested_path =
     and_then (revalidate_write_target fc requested_path) (\<lambda>_ w.
     let relative_path = path_of requested_path in
     (case fc_workspace_dir fc of
        None \<Rightarrow> (Err NotAnchored, w)
      | Some workspace \<Rightarrow>
          (case sys_read (cd_symlink_metadata workspace relative_path) w of
             (Err e, w1) \<Rightarrow>
               if e = NotFound then (Ok Missing, w1) else (Err (InspectTarget e), w1)
           | (Ok metadata, w1) \<Rightarrow>
               if is_symlink metadata then (Err TargetIsSymlink, w1)
               else if \<not> is_file metadata then (Err TargetNotRegular, w1)
               else
                 and_then (with_err OpenTarget (sys_read (cd_open_nofollow workspace relative_path)))
                   (\<lambda>file.
                      and_then (with_err ReadTarget (sys_read (file_bytes file)))
                        (\<lambda>bytes. ret (Existing (sha256_hex X bytes)))) w1)))"

section \<open>Writing\<close>

definition temporary_write_name :: "externals \<Rightarrow> uuid \<Rightarrow> string" where
  "temporary_write_name X u = ''.zyguor-write-'' @ x_uuid_text X u @ ''.tmp''"

text \<open>The closure: everything from creating the temporary file to the rename.\<close>

definition replace_through_temporary ::
  "cap_dir \<Rightarrow> path \<Rightarrow> path \<Rightarrow> nat option \<Rightarrow> string \<Rightarrow> string \<Rightarrow> (world, unit, fs_error) act" where
  "replace_through_temporary workspace temporary_path relative_path existing_permissions
       requested_path content =
     and_then (with_err CreateTemporary (sys_update (cd_create_new workspace temporary_path)))
       (\<lambda>temporary_file.
     and_then (case existing_permissions of
                 None \<Rightarrow> ret ()
               | Some mode \<Rightarrow> with_err PreservePermissions (sys_chmod temporary_file mode)) (\<lambda>_.
     and_then (with_err WriteTemporary (sys_write_all temporary_file content)) (\<lambda>_.
     and_then (with_err SyncTemporary (sys_sync temporary_file)) (\<lambda>_.
     and_then (with_err ReplaceTarget
       (sys_update (cd_rename workspace temporary_path relative_path))) (\<lambda>_ w.
     (Ok (), emit (EvReplaced requested_path content) w))))))"

definition write_text_file ::
  "externals \<Rightarrow> file_system_capability \<Rightarrow> string \<Rightarrow> string \<Rightarrow> (world, unit, fs_error) act" where
  "write_text_file X fc requested_path content =
     (if length content > MAX_WRITE_BYTES then fail ContentTooLarge
      else
        (let relative_path = path_of requested_path in
         and_then (from_result (check_relative relative_path)) (\<lambda>_.
         if path_file_name relative_path = None then fail TargetNoFileName
         else
           (let parent = (case path_parent relative_path of None \<Rightarrow> [] | Some p \<Rightarrow> p) in
            case fc_workspace_dir fc of
              None \<Rightarrow> fail NotAnchored
            | Some workspace \<Rightarrow>
                and_then (revalidate_write_target fc requested_path) (\<lambda>_ w.
                case (case sys_read (cd_symlink_metadata workspace relative_path) w of
                        (Ok metadata, w1) \<Rightarrow> (Ok (Some (md_mode metadata)), w1)
                      | (Err e, w1) \<Rightarrow>
                          if e = NotFound then (Ok None, w1) else (Err (ReadTargetMetadata e), w1)) of
                  (Err e, w1) \<Rightarrow> (Err e, w1)
                | (Ok existing_permissions, w1) \<Rightarrow>
                    (case new_uuid w1 of (u, w2) \<Rightarrow>
                       let temporary_name = temporary_write_name X u;
                           temporary_path =
                             (if parent = [] then [Normal temporary_name]
                              else path_join parent [Normal temporary_name])
                       in (case replace_through_temporary workspace temporary_path relative_path
                                  existing_permissions requested_path content w2 of
                             (Ok _, w3) \<Rightarrow> (Ok (), w3)
                           | (Err e, w3) \<Rightarrow>
                               (Err e, ignore_err
                                  (sys_update (cd_remove_file workspace temporary_path)) w3))))))))"

section \<open>Reading\<close>

definition read_text_file ::
  "file_system_capability \<Rightarrow> string \<Rightarrow> (world, string, fs_error) act" where
  "read_text_file fc requested_path =
     and_then (from_result (validate_relative_path fc requested_path)) (\<lambda>_.
     let relative_path = path_of requested_path in
     case fc_workspace_dir fc of
       None \<Rightarrow> fail NotAnchored
     | Some workspace \<Rightarrow>
         (case path_parent relative_path of
            None \<Rightarrow> fail ReadNoParent
          | Some parent \<Rightarrow>
              and_then
                (if parent \<noteq> []
                 then with_err ReadParent (sys_read (cd_open_dir_nofollow workspace parent))
                 else ret ()) (\<lambda>_.
              and_then (with_err InspectFile (sys_read (cd_symlink_metadata workspace relative_path)))
                (\<lambda>metadata.
              if is_symlink metadata then fail ReadIsSymlink
              else if \<not> is_file metadata then fail ReadNotRegular
              else
                and_then (with_err OpenFile (sys_read (cd_open_nofollow workspace relative_path)))
                  (\<lambda>file.
                and_then (with_err ReadFileFailed (sys_read (file_bytes file))) (\<lambda>bytes.
                let buffer = take (MAX_READ_BYTES + 1) bytes in
                if length buffer > MAX_READ_BYTES then fail FileTooLarge
                else from_result (ok_or NotUtf8 (from_utf8 buffer))))))))"

end
