(* ===== verification/PendingReview.thy ===== *)
theory PendingReview
  imports FileSystem
begin

text \<open>
  \<open>pending_review.rs\<close>: the durable store of reviewed requests.  A request is pending or
  claimed; every change is written to the state file through a temporary file, an \<open>fsync\<close>, a
  rename and an \<open>fsync\<close> of the directory, and a failed write is classified by whether the
  rename had happened.  The JSON encoding of the state (\<open>serde_json\<close>) is the parameter
  \<open>store_json\<close>.
\<close>

section \<open>Reviews and their persisted form\<close>

record pending_review =
  pr_request_id :: uuid
  pr_request :: execution_request
  pr_purpose :: string
  pr_workspace_fingerprint :: "string option"
  pr_write_target_state :: "write_target_state option"

definition new_review :: "uuid \<Rightarrow> execution_request \<Rightarrow> string \<Rightarrow> pending_review" where
  "new_review request_id request purpose =
     \<lparr>pr_request_id = request_id, pr_request = request, pr_purpose = purpose,
      pr_workspace_fingerprint = None, pr_write_target_state = None\<rparr>"

definition new_with_workspace_fingerprint ::
  "uuid \<Rightarrow> execution_request \<Rightarrow> string \<Rightarrow> string \<Rightarrow> pending_review" where
  "new_with_workspace_fingerprint request_id request purpose workspace_fingerprint =
     \<lparr>pr_request_id = request_id, pr_request = request, pr_purpose = purpose,
      pr_workspace_fingerprint = Some workspace_fingerprint, pr_write_target_state = None\<rparr>"

definition new_with_write_target_state ::
  "uuid \<Rightarrow> execution_request \<Rightarrow> string \<Rightarrow> write_target_state \<Rightarrow> pending_review" where
  "new_with_write_target_state request_id request purpose write_target_state =
     \<lparr>pr_request_id = request_id, pr_request = request, pr_purpose = purpose,
      pr_workspace_fingerprint = None, pr_write_target_state = Some write_target_state\<rparr>"

lemmas review_constructors =
  new_review_def new_with_workspace_fingerprint_def new_with_write_target_state_def

datatype persisted_review_status = PendingStatus | ClaimedStatus

datatype persisted_review_operation =
    PersistedWriteFile string string write_target_state
  | PersistedRunCargoTest string
  | PersistedHttpPost string "string option"

record persisted_pending_review =
  pp_request_id :: uuid
  pp_purpose :: string
  pp_status :: persisted_review_status
  pp_operation :: persisted_review_operation

record persisted_pending_review_state =
  ps_version :: u32
  ps_reviews :: "persisted_pending_review list"

definition state_version :: u32 where "state_version = 3"

record store_json =
  sj_to_string_pretty :: "persisted_pending_review_state \<Rightarrow> (string, string) result"
  sj_from_str :: "string \<Rightarrow> (persisted_pending_review_state, string) result"

section \<open>Errors\<close>

datatype store_error =
    MissingTargetState
  | MissingFingerprint
  | NotPersistable
  | SerializeState string
  | DeserializeState string
  | UnsupportedVersion u32
  | DuplicateRequestId
  | StateNoParent
  | StateNoFileName
  | ResolveStateParent io_error
  | OpenStateParent io_error
  | InspectStateParent io_error
  | StateParentNotDir
  | StateParentChanged nat nat nat nat
  | StateNulName
  | InspectState io_error
  | StateNotRegular
  | ReadState io_error
  | StateIsSymlink
  | OpenState io_error
  | TemporaryNulName
  | CreateState io_error
  | WriteState io_error
  | SyncState io_error
  | RenameState io_error
  | SyncStateParent io_error
  | PersistenceIncomplete
  | AlreadyPending
  | AlreadyClaimed
  | PendingNotFound
  | ClaimedNotFound
  | RestoreMismatch
  | StoreLockPoisoned
  | InsertNotPersisted store_error
  | ClaimNotPersisted store_error
  | RestoreNotPersisted store_error
  | ConsumeNotPersisted store_error
  | ConsumeUncertain store_error

datatype persistence_failure = BeforeCommit store_error | AfterCommit store_error

datatype consume_claimed_failure = NotCommitted store_error | DurabilityUncertain store_error

fun failure_message :: "persistence_failure \<Rightarrow> store_error" where
  "failure_message (BeforeCommit m) = m"
| "failure_message (AfterCommit m) = m"

fun is_before_commit :: "persistence_failure \<Rightarrow> bool" where
  "is_before_commit (BeforeCommit _) = True"
| "is_before_commit (AfterCommit _) = False"

fun consume_failure_message :: "consume_claimed_failure \<Rightarrow> store_error" where
  "consume_failure_message (NotCommitted m) = m"
| "consume_failure_message (DurabilityUncertain m) = m"

section \<open>Conversions\<close>

definition to_persisted :: "pending_review \<Rightarrow> (persisted_pending_review, store_error) result" where
  "to_persisted pending =
     bind_result
       (case pr_request pending of
          WriteFile arguments \<Rightarrow>
            bind_result (ok_or MissingTargetState (pr_write_target_state pending)) (\<lambda>target_state.
            Ok (PersistedWriteFile (wf_path arguments) (wf_content arguments) target_state))
        | RunCargoTest \<Rightarrow>
            bind_result (ok_or MissingFingerprint (pr_workspace_fingerprint pending))
              (\<lambda>workspace_fingerprint. Ok (PersistedRunCargoTest workspace_fingerprint))
        | HttpRequest arguments \<Rightarrow>
            (if http_method arguments = Post
             then Ok (PersistedHttpPost (http_url arguments) (http_body arguments))
             else Err NotPersistable)
        | _ \<Rightarrow> Err NotPersistable)
       (\<lambda>operation. Ok \<lparr>pp_request_id = pr_request_id pending, pp_purpose = pr_purpose pending,
                        pp_status = PendingStatus, pp_operation = operation\<rparr>)"

definition of_persisted :: "persisted_pending_review \<Rightarrow> (pending_review, store_error) result" where
  "of_persisted persisted =
     (case pp_operation persisted of
        PersistedWriteFile path content target_state \<Rightarrow>
          Ok (new_with_write_target_state (pp_request_id persisted)
                (WriteFile \<lparr>wf_path = path, wf_content = content\<rparr>) (pp_purpose persisted) target_state)
      | PersistedRunCargoTest workspace_fingerprint \<Rightarrow>
          Ok (new_with_workspace_fingerprint (pp_request_id persisted) RunCargoTest
                (pp_purpose persisted) workspace_fingerprint)
      | PersistedHttpPost url body \<Rightarrow>
          Ok (new_review (pp_request_id persisted)
                (HttpRequest \<lparr>http_method = Post, http_url = url, http_body = body\<rparr>)
                (pp_purpose persisted)))"

text \<open>A review that reads back as itself: what the gateway builds, and nothing it does not.\<close>

definition canonical :: "pending_review \<Rightarrow> bool" where
  "canonical p \<longleftrightarrow>
     (case to_persisted p of Err _ \<Rightarrow> False | Ok q \<Rightarrow> of_persisted q = Ok p)"

lemma of_persisted_status [simp]: "of_persisted (q\<lparr>pp_status := s\<rparr>) = of_persisted q"
  by (simp add: of_persisted_def split: persisted_review_operation.splits)

lemma to_persisted_id: "to_persisted p = Ok q \<Longrightarrow> pp_request_id q = pr_request_id p"
  by (auto simp: to_persisted_def bind_result_eq_Ok)

lemma of_persisted_id: "of_persisted q = Ok p \<Longrightarrow> pr_request_id p = pp_request_id q"
  by (auto simp: of_persisted_def review_constructors split: persisted_review_operation.splits)

lemma canonicalD: "canonical p \<Longrightarrow> \<exists>q. to_persisted p = Ok q \<and> of_persisted q = Ok p"
  by (auto simp: canonical_def split: result.splits)

lemma canonical_iff:
  "canonical p \<longleftrightarrow>
     is_reviewable (pr_request p) \<and>
     (case pr_request p of
        WriteFile _ \<Rightarrow> pr_write_target_state p \<noteq> None \<and> pr_workspace_fingerprint p = None
      | RunCargoTest \<Rightarrow> pr_workspace_fingerprint p \<noteq> None \<and> pr_write_target_state p = None
      | _ \<Rightarrow> pr_workspace_fingerprint p = None \<and> pr_write_target_state p = None)"
proof (cases p)
  case (fields i req purpose fp ts)
  then show ?thesis
    by (cases req; cases fp; cases ts)
      (auto simp: canonical_def to_persisted_def of_persisted_def review_constructors)
qed

lemma canonical_new:
  "canonical (new_with_write_target_state i (WriteFile a) purpose s)"
  "canonical (new_with_workspace_fingerprint i RunCargoTest purpose f)"
  "http_method h = Post \<Longrightarrow> canonical (new_review i (HttpRequest h) purpose)"
  by (simp_all add: canonical_iff review_constructors)

section \<open>The store\<close>

record pending_review_store =
  reviews :: "(uuid, pending_review) hash_map"
  claimed_reviews :: "(uuid, pending_review) hash_map"
  persistence_path :: "path option"
  persistence_parent :: "nat option"

definition new_store :: pending_review_store where
  "new_store = \<lparr>reviews = [], claimed_reviews = [], persistence_path = None, persistence_parent = None\<rparr>"

fun persist_reviews ::
  "persisted_review_status \<Rightarrow> pending_review list \<Rightarrow> (persisted_pending_review list, store_error) result"
where
  "persist_reviews status [] = Ok []"
| "persist_reviews status (p # ps) =
     bind_result (to_persisted p) (\<lambda>q.
     bind_result (persist_reviews status ps) (\<lambda>qs. Ok (q\<lparr>pp_status := status\<rparr> # qs)))"

definition serialize_state :: "store_json \<Rightarrow> pending_review_store \<Rightarrow> (string, store_error) result"
where
  "serialize_state J st =
     bind_result (persist_reviews PendingStatus (List.map snd (reviews st))) (\<lambda>pending.
     bind_result (persist_reviews ClaimedStatus (List.map snd (claimed_reviews st))) (\<lambda>claimed.
     map_err SerializeState
       (sj_to_string_pretty J \<lparr>ps_version = state_version, ps_reviews = pending @ claimed\<rparr>)))"

fun load_reviews ::
  "persisted_pending_review list \<Rightarrow> pending_review_store \<Rightarrow> (pending_review_store, store_error) result"
where
  "load_reviews [] store = Ok store"
| "load_reviews (persisted # rest) store =
     bind_result (of_persisted persisted) (\<lambda>pending.
     let request_id = pr_request_id pending in
     if hm_contains request_id (reviews store) \<or> hm_contains request_id (claimed_reviews store)
     then Err DuplicateRequestId
     else
       load_reviews rest
         (case pp_status persisted of
            PendingStatus \<Rightarrow> store\<lparr>reviews := hm_insert request_id pending (reviews store)\<rparr>
          | ClaimedStatus \<Rightarrow>
              store\<lparr>claimed_reviews := hm_insert request_id pending (claimed_reviews store)\<rparr>))"

definition from_serialized_state :: "store_json \<Rightarrow> string \<Rightarrow> (pending_review_store, store_error) result"
where
  "from_serialized_state J input =
     (case sj_from_str J input of
        Err e \<Rightarrow> Err (DeserializeState e)
      | Ok state \<Rightarrow>
          (if ps_version state \<noteq> state_version then Err (UnsupportedVersion (ps_version state))
           else load_reviews (ps_reviews state) new_store))"

section \<open>Saving\<close>

definition temporary_state_prefix :: string where
  "temporary_state_prefix = ''.zyguor-pending-reviews-''"

definition temporary_state_name :: "externals \<Rightarrow> uuid \<Rightarrow> string" where
  "temporary_state_name X u = temporary_state_prefix @ x_uuid_text X u @ ''.tmp''"

definition save_closure ::
  "nat \<Rightarrow> string \<Rightarrow> string \<Rightarrow> string \<Rightarrow> (world, unit, persistence_failure) act" where
  "save_closure parent_directory temporary_name file_name serialized =
     and_then (with_err (\<lambda>e. BeforeCommit (CreateState e))
       (sys_update (fs_create_at parent_directory temporary_name mode_owner_only))) (\<lambda>temporary_file.
     and_then (with_err (\<lambda>e. BeforeCommit (WriteState e))
       (sys_write_all temporary_file serialized)) (\<lambda>_.
     and_then (with_err (\<lambda>e. BeforeCommit (SyncState e)) (sys_sync temporary_file)) (\<lambda>_.
     and_then (with_err (\<lambda>e. BeforeCommit (RenameState e))
       (sys_update (fs_rename_at parent_directory temporary_name file_name))) (\<lambda>_.
     with_err (\<lambda>e. AfterCommit (SyncStateParent e)) (sys_sync parent_directory)))))"

definition save_to_anchored_path_classified ::
  "externals \<Rightarrow> store_json \<Rightarrow> pending_review_store \<Rightarrow> path \<Rightarrow> nat
   \<Rightarrow> (world, unit, persistence_failure) act" where
  "save_to_anchored_path_classified X J st path parent_directory w =
     (case serialize_state J st of
        Err e \<Rightarrow> (Err (BeforeCommit e), w)
      | Ok serialized \<Rightarrow>
          (case path_file_name path of
             None \<Rightarrow> (Err (BeforeCommit StateNoFileName), w)
           | Some file_name \<Rightarrow>
               if nul_in file_name then (Err (BeforeCommit StateNulName), w)
               else
                 (case new_uuid w of (u, w1) \<Rightarrow>
                    let temporary_name = temporary_state_name X u in
                    if nul_in temporary_name then (Err (BeforeCommit TemporaryNulName), w1)
                    else
                      (case save_closure parent_directory temporary_name file_name serialized w1 of
                         (Ok _, w2) \<Rightarrow> (Ok (), w2)
                       | (Err e, w2) \<Rightarrow>
                           (Err e, ignore_err
                              (sys_update (fs_unlink_at parent_directory temporary_name)) w2)))))"

definition persist ::
  "externals \<Rightarrow> store_json \<Rightarrow> pending_review_store \<Rightarrow> (world, unit, persistence_failure) act" where
  "persist X J st =
     (case (persistence_path st, persistence_parent st) of
        (Some path, Some parent_directory) \<Rightarrow> save_to_anchored_path_classified X J st path parent_directory
      | (None, None) \<Rightarrow> ret ()
      | _ \<Rightarrow> fail (BeforeCommit PersistenceIncomplete))"

section \<open>Loading\<close>

definition read_state_file ::
  "store_json \<Rightarrow> nat \<Rightarrow> string \<Rightarrow> (world, pending_review_store, store_error) act" where
  "read_state_file J parent_directory file_name w =
     (case sys_read (fs_open_at False parent_directory file_name) w of
        (Err e, w1) \<Rightarrow>
          (if e = NotFound then (Ok new_store, w1)
           else if e = FilesystemLoop then (Err StateIsSymlink, w1)
           else (Err (OpenState e), w1))
      | (Ok file, w1) \<Rightarrow>
          and_then (with_err InspectState (sys_fd_metadata file)) (\<lambda>metadata.
          if \<not> is_file metadata then fail StateNotRegular
          else
            and_then (with_err ReadState (sys_read (file_bytes file))) (\<lambda>bytes.
            case from_utf8 bytes of
              None \<Rightarrow> fail (ReadState InvalidData)
            | Some contents \<Rightarrow> from_result (from_serialized_state J contents))) w1)"

definition load_from_path_with_parent_identity ::
  "store_json \<Rightarrow> path \<Rightarrow> (nat \<times> nat) option \<Rightarrow> (world, pending_review_store, store_error) act" where
  "load_from_path_with_parent_identity J path expected_parent_identity =
     (case path_parent path of
        None \<Rightarrow> fail StateNoParent
      | Some parent \<Rightarrow>
          (case path_file_name path of
             None \<Rightarrow> fail StateNoFileName
           | Some file_name \<Rightarrow>
               and_then (with_err ResolveStateParent (sys_read (fs_canonicalize parent)))
                 (\<lambda>canonical_parent.
               and_then (with_err OpenStateParent (sys_read (fs_open_dir_nofollow canonical_parent)))
                 (\<lambda>parent_directory.
               and_then (with_err InspectStateParent (sys_fd_metadata parent_directory))
                 (\<lambda>parent_metadata.
               if \<not> is_dir parent_metadata then fail StateParentNotDir
               else
                 and_then
                   (case expected_parent_identity of
                      None \<Rightarrow> ret ()
                    | Some (expected_device, expected_inode) \<Rightarrow>
                        if md_dev parent_metadata \<noteq> expected_device
                           \<or> md_ino parent_metadata \<noteq> expected_inode
                        then fail (StateParentChanged expected_device expected_inode
                                     (md_dev parent_metadata) (md_ino parent_metadata))
                        else ret ()) (\<lambda>_.
                 if nul_in file_name then fail StateNulName
                 else
                   and_then (read_state_file J parent_directory file_name) (\<lambda>store.
                   ret (store\<lparr>persistence_path := Some (path_join canonical_parent [Normal file_name]),
                              persistence_parent := Some parent_directory\<rparr>))))))))"

definition load_from_validated_path ::
  "store_json \<Rightarrow> path \<Rightarrow> nat \<Rightarrow> nat \<Rightarrow> (world, pending_review_store, store_error) act" where
  "load_from_validated_path J path expected_parent_device expected_parent_inode =
     load_from_path_with_parent_identity J path (Some (expected_parent_device, expected_parent_inode))"

section \<open>Operations\<close>

text \<open>The state of an operation is the store and the world it writes to.\<close>

type_synonym 'a store_act = "(pending_review_store \<times> world, 'a, store_error) act"

definition store_insert :: "externals \<Rightarrow> store_json \<Rightarrow> pending_review \<Rightarrow> unit store_act" where
  "store_insert X J pending = (\<lambda>(st, w).
     if hm_contains (pr_request_id pending) (reviews st) then (Err AlreadyPending, (st, w))
     else
       (let request_id = pr_request_id pending;
            st1 = st\<lparr>reviews := hm_insert request_id pending (reviews st)\<rparr>
        in (case persist X J st1 w of
              (Ok _, w1) \<Rightarrow> (Ok (), (st1, w1))
            | (Err error, w1) \<Rightarrow>
                (Err (InsertNotPersisted (failure_message error)),
                 (if is_before_commit error
                  then st1\<lparr>reviews := hm_remove request_id (reviews st1)\<rparr> else st1, w1)))))"

definition store_get :: "uuid \<Rightarrow> pending_review_store \<Rightarrow> pending_review option" where
  "store_get request_id st = hm_get request_id (reviews st)"

definition store_get_claimed :: "uuid \<Rightarrow> pending_review_store \<Rightarrow> pending_review option" where
  "store_get_claimed request_id st = hm_get request_id (claimed_reviews st)"

definition claimed_count :: "pending_review_store \<Rightarrow> nat" where
  "claimed_count st = length (claimed_reviews st)"

definition store_claim :: "externals \<Rightarrow> store_json \<Rightarrow> uuid \<Rightarrow> pending_review store_act" where
  "store_claim X J request_id = (\<lambda>(st, w).
     if hm_contains request_id (claimed_reviews st) then (Err AlreadyClaimed, (st, w))
     else
       (case hm_get request_id (reviews st) of
          None \<Rightarrow> (Err PendingNotFound, (st, w))
        | Some pending \<Rightarrow>
            let st1 = st\<lparr>reviews := hm_remove request_id (reviews st),
                         claimed_reviews := hm_insert request_id pending (claimed_reviews st)\<rparr>
            in (case persist X J st1 w of
                  (Ok _, w1) \<Rightarrow> (Ok pending, (st1, w1))
                | (Err error, w1) \<Rightarrow>
                    (Err (ClaimNotPersisted (failure_message error)),
                     (if is_before_commit error
                      then st1\<lparr>claimed_reviews := hm_remove request_id (claimed_reviews st1),
                               reviews := hm_insert request_id pending (reviews st1)\<rparr>
                      else st1, w1)))))"

definition store_restore_claimed :: "externals \<Rightarrow> store_json \<Rightarrow> pending_review \<Rightarrow> unit store_act" where
  "store_restore_claimed X J pending = (\<lambda>(st, w).
     let request_id = pr_request_id pending in
     if hm_contains request_id (reviews st) then (Err AlreadyPending, (st, w))
     else
       (case hm_get request_id (claimed_reviews st) of
          None \<Rightarrow> (Err ClaimedNotFound, (st, w))
        | Some claimed \<Rightarrow>
            let st1 = st\<lparr>claimed_reviews := hm_remove request_id (claimed_reviews st)\<rparr> in
            if claimed \<noteq> pending
            then (Err RestoreMismatch,
                  (st1\<lparr>claimed_reviews := hm_insert request_id claimed (claimed_reviews st1)\<rparr>, w))
            else
              (let st2 = st1\<lparr>reviews := hm_insert request_id pending (reviews st1)\<rparr> in
               case persist X J st2 w of
                 (Ok _, w1) \<Rightarrow> (Ok (), (st2, w1))
               | (Err error, w1) \<Rightarrow>
                   (Err (RestoreNotPersisted (failure_message error)),
                    (if is_before_commit error
                     then st2\<lparr>reviews := hm_remove request_id (reviews st2),
                              claimed_reviews := hm_insert request_id pending (claimed_reviews st2)\<rparr>
                     else st2, w1)))))"

definition store_consume_claimed ::
  "externals \<Rightarrow> store_json \<Rightarrow> uuid
   \<Rightarrow> (pending_review_store \<times> world, pending_review, consume_claimed_failure) act" where
  "store_consume_claimed X J request_id = (\<lambda>(st, w).
     (case hm_get request_id (claimed_reviews st) of
        None \<Rightarrow> (Err (NotCommitted ClaimedNotFound), (st, w))
      | Some claimed \<Rightarrow>
          let st1 = st\<lparr>claimed_reviews := hm_remove request_id (claimed_reviews st)\<rparr> in
          (case persist X J st1 w of
             (Ok _, w1) \<Rightarrow> (Ok claimed, (st1, w1))
           | (Err (BeforeCommit message), w1) \<Rightarrow>
               (Err (NotCommitted (ConsumeNotPersisted message)),
                (st1\<lparr>claimed_reviews := hm_insert request_id claimed (claimed_reviews st1)\<rparr>, w1))
           | (Err (AfterCommit message), w1) \<Rightarrow>
               (Err (DurabilityUncertain (ConsumeUncertain message)), (st1, w1)))))"


section \<open>Well-formed stores\<close>

definition keyed :: "(uuid, pending_review) hash_map \<Rightarrow> bool" where
  "keyed m \<longleftrightarrow> hm_wf m \<and> (\<forall>k p. map_of m k = Some p \<longrightarrow> pr_request_id p = k \<and> canonical p)"

definition store_ok :: "pending_review_store \<Rightarrow> bool" where
  "store_ok st \<longleftrightarrow>
     keyed (reviews st) \<and> keyed (claimed_reviews st) \<and>
     (\<forall>k. map_of (reviews st) k = None \<or> map_of (claimed_reviews st) k = None)"

text \<open>Two stores hold the same requests in the same states.\<close>

definition same_content :: "pending_review_store \<Rightarrow> pending_review_store \<Rightarrow> bool" where
  "same_content a b \<longleftrightarrow>
     map_of (reviews a) = map_of (reviews b) \<and> map_of (claimed_reviews a) = map_of (claimed_reviews b)"

lemma same_content_refl [simp]: "same_content a a"
  by (simp add: same_content_def)

lemma same_content_sym: "same_content a b \<Longrightarrow> same_content b a"
  by (simp add: same_content_def)

lemma same_content_trans: "same_content a b \<Longrightarrow> same_content b c \<Longrightarrow> same_content a c"
  by (simp add: same_content_def)

lemma keyed_Nil [simp]: "keyed []"
  by (simp add: keyed_def)

lemma keyed_insert:
  "keyed m \<Longrightarrow> canonical p \<Longrightarrow> pr_request_id p = k \<Longrightarrow> keyed (hm_insert k p m)"
  by (auto simp: keyed_def)

lemma keyed_remove: "keyed m \<Longrightarrow> keyed (hm_remove k m)"
  by (auto simp: keyed_def split: if_splits)

lemma store_ok_new [simp]: "store_ok new_store"
  by (simp add: store_ok_def new_store_def)

section \<open>Round trip\<close>

lemma persist_reviews_Ok_iff:
  "(\<exists>qs. persist_reviews s ps = Ok qs) \<longleftrightarrow> (\<forall>p\<in>set ps. \<exists>q. to_persisted p = Ok q)"
  by (induction ps) (auto simp: bind_result_eq_Ok)

text \<open>Loading what was persisted of canonical reviews inserts them one by one.\<close>

fun insert_all ::
  "persisted_review_status \<Rightarrow> pending_review list \<Rightarrow> pending_review_store \<Rightarrow> pending_review_store"
where
  "insert_all s [] st = st"
| "insert_all s (p # ps) st =
     insert_all s ps
       (case s of
          PendingStatus \<Rightarrow> st\<lparr>reviews := hm_insert (pr_request_id p) p (reviews st)\<rparr>
        | ClaimedStatus \<Rightarrow> st\<lparr>claimed_reviews := hm_insert (pr_request_id p) p (claimed_reviews st)\<rparr>)"

definition occupied :: "pending_review_store \<Rightarrow> uuid set" where
  "occupied st = dom (map_of (reviews st)) \<union> dom (map_of (claimed_reviews st))"

lemma load_persisted:
  assumes "persist_reviews s ps = Ok qs" and "\<forall>p\<in>set ps. canonical p"
    and "distinct (List.map pr_request_id ps)"
    and "set (List.map pr_request_id ps) \<inter> occupied st = {}"
  shows "load_reviews (qs @ rest) st = load_reviews rest (insert_all s ps st)"
  using assms
proof (induction ps arbitrary: qs st)
  case (Cons p ps)
  from Cons.prems(1) obtain q qs' where q: "to_persisted p = Ok q"
    and qs': "persist_reviews s ps = Ok qs'" and qs: "qs = q\<lparr>pp_status := s\<rparr> # qs'"
    by (auto simp: bind_result_eq_Ok)
  have reads: "of_persisted q = Ok p"
    using Cons.prems(2) q canonicalD by fastforce
  have free: "map_of (reviews st) (pr_request_id p) = None"
    "map_of (claimed_reviews st) (pr_request_id p) = None"
    using Cons.prems(4) by (auto simp: occupied_def)
  let ?st = "insert_all s [p] st"
  have "occupied ?st = insert (pr_request_id p) (occupied st)"
    by (auto simp: occupied_def split: persisted_review_status.splits if_splits)
  then have "set (List.map pr_request_id ps) \<inter> occupied ?st = {}"
    using Cons.prems(3,4) by auto
  then have "load_reviews (qs' @ rest) ?st = load_reviews rest (insert_all s ps ?st)"
    using Cons.IH [OF qs'] Cons.prems(2,3) by simp
  then show ?case
    using free reads by (cases s) (simp_all add: qs)
qed simp

lemma insert_all_content:
  assumes "distinct (List.map pr_request_id ps)"
  shows "map_of (reviews (insert_all s ps st)) =
           (if s = PendingStatus then map_of (reviews st) ++ map_of (List.map (\<lambda>p. (pr_request_id p, p)) ps)
            else map_of (reviews st)) \<and>
         map_of (claimed_reviews (insert_all s ps st)) =
           (if s = ClaimedStatus then map_of (claimed_reviews st) ++ map_of (List.map (\<lambda>p. (pr_request_id p, p)) ps)
            else map_of (claimed_reviews st)) \<and>
         persistence_path (insert_all s ps st) = persistence_path st \<and>
         persistence_parent (insert_all s ps st) = persistence_parent st"
  using assms
proof (induction ps arbitrary: st)
  case (Cons p ps)
  have swap: "m(pr_request_id p \<mapsto> p) ++ map_of (List.map (\<lambda>p. (pr_request_id p, p)) ps) =
      m ++ (map_of (List.map (\<lambda>p. (pr_request_id p, p)) ps))(pr_request_id p \<mapsto> p)"
    for m :: "uuid \<Rightarrow> pending_review option"
    using Cons.prems
    by (subst map_add_upd_left) (auto simp: dom_map_of_conv_image_fst image_iff)
  show ?case using Cons swap by (cases s) simp_all
qed simp

lemmas insert_all_maps =
  insert_all_content [THEN conjunct1]
  insert_all_content [THEN conjunct2, THEN conjunct1]
  insert_all_content [THEN conjunct2, THEN conjunct2, THEN conjunct1]
  insert_all_content [THEN conjunct2, THEN conjunct2, THEN conjunct2]

lemma keyed_ids:
  assumes "keyed m"
  shows "List.map pr_request_id (List.map snd m) = List.map fst m"
    and "List.map (\<lambda>p. (pr_request_id p, p)) (List.map snd m) = m"
    and "\<forall>p\<in>set (List.map snd m). canonical p"
proof -
  have "\<forall>(k, p)\<in>set m. pr_request_id p = k \<and> canonical p"
    using assms by (auto simp: keyed_def hm_wf_map_of_iff)
  then show "List.map pr_request_id (List.map snd m) = List.map fst m"
    and "List.map (\<lambda>p. (pr_request_id p, p)) (List.map snd m) = m"
    and "\<forall>p\<in>set (List.map snd m). canonical p"
    by (induction m) auto
qed

lemma serialize_state_total:
  assumes "store_ok st"
  shows "\<exists>state. ps_version state = state_version \<and>
     serialize_state J st = map_err SerializeState (sj_to_string_pretty J state)"
proof -
  have "\<exists>qs. persist_reviews s (List.map snd m) = Ok qs" if "keyed m" for s m
    unfolding persist_reviews_Ok_iff using keyed_ids(3) [OF that] canonicalD by blast
  then obtain a b where "persist_reviews PendingStatus (List.map snd (reviews st)) = Ok a"
    and "persist_reviews ClaimedStatus (List.map snd (claimed_reviews st)) = Ok b"
    using assms by (metis store_ok_def)
  then show ?thesis
    by (intro exI [where x = "\<lparr>ps_version = state_version, ps_reviews = a @ b\<rparr>"])
      (simp add: serialize_state_def)
qed

lemma serialize_round_trip:
  assumes "store_ok st" and "serialize_state J st = Ok text"
    and json: "\<And>s t. sj_to_string_pretty J s = Ok t \<Longrightarrow> sj_from_str J t = Ok s"
  shows "\<exists>st'. from_serialized_state J text = Ok st' \<and> same_content st' st \<and>
    persistence_path st' = None \<and> persistence_parent st' = None"
proof -
  from assms(2) obtain a b where
    a: "persist_reviews PendingStatus (List.map snd (reviews st)) = Ok a"
    and b: "persist_reviews ClaimedStatus (List.map snd (claimed_reviews st)) = Ok b"
    and encoded: "sj_to_string_pretty J \<lparr>ps_version = state_version, ps_reviews = a @ b\<rparr> = Ok text"
    by (auto simp: serialize_state_def bind_result_eq_Ok)
  have kr: "keyed (reviews st)" and kc: "keyed (claimed_reviews st)"
    using assms(1) by (simp_all add: store_ok_def)
  note pending = keyed_ids [OF kr] and claimed = keyed_ids [OF kc]
  have wf: "distinct (List.map fst (reviews st))" "distinct (List.map fst (claimed_reviews st))"
    using kr kc by (simp_all add: keyed_def hm_wf_def)
  have ids: "distinct (List.map pr_request_id (List.map snd (reviews st)))"
    "distinct (List.map pr_request_id (List.map snd (claimed_reviews st)))"
    using wf by (simp_all only: pending(1) claimed(1))
  let ?st1 = "insert_all PendingStatus (List.map snd (reviews st)) new_store"
  let ?st2 = "insert_all ClaimedStatus (List.map snd (claimed_reviews st)) ?st1"
  note at1 = insert_all_maps [OF ids(1), of PendingStatus new_store, unfolded pending(2)]
    and at2 = insert_all_maps [OF ids(2), of ClaimedStatus ?st1, unfolded claimed(2)]
  have maps1: "map_of (reviews ?st1) = map_of (reviews st)" "map_of (claimed_reviews ?st1) = Map.empty"
    using at1(1,2) by (simp_all add: new_store_def del: map_map)
  have free: "set (List.map pr_request_id (List.map snd (claimed_reviews st))) \<inter> occupied ?st1 = {}"
  proof -
    have apart: "k \<notin> dom (map_of (reviews st))" if "k \<in> fst ` set (claimed_reviews st)" for k
    proof -
      have "map_of (claimed_reviews st) k \<noteq> None"
        using that by (simp add: map_of_eq_None_iff)
      moreover have "map_of (reviews st) k = None \<or> map_of (claimed_reviews st) k = None"
        using assms(1) by (simp only: store_ok_def)
      ultimately have "map_of (reviews st) k = None" by (simp only: simp_thms)
      then show ?thesis by (simp only: domIff simp_thms)
    qed
    have "occupied ?st1 = dom (map_of (reviews st))"
      by (simp only: occupied_def maps1 dom_empty Un_empty_right)
    then show ?thesis
      using apart unfolding claimed(1) by auto
  qed
  have "load_reviews (a @ b) new_store = load_reviews b ?st1"
    using load_persisted [OF a pending(3) ids(1)]
    by (simp add: occupied_def new_store_def del: map_map)
  also have "\<dots> = Ok ?st2"
    using load_persisted [OF b claimed(3) ids(2) free, of "[]"] by simp
  finally have loaded: "from_serialized_state J text = Ok ?st2"
    using json [OF encoded] by (simp add: from_serialized_state_def)
  have "same_content ?st2 st" and "persistence_path ?st2 = None" and "persistence_parent ?st2 = None"
    using at1 at2 maps1 by (simp_all add: same_content_def new_store_def del: map_map)
  with loaded show ?thesis by blast
qed

end
