(* ===== verification/Persistence.thy ===== *)
theory Persistence
  imports PendingReview Samples
begin

text \<open>
  What a save of the review store does to the state file: a save either commits (the file holds the
  new state) or leaves the file as it was, and the two cases are the two constructors of
  \<open>persistence_failure\<close>.  A crash may bring a directory back as it was when it was last
  synced; whatever it does, the state file then holds an old state or the new one, never a torn one.
  The operations of the store keep the memory and the file in step.
\<close>

section \<open>One save and the file system\<close>

text \<open>Everything older than the save is as it was, except the entry of the temporary file.\<close>

definition uncommitted :: "nat \<Rightarrow> string \<Rightarrow> fsys \<Rightarrow> fsys \<Rightarrow> bool" where
  "uncommitted d tmp fs fs' \<longleftrightarrow>
     fs_wf fs' \<and> fs_fresh fs \<le> fs_fresh fs' \<and>
     (\<forall>n. n \<noteq> tmp \<longrightarrow> dir_lookup fs' d n = dir_lookup fs d n) \<and>
     (\<forall>j<fs_fresh fs. j \<noteq> d \<longrightarrow> fs_inodes fs' j = fs_inodes fs j) \<and>
     (\<forall>j<fs_fresh fs. fs_stable fs' j = fs_stable fs j)"

text \<open>
  The entry of the state file is a new inode that holds the text and is durable; the directory is
  durable too when \<open>synced\<close> says so.
\<close>

definition committed :: "nat \<Rightarrow> string \<Rightarrow> string \<Rightarrow> string \<Rightarrow> bool \<Rightarrow> fsys \<Rightarrow> fsys \<Rightarrow> bool" where
  "committed d tmp name body synced fs fs' \<longleftrightarrow>
     fs_wf fs' \<and> fs_fresh fs \<le> fs_fresh fs' \<and>
     (\<forall>n. n \<noteq> tmp \<longrightarrow> n \<noteq> name \<longrightarrow> dir_lookup fs' d n = dir_lookup fs d n) \<and>
     (\<exists>i\<ge>fs_fresh fs. i < fs_fresh fs' \<and> i \<noteq> d \<and> dir_lookup fs' d name = Some i \<and>
        file_content fs' i = Some body \<and> fs_stable fs' i = fs_inodes fs' i) \<and>
     (\<forall>j<fs_fresh fs. j \<noteq> d \<longrightarrow> fs_inodes fs' j = fs_inodes fs j \<and> fs_stable fs' j = fs_stable fs j) \<and>
     fs_stable fs' d = (if synced then fs_inodes fs' d else fs_stable fs d)"

text \<open>Between the two: the temporary file holds \<open>body\<close>.\<close>

definition staged :: "nat \<Rightarrow> string \<Rightarrow> nat \<Rightarrow> string \<Rightarrow> fsys \<Rightarrow> fsys \<Rightarrow> bool" where
  "staged d tmp i body fs fs' \<longleftrightarrow>
     uncommitted d tmp fs fs' \<and> fs_fresh fs \<le> i \<and> i < fs_fresh fs' \<and> d < fs_fresh fs \<and>
     dir_lookup fs' d tmp = Some i \<and> file_content fs' i = Some body"

lemma uncommitted_refl: "fs_wf fs \<Longrightarrow> uncommitted d tmp fs fs"
  by (simp add: uncommitted_def)

lemma uncommitted_trans:
  "uncommitted d tmp a b \<Longrightarrow> uncommitted d tmp b c \<Longrightarrow> uncommitted d tmp a c"
  unfolding uncommitted_def by (auto dest: less_le_trans order_trans)

lemma uncommitted_wf: "uncommitted d tmp fs fs' \<Longrightarrow> fs_wf fs'"
  by (simp add: uncommitted_def)

lemma fs_wf_dir_bound: "fs_wf fs \<Longrightarrow> dir_entries fs d \<noteq> None \<Longrightarrow> d < fs_fresh fs"
  unfolding fs_wf_def dir_entries_def by (metis not_le option.case(1))

lemma create_staged:
  assumes "fs_create_at d tmp mode fs = Ok (i, fs')" and "fs_wf fs"
  shows "staged d tmp i [] fs fs'"
proof -
  note c = fs_create_at_Ok [OF assms]
  have "fs_fresh fs' = Suc (fs_fresh fs)"
    using assms(1) by (auto simp: fs_create_at_def Let_def fs_simps split: option.splits if_splits)
  then show ?thesis
    using c fs_create_at_inodes [OF assms(1)] fs_wf_create_at [OF assms] fs_wf_dir_bound [OF assms(2) c(8)]
    by (auto simp: staged_def uncommitted_def)
qed

lemma staged_append:
  "staged d tmp i body fs fs' \<Longrightarrow> staged d tmp i (body @ extra) fs (fs_append i extra fs')"
  by (auto simp: staged_def uncommitted_def fs_simps)

lemma staged_sync:
  "staged d tmp i body fs fs' \<Longrightarrow>
   staged d tmp i body fs (fs_sync i fs') \<and> fs_stable (fs_sync i fs') i = fs_inodes (fs_sync i fs') i"
  by (auto simp: staged_def uncommitted_def fs_simps)

lemma uncommitted_unlink:
  assumes "uncommitted d tmp fs fs1" and "fs_unlink_at d tmp fs1 = Ok (u, fs')"
  shows "uncommitted d tmp fs fs'"
proof -
  have "fs_fresh fs' = fs_fresh fs1"
    using assms(2) by (auto simp: fs_unlink_at_def fs_simps split: option.splits if_splits)
  then show ?thesis
    using assms fs_unlink_at_Ok [OF assms(2)] fs_wf_unlink_at [OF assms(2)]
      fs_unlink_at_inodes [OF assms(2)]
    by (auto simp: uncommitted_def)
qed

lemma staged_rename:
  assumes "staged d tmp i body fs fs1" and "fs_stable fs1 i = fs_inodes fs1 i"
    and "fs_rename_at d tmp name fs1 = Ok (u, fs')" and "tmp \<noteq> name"
  shows "committed d tmp name body False fs fs'"
proof -
  have "fs_fresh fs' = fs_fresh fs1"
    using assms(3) by (auto simp: fs_rename_at_def fs_simps split: option.splits if_splits)
  moreover have "i \<noteq> d" using assms(1) by (auto simp: staged_def)
  ultimately show ?thesis
    using assms fs_rename_at_Ok [OF assms(3,4)] fs_wf_rename_at [OF assms(3)]
      fs_rename_at_inodes [OF assms(3)]
    unfolding committed_def staged_def uncommitted_def by auto
qed

lemma committed_sync:
  "committed d tmp name body False fs fs' \<Longrightarrow> committed d tmp name body True fs (fs_sync d fs')"
  unfolding committed_def by (fastforce simp: fs_simps)

lemma committed_unlink:
  assumes "committed d tmp name body False fs fs1" and "fs_unlink_at d tmp fs1 = Ok (u, fs')"
    and "tmp \<noteq> name"
  shows "committed d tmp name body False fs fs'"
proof -
  have "fs_fresh fs' = fs_fresh fs1"
    using assms(2) by (auto simp: fs_unlink_at_def fs_simps split: option.splits if_splits)
  then show ?thesis
    using assms fs_unlink_at_Ok [OF assms(2)] fs_wf_unlink_at [OF assms(2)]
      fs_unlink_at_inodes [OF assms(2)]
    unfolding committed_def by auto
qed

section \<open>The outcome of a save\<close>

definition save_outcome ::
  "nat \<Rightarrow> string \<Rightarrow> string \<Rightarrow> string \<Rightarrow> (unit, persistence_failure) result \<Rightarrow> fsys \<Rightarrow> fsys \<Rightarrow> bool"
where
  "save_outcome d tmp name body r fs fs' \<longleftrightarrow>
     (case r of
        Ok _ \<Rightarrow> committed d tmp name body True fs fs'
      | Err (BeforeCommit _) \<Rightarrow> uncommitted d tmp fs fs'
      | Err (AfterCommit _) \<Rightarrow> committed d tmp name body False fs fs')"

lemmas save_step_OkDs = sys_update_OkD sys_write_all_OkD sys_sync_OkD
lemmas save_step_ErrDs = sys_update_ErrD sys_write_all_ErrD sys_sync_ErrD

lemma save_closure_outcome:
  assumes "save_closure d tmp name body w = (r, w')" and "fs_wf (w_fs w)" and "tmp \<noteq> name"
  shows "save_outcome d tmp name body r (w_fs w) (w_fs w')"
  using assms(1) unfolding save_closure_def
proof (cases rule: and_then_cases)
  case (1 e)
  then show ?thesis
    using assms(2)
    by (auto simp: save_outcome_def uncommitted_refl elim!: with_err_cases dest!: save_step_ErrDs)
next
  case (2 i w1)
  then have st1: "staged d tmp i [] (w_fs w) (w_fs w1)"
    using assms(2) by (auto simp: with_err_eq_Ok dest!: sys_update_OkD create_staged)
  from 2(2) show ?thesis
  proof (cases rule: and_then_cases)
    case (1 e)
    then obtain k where "w_fs w' = fs_append i (take k body) (w_fs w1)" and "\<exists>x. e = BeforeCommit x"
      by (auto elim!: with_err_cases dest!: sys_write_all_ErrD)
    then show ?thesis
      using staged_append [OF st1] 1(2) by (auto simp: save_outcome_def staged_def)
  next
    case (2 u w2)
    then have st2: "staged d tmp i body (w_fs w) (w_fs w2)"
      using staged_append [OF st1, of body] by (auto simp: with_err_eq_Ok dest!: sys_write_all_OkD)
    from 2(2) show ?thesis
    proof (cases rule: and_then_cases)
      case (1 e)
      then show ?thesis
        using st2 by (auto simp: save_outcome_def staged_def elim!: with_err_cases dest!: save_step_ErrDs)
    next
      case (2 u' w3)
      then have st3: "staged d tmp i body (w_fs w) (w_fs w3) \<and> fs_stable (w_fs w3) i = fs_inodes (w_fs w3) i"
        using staged_sync [OF st2] by (auto simp: with_err_eq_Ok dest!: sys_sync_OkD)
      from 2(2) show ?thesis
      proof (cases rule: and_then_cases)
        case (1 e)
        then show ?thesis
          using st3 by (auto simp: save_outcome_def staged_def elim!: with_err_cases dest!: save_step_ErrDs)
      next
        case (2 u'' w4)
        then have "committed d tmp name body False (w_fs w) (w_fs w4)"
          using st3 assms(3) by (auto simp: with_err_eq_Ok dest!: sys_update_OkD intro: staged_rename)
        then show ?thesis
          using 2(2) committed_sync
          by (auto simp: save_outcome_def elim!: with_err_cases dest!: sys_sync_OkD sys_sync_ErrD)
      qed
    qed
  qed
qed

lemma save_outcome_cleanup:
  assumes "save_outcome d tmp name body (Err e) fs (w_fs w)" and "tmp \<noteq> name"
  shows "save_outcome d tmp name body (Err e) fs
    (w_fs (ignore_err (sys_update (fs_unlink_at d tmp)) w))"
proof (cases "sys_update (fs_unlink_at d tmp) w")
  case (Pair r w')
  then show ?thesis
    using assms
    by (cases r; cases e)
      (auto simp: ignore_err_def save_outcome_def dest!: sys_update_OkD sys_update_ErrD
        intro: uncommitted_unlink committed_unlink)
qed

lemma w_fs_new_uuid: "new_uuid w = (u, w') \<Longrightarrow> w_fs w' = w_fs w"
  by (auto simp: new_uuid_def)

lemma save_to_anchored_outcome:
  assumes "save_to_anchored_path_classified X J st path d w = (r, w')"
    and "serialize_state J st = Ok body" and "path_file_name path = Some name"
    and "\<not> prefix temporary_state_prefix name" and "fs_wf (w_fs w)"
  shows "\<exists>u. save_outcome d (temporary_state_name X u) name body r (w_fs w) (w_fs w')"
proof -
  obtain u w1 where u: "new_uuid w = (u, w1)" by fastforce
  note fs1 = w_fs_new_uuid [OF u]
  have apart: "temporary_state_name X u \<noteq> name"
    using assms(4) by (auto simp: temporary_state_name_def)
  obtain r2 w2 where s: "save_closure d (temporary_state_name X u) name body w1 = (r2, w2)" by fastforce
  have out: "save_outcome d (temporary_state_name X u) name body r2 (w_fs w) (w_fs w2)"
    using save_closure_outcome [OF s _ apart] assms(5) fs1 by simp
  show ?thesis
    using assms(1-3,5) u s fs1 out save_outcome_cleanup [OF _ apart]
    by (intro exI [where x = u])
      (auto simp: save_to_anchored_path_classified_def Let_def save_outcome_def uncommitted_refl
        split: if_splits result.splits)
qed

section \<open>Crashes\<close>

text \<open>
  A crash keeps the durable inodes and may lose any other.  For each entry of a directory it keeps
  either the present binding or the one of the last sync.  \<open>stable_lookup\<close> reads the latter.
\<close>

definition stable_lookup :: "fsys \<Rightarrow> nat \<Rightarrow> string \<Rightarrow> nat option" where
  "stable_lookup fs d n = dir_lookup (fs\<lparr>fs_inodes := fs_stable fs\<rparr>) d n"

definition crash_to :: "fsys \<Rightarrow> fsys \<Rightarrow> bool" where
  "crash_to fs fs' \<longleftrightarrow>
     (\<forall>d n. dir_lookup fs' d n = dir_lookup fs d n \<or> dir_lookup fs' d n = stable_lookup fs d n) \<and>
     (\<forall>i. fs_stable fs i = fs_inodes fs i \<longrightarrow> file_content fs' i = file_content fs i)"

definition state_text :: "fsys \<Rightarrow> nat \<Rightarrow> string \<Rightarrow> string option" where
  "state_text fs d name = Option.bind (dir_lookup fs d name) (file_content fs)"

definition stable_text :: "fsys \<Rightarrow> nat \<Rightarrow> string \<Rightarrow> string option" where
  "stable_text fs d name = Option.bind (stable_lookup fs d name) (file_content fs)"

text \<open>Whichever binding of the state file survives, its bytes are durable.\<close>

definition recoverable :: "fsys \<Rightarrow> nat \<Rightarrow> string \<Rightarrow> bool" where
  "recoverable fs d name \<longleftrightarrow>
     fs_wf fs \<and>
     (\<forall>i. dir_lookup fs d name = Some i \<or> stable_lookup fs d name = Some i \<longrightarrow>
        i < fs_fresh fs \<and> i \<noteq> d \<and> fs_stable fs i = fs_inodes fs i)"

lemma option_bind_eqI: "(\<And>i. m = Some i \<Longrightarrow> f i = g i) \<Longrightarrow> Option.bind m f = Option.bind m g"
  by (cases m) simp_all

lemma crash_state_text:
  assumes "recoverable fs d name" and "crash_to fs fs'"
  shows "state_text fs' d name = state_text fs d name \<or> state_text fs' d name = stable_text fs d name"
proof -
  have "dir_lookup fs' d name = dir_lookup fs d name \<or> dir_lookup fs' d name = stable_lookup fs d name"
    and "\<And>i. fs_stable fs i = fs_inodes fs i \<Longrightarrow> file_content fs' i = file_content fs i"
    using assms(2) by (auto simp: crash_to_def)
  then show ?thesis
    using assms(1) unfolding recoverable_def state_text_def stable_text_def
    by (elim disjE) (auto intro!: option_bind_eqI)
qed

lemma stable_lookup_cong: "fs_stable fs' d = fs_stable fs d \<Longrightarrow> stable_lookup fs' d n = stable_lookup fs d n"
  by (simp add: stable_lookup_def dir_lookup_def dir_entries_def)

lemma stable_lookup_synced: "fs_stable fs d = fs_inodes fs d \<Longrightarrow> stable_lookup fs d n = dir_lookup fs d n"
  by (simp add: stable_lookup_def dir_lookup_def dir_entries_def)

lemma file_content_cong: "fs_inodes fs' i = fs_inodes fs i \<Longrightarrow> file_content fs' i = file_content fs i"
  by (simp add: file_content_def)

text \<open>The text a save leaves, and the text a crash may bring back.\<close>

lemma uncommitted_texts:
  assumes "uncommitted d tmp fs fs'" and "recoverable fs d name" and "tmp \<noteq> name" and "d < fs_fresh fs"
  shows "state_text fs' d name = state_text fs d name" and "stable_text fs' d name = stable_text fs d name"
    and "recoverable fs' d name"
proof -
  have l: "dir_lookup fs' d name = dir_lookup fs d name" and
    sl: "stable_lookup fs' d name = stable_lookup fs d name"
    using assms by (auto simp: uncommitted_def intro: stable_lookup_cong)
  have i: "fs_inodes fs' i = fs_inodes fs i \<and> fs_stable fs' i = fs_stable fs i \<and> i < fs_fresh fs'"
    if "dir_lookup fs d name = Some i \<or> stable_lookup fs d name = Some i" for i
    using assms(1,2) that by (auto simp: uncommitted_def recoverable_def)
  show "state_text fs' d name = state_text fs d name" "stable_text fs' d name = stable_text fs d name"
    using l sl i by (auto simp: state_text_def stable_text_def intro!: option_bind_eqI file_content_cong)
  show "recoverable fs' d name"
    using assms(1,2) l sl i by (auto simp: recoverable_def uncommitted_def)
qed

lemma committed_texts:
  assumes "committed d tmp name body synced fs fs'" and "recoverable fs d name" and "d < fs_fresh fs"
  shows "state_text fs' d name = Some body"
    and "stable_text fs' d name = (if synced then Some body else stable_text fs d name)"
    and "recoverable fs' d name"
proof -
  obtain i where i: "i < fs_fresh fs'" "i \<noteq> d" "dir_lookup fs' d name = Some i"
    "file_content fs' i = Some body" "fs_stable fs' i = fs_inodes fs' i"
    using assms(1) by (auto simp: committed_def)
  have sl: "stable_lookup fs' d name = (if synced then Some i else stable_lookup fs d name)"
    using assms(1) i(3) by (auto simp: committed_def stable_lookup_synced intro: stable_lookup_cong)
  have old: "fs_inodes fs' j = fs_inodes fs j \<and> fs_stable fs' j = fs_stable fs j \<and> j < fs_fresh fs' \<and> j \<noteq> d \<and> fs_stable fs j = fs_inodes fs j"
    if "stable_lookup fs d name = Some j" for j
    using assms(1,2) that by (auto simp: committed_def recoverable_def)
  show "state_text fs' d name = Some body" using i by (simp add: state_text_def)
  show "stable_text fs' d name = (if synced then Some body else stable_text fs d name)"
    using sl i old by (auto simp: stable_text_def intro!: option_bind_eqI file_content_cong)
  show "recoverable fs' d name"
    using assms(1) i sl old by (auto simp: recoverable_def committed_def split: if_splits)
qed

lemma save_outcome_texts:
  assumes "save_outcome d tmp name body r fs fs'" and "recoverable fs d name" and "tmp \<noteq> name"
    and "d < fs_fresh fs"
  shows "recoverable fs' d name"
    and "r = Ok u \<Longrightarrow> state_text fs' d name = Some body \<and> stable_text fs' d name = Some body"
    and "r = Err (AfterCommit e) \<Longrightarrow>
      state_text fs' d name = Some body \<and> stable_text fs' d name = stable_text fs d name"
    and "r = Err (BeforeCommit e) \<Longrightarrow>
      state_text fs' d name = state_text fs d name \<and> stable_text fs' d name = stable_text fs d name"
  using assms uncommitted_texts committed_texts
  by (auto simp: save_outcome_def split: result.splits persistence_failure.splits)

section \<open>The store as a map of phases\<close>

text \<open>
  The contract of the store: a request identifier is absent, pending or claimed, and each operation
  makes one move.  A failed operation makes no move, or makes it although it reports failure (the
  rename had happened and the directory sync failed).
\<close>

datatype review_phase = Absent | Pending pending_review | Claimed pending_review

definition phase :: "pending_review_store \<Rightarrow> uuid \<Rightarrow> review_phase" where
  "phase st k =
     (case map_of (claimed_reviews st) k of
        Some p \<Rightarrow> Claimed p
      | None \<Rightarrow> (case map_of (reviews st) k of Some p \<Rightarrow> Pending p | None \<Rightarrow> Absent))"

datatype store_move =
    MoveInsert pending_review
  | MoveClaim pending_review
  | MoveRestore pending_review
  | MoveConsume pending_review

fun move_from :: "store_move \<Rightarrow> review_phase" where
  "move_from (MoveInsert p) = Absent"
| "move_from (MoveClaim p) = Pending p"
| "move_from (MoveRestore p) = Claimed p"
| "move_from (MoveConsume p) = Claimed p"

fun move_to :: "store_move \<Rightarrow> review_phase" where
  "move_to (MoveInsert p) = Pending p"
| "move_to (MoveClaim p) = Claimed p"
| "move_to (MoveRestore p) = Pending p"
| "move_to (MoveConsume p) = Absent"

fun move_review :: "store_move \<Rightarrow> pending_review" where
  "move_review (MoveInsert p) = p"
| "move_review (MoveClaim p) = p"
| "move_review (MoveRestore p) = p"
| "move_review (MoveConsume p) = p"

definition move_id :: "store_move \<Rightarrow> uuid" where
  "move_id m = pr_request_id (move_review m)"

definition moved :: "store_move \<Rightarrow> (uuid \<Rightarrow> review_phase) \<Rightarrow> (uuid \<Rightarrow> review_phase) \<Rightarrow> bool" where
  "moved m f g \<longleftrightarrow> f (move_id m) = move_from m \<and> g = f(move_id m := move_to m)"

lemma phase_cases:
  assumes "store_ok st"
  shows "phase st k = Pending p \<longleftrightarrow> map_of (reviews st) k = Some p"
    and "phase st k = Claimed p \<longleftrightarrow> map_of (claimed_reviews st) k = Some p"
    and "phase st k = Absent \<longleftrightarrow> map_of (reviews st) k = None \<and> map_of (claimed_reviews st) k = None"
proof -
  have "map_of (reviews st) k = None \<or> map_of (claimed_reviews st) k = None"
    using assms by (simp only: store_ok_def)
  then show "phase st k = Pending p \<longleftrightarrow> map_of (reviews st) k = Some p"
    and "phase st k = Claimed p \<longleftrightarrow> map_of (claimed_reviews st) k = Some p"
    and "phase st k = Absent \<longleftrightarrow> map_of (reviews st) k = None \<and> map_of (claimed_reviews st) k = None"
    by (auto simp: phase_def split: option.splits)
qed

lemma phase_content: "same_content a b \<Longrightarrow> phase a = phase b"
  by (rule ext) (simp add: phase_def same_content_def split: option.splits)

lemma phase_new [simp]: "phase new_store k = Absent"
  by (simp add: phase_def new_store_def)

text \<open>The stores the operations build, in one place.\<close>

definition apply_move :: "store_move \<Rightarrow> pending_review_store \<Rightarrow> pending_review_store" where
  "apply_move m st =
     (let k = move_id m in
      case m of
        MoveInsert p \<Rightarrow> st\<lparr>reviews := hm_insert k p (reviews st)\<rparr>
      | MoveClaim p \<Rightarrow> st\<lparr>reviews := hm_remove k (reviews st),
                         claimed_reviews := hm_insert k p (claimed_reviews st)\<rparr>
      | MoveRestore p \<Rightarrow> st\<lparr>claimed_reviews := hm_remove k (claimed_reviews st),
                           reviews := hm_insert k p (reviews st)\<rparr>
      | MoveConsume p \<Rightarrow> st\<lparr>claimed_reviews := hm_remove k (claimed_reviews st)\<rparr>)"

lemma apply_move_anchor [simp]:
  "persistence_path (apply_move m st) = persistence_path st"
  "persistence_parent (apply_move m st) = persistence_parent st"
  by (simp_all add: apply_move_def Let_def split: store_move.splits)

lemma store_okI:
  assumes "keyed (reviews st)" and "keyed (claimed_reviews st)"
    and "\<And>k p. map_of (reviews st) k = Some p \<Longrightarrow> map_of (claimed_reviews st) k = None"
  shows "store_ok st"
  unfolding store_ok_def using assms by (metis not_None_eq)

lemma store_ok_exclusive:
  "store_ok st \<Longrightarrow> map_of (reviews st) k = Some p \<Longrightarrow> map_of (claimed_reviews st) k = None"
  unfolding store_ok_def by (metis option.distinct(1))

lemma store_ok_keyed: "store_ok st \<Longrightarrow> keyed (reviews st) \<and> keyed (claimed_reviews st)"
  by (simp only: store_ok_def)

lemma keyed_entry: "keyed m \<Longrightarrow> map_of m k = Some p \<Longrightarrow> pr_request_id p = k \<and> canonical p"
  by (simp add: keyed_def)

lemma apply_move_ok:
  assumes "store_ok st" and "phase st (move_id m) = move_from m" and "canonical (move_review m)"
  shows "store_ok (apply_move m st) \<and> moved m (phase st) (phase (apply_move m st))"
proof -
  note ph = phase_cases [OF assms(1)] and ex = store_ok_exclusive [OF assms(1)]
  note ks = store_ok_keyed [OF assms(1)]
  have ok: "store_ok (apply_move m st)"
  proof (rule store_okI)
    show "keyed (reviews (apply_move m st))" "keyed (claimed_reviews (apply_move m st))"
      using ks assms(3)
      by (cases m; simp add: apply_move_def Let_def move_id_def keyed_insert keyed_remove)+
    show "map_of (claimed_reviews (apply_move m st)) k = None"
      if "map_of (reviews (apply_move m st)) k = Some p" for k p
      using that ex [of k] assms(2) ph [of "move_id m"]
      by (cases m) (auto simp: apply_move_def Let_def split: if_splits)
  qed
  moreover have "phase (apply_move m st) = (phase st)(move_id m := move_to m)"
    using assms(2) ph [of "move_id m"] ex [of "move_id m"]
    by (intro ext; cases m) (auto simp: phase_def apply_move_def Let_def split: option.splits)
  ultimately show ?thesis
    using assms(2) by (simp add: moved_def)
qed

section \<open>What an operation does\<close>

definition same_anchor :: "pending_review_store \<Rightarrow> pending_review_store \<Rightarrow> bool" where
  "same_anchor a b \<longleftrightarrow> persistence_path a = persistence_path b \<and> persistence_parent a = persistence_parent b"

text \<open>
  The operation built the moved store and tried to save it.  It keeps the moved store when the save
  committed, whether or not it reports success, and puts the old content back otherwise.
\<close>

definition attempted ::
  "externals \<Rightarrow> store_json \<Rightarrow> store_move \<Rightarrow> bool \<Rightarrow> pending_review_store \<Rightarrow> world
   \<Rightarrow> pending_review_store \<Rightarrow> world \<Rightarrow> bool"
where
  "attempted X J m failed st w st' w' \<longleftrightarrow>
     phase st (move_id m) = move_from m \<and> canonical (move_review m) \<and>
     store_ok st' \<and> same_anchor st' st \<and>
     (\<exists>pr. persist X J (apply_move m st) w = (pr, w') \<and>
        (case pr of
           Ok _ \<Rightarrow> \<not> failed \<and> st' = apply_move m st
         | Err (AfterCommit _) \<Rightarrow> failed \<and> st' = apply_move m st
         | Err (BeforeCommit _) \<Rightarrow> failed \<and> same_content st' st))"

definition refused :: "bool \<Rightarrow> pending_review_store \<Rightarrow> world \<Rightarrow> pending_review_store \<Rightarrow> world \<Rightarrow> bool" where
  "refused failed st w st' w' \<longleftrightarrow>
     failed \<and> same_content st' st \<and> store_ok st' \<and> same_anchor st' st \<and> w' = w"

lemma same_anchor_apply_move [simp]: "same_anchor (apply_move m st) st"
  by (simp add: same_anchor_def)

lemma attempted_move:
  assumes "attempted X J m failed st w st' w'" and "store_ok st"
  shows "moved m (phase st) (phase st') \<or> failed \<and> phase st' = phase st"
    and "\<not> failed \<Longrightarrow> moved m (phase st) (phase st')"
proof -
  have "moved m (phase st) (phase (apply_move m st))"
    using apply_move_ok [OF assms(2)] assms(1) by (simp add: attempted_def)
  moreover obtain pr where "case pr of
      Ok (_ :: unit) \<Rightarrow> \<not> failed \<and> st' = apply_move m st
    | Err (AfterCommit _) \<Rightarrow> failed \<and> st' = apply_move m st
    | Err (BeforeCommit _) \<Rightarrow> failed \<and> same_content st' st"
    using assms(1) unfolding attempted_def by blast
  ultimately show "moved m (phase st) (phase st') \<or> failed \<and> phase st' = phase st"
    and "\<not> failed \<Longrightarrow> moved m (phase st) (phase st')"
    by (auto dest: phase_content split: result.splits persistence_failure.splits)
qed

lemma store_insert_outcome:
  assumes "store_insert X J p (st, w) = (r, (st', w'))" and "store_ok st" and "canonical p"
    and "map_of (claimed_reviews st) (pr_request_id p) = None"
  shows "if map_of (reviews st) (pr_request_id p) \<noteq> None
         then r = Err AlreadyPending \<and> refused (is_err r) st w st' w'
         else attempted X J (MoveInsert p) (is_err r) st w st' w'"
proof (cases "map_of (reviews st) (pr_request_id p)")
  case (Some q)
  then show ?thesis
    using assms(1,2) by (auto simp: store_insert_def refused_def same_anchor_def)
next
  case None
  let ?m = "MoveInsert p"
  have ph: "phase st (move_id ?m) = move_from ?m"
    using None assms(4) by (simp add: phase_def move_id_def)
  have m: "apply_move ?m st = st\<lparr>reviews := hm_insert (pr_request_id p) p (reviews st)\<rparr>"
    by (simp add: apply_move_def move_id_def Let_def)
  obtain pr w2 where pr: "persist X J (apply_move ?m st) w = (pr, w2)" by fastforce
  have ok: "store_ok (apply_move ?m st)"
    using apply_move_ok [OF assms(2) ph] assms(3) by simp
  let ?old = "st\<lparr>reviews := hm_remove (pr_request_id p) (hm_insert (pr_request_id p) p (reviews st))\<rparr>"
  have restored: "same_content ?old st" and restored_ok: "store_ok ?old"
    using None store_ok_keyed [OF assms(2)] store_ok_exclusive [OF assms(2)] assms(3)
    by (auto simp: same_content_def intro!: store_okI keyed_remove keyed_insert split: if_splits)
  show ?thesis
    using None assms(1,3) pr ph ok restored restored_ok
    by (auto simp: store_insert_def Let_def m attempted_def same_anchor_def
        split: result.splits persistence_failure.splits)
qed

lemma store_claim_outcome:
  assumes "store_claim X J k (st, w) = (r, (st', w'))" and "store_ok st"
  shows "case phase st k of
           Absent \<Rightarrow> r = Err PendingNotFound \<and> refused (is_err r) st w st' w'
         | Claimed _ \<Rightarrow> r = Err AlreadyClaimed \<and> refused (is_err r) st w st' w'
         | Pending p \<Rightarrow> pr_request_id p = k \<and> (\<forall>q. r = Ok q \<longrightarrow> q = p) \<and>
             attempted X J (MoveClaim p) (is_err r) st w st' w'"
proof (cases "phase st k")
  case Absent
  then show ?thesis
    using assms phase_cases [OF assms(2), of k]
    by (auto simp: store_claim_def refused_def same_anchor_def)
next
  case (Claimed p)
  moreover from Claimed have "map_of (claimed_reviews st) k = Some p"
    using phase_cases [OF assms(2), of k] by simp
  ultimately show ?thesis
    using assms by (auto simp: store_claim_def refused_def same_anchor_def)
next
  case (Pending p)
  then have found: "map_of (reviews st) k = Some p"
    using phase_cases [OF assms(2), of k] by simp
  have free: "map_of (claimed_reviews st) k = None"
    using store_ok_exclusive [OF assms(2) found] .
  have id: "pr_request_id p = k" "canonical p"
    using keyed_entry [OF _ found] store_ok_keyed [OF assms(2)] by auto
  let ?m = "MoveClaim p"
  have ph: "phase st (move_id ?m) = move_from ?m"
    using Pending id by (simp add: move_id_def)
  have m: "apply_move ?m st = st\<lparr>reviews := hm_remove k (reviews st),
      claimed_reviews := hm_insert k p (claimed_reviews st)\<rparr>"
    using id by (simp add: apply_move_def move_id_def Let_def)
  obtain pr w2 where pr: "persist X J (apply_move ?m st) w = (pr, w2)" by fastforce
  have ok: "store_ok (apply_move ?m st)"
    using apply_move_ok [OF assms(2) ph] id by simp
  let ?old = "st\<lparr>claimed_reviews := hm_remove k (hm_insert k p (claimed_reviews st)),
      reviews := hm_insert k p (hm_remove k (reviews st))\<rparr>"
  have restored: "same_content ?old st" and restored_ok: "store_ok ?old"
    using found free id store_ok_keyed [OF assms(2)] store_ok_exclusive [OF assms(2)]
    by (auto simp: same_content_def intro!: store_okI keyed_remove keyed_insert split: if_splits)
  show ?thesis
    using Pending found free id assms(1) pr ph ok restored restored_ok
    by (auto simp: store_claim_def Let_def m attempted_def same_anchor_def
        split: result.splits persistence_failure.splits)
qed

lemma store_restore_outcome:
  assumes "store_restore_claimed X J p (st, w) = (r, (st', w'))" and "store_ok st"
  shows "if phase st (pr_request_id p) = Claimed p
         then attempted X J (MoveRestore p) (is_err r) st w st' w'
         else refused (is_err r) st w st' w'"
proof (cases "phase st (pr_request_id p) = Claimed p")
  case True
  let ?k = "pr_request_id p" and ?m = "MoveRestore p"
  have found: "map_of (claimed_reviews st) ?k = Some p"
    using True phase_cases [OF assms(2), of ?k] by simp
  then have free: "map_of (reviews st) ?k = None"
    using store_ok_exclusive [OF assms(2), of ?k] by (cases "map_of (reviews st) ?k") auto
  have id: "canonical p"
    using keyed_entry [OF _ found] store_ok_keyed [OF assms(2)] by auto
  have ph: "phase st (move_id ?m) = move_from ?m"
    using True by (simp add: move_id_def)
  have m: "apply_move ?m st = st\<lparr>claimed_reviews := hm_remove ?k (claimed_reviews st),
      reviews := hm_insert ?k p (reviews st)\<rparr>"
    by (simp add: apply_move_def move_id_def Let_def)
  obtain pr w2 where pr: "persist X J (apply_move ?m st) w = (pr, w2)" by fastforce
  have ok: "store_ok (apply_move ?m st)"
    using apply_move_ok [OF assms(2) ph] id by simp
  let ?old = "st\<lparr>reviews := hm_remove ?k (hm_insert ?k p (reviews st)),
      claimed_reviews := hm_insert ?k p (hm_remove ?k (claimed_reviews st))\<rparr>"
  have restored: "same_content ?old st" and restored_ok: "store_ok ?old"
    using found free id store_ok_keyed [OF assms(2)] store_ok_exclusive [OF assms(2)]
    by (auto simp: same_content_def intro!: store_okI keyed_remove keyed_insert split: if_splits)
  show ?thesis
    using True found free id assms(1) pr ph ok restored restored_ok
    by (auto simp: store_restore_claimed_def Let_def m attempted_def same_anchor_def
        split: result.splits persistence_failure.splits)
next
  case False
  let ?k = "pr_request_id p"
  have "store_ok (st\<lparr>claimed_reviews := hm_insert ?k q (hm_remove ?k (claimed_reviews st))\<rparr>) \<and>
      same_content (st\<lparr>claimed_reviews := hm_insert ?k q (hm_remove ?k (claimed_reviews st))\<rparr>) st"
    if "map_of (claimed_reviews st) ?k = Some q" for q
    using that store_ok_keyed [OF assms(2)] store_ok_exclusive [OF assms(2)]
      keyed_entry [OF _ that]
    by (auto simp: same_content_def intro!: store_okI keyed_remove keyed_insert split: if_splits)
  then show ?thesis
    using False assms phase_cases [OF assms(2), of ?k]
    by (auto simp: store_restore_claimed_def Let_def refused_def same_anchor_def
        split: if_splits option.splits)
qed

lemma store_consume_outcome:
  assumes "store_consume_claimed X J k (st, w) = (r, (st', w'))" and "store_ok st"
  shows "case phase st k of
           Claimed p \<Rightarrow> pr_request_id p = k \<and> (\<forall>q. r = Ok q \<longrightarrow> q = p) \<and>
             attempted X J (MoveConsume p) (is_err r) st w st' w' \<and>
             (\<forall>e. r = Err (DurabilityUncertain e) \<longrightarrow> phase st' k = Absent) \<and>
             (\<forall>e. r = Err (NotCommitted e) \<longrightarrow> phase st' k = Claimed p)
         | _ \<Rightarrow> r = Err (NotCommitted ClaimedNotFound) \<and> refused (is_err r) st w st' w'"
proof (cases "map_of (claimed_reviews st) k")
  case None
  then show ?thesis
    using assms phase_cases [OF assms(2), of k]
    by (auto simp: store_consume_claimed_def refused_def same_anchor_def split: review_phase.splits)
next
  case (Some p)
  let ?m = "MoveConsume p"
  have free: "map_of (reviews st) k = None"
    using Some store_ok_exclusive [OF assms(2), of k] by (cases "map_of (reviews st) k") auto
  have claimed: "phase st k = Claimed p"
    using Some by (simp add: phase_def)
  have id: "pr_request_id p = k" "canonical p"
    using keyed_entry [OF _ Some] store_ok_keyed [OF assms(2)] by auto
  have ph: "phase st (move_id ?m) = move_from ?m"
    using claimed id by (simp add: move_id_def)
  have m: "apply_move ?m st = st\<lparr>claimed_reviews := hm_remove k (claimed_reviews st)\<rparr>"
    using id by (simp add: apply_move_def move_id_def Let_def)
  obtain pr w2 where pr: "persist X J (apply_move ?m st) w = (pr, w2)" by fastforce
  have ok: "store_ok (apply_move ?m st)"
    using apply_move_ok [OF assms(2) ph] id by simp
  let ?old = "st\<lparr>claimed_reviews := hm_insert k p (hm_remove k (claimed_reviews st))\<rparr>"
  have restored: "same_content ?old st" and restored_ok: "store_ok ?old"
    using Some free id store_ok_keyed [OF assms(2)] store_ok_exclusive [OF assms(2)]
    by (auto simp: same_content_def intro!: store_okI keyed_remove keyed_insert split: if_splits)
  show ?thesis
    using Some claimed free id assms(1) pr ph ok restored restored_ok phase_content [OF restored]
    by (auto simp: store_consume_claimed_def Let_def m attempted_def same_anchor_def phase_def
        split: result.splits persistence_failure.splits)
qed

section \<open>Memory and file in step\<close>

text \<open>The JSON crate reads back what it wrote.\<close>

definition json_round_trip :: "store_json \<Rightarrow> bool" where
  "json_round_trip J \<longleftrightarrow> (\<forall>s t. sj_to_string_pretty J s = Ok t \<longrightarrow> sj_from_str J t = Ok s)"

text \<open>The text (or its absence) that a start of the gateway would load as this store.\<close>

definition text_holds :: "store_json \<Rightarrow> string option \<Rightarrow> pending_review_store \<Rightarrow> bool" where
  "text_holds J txt st \<longleftrightarrow>
     (case txt of
        None \<Rightarrow> same_content st new_store
      | Some t \<Rightarrow> (\<exists>st'. from_serialized_state J t = Ok st' \<and> same_content st' st))"

definition anchored_at :: "nat \<Rightarrow> string \<Rightarrow> pending_review_store \<Rightarrow> fsys \<Rightarrow> bool" where
  "anchored_at d name st fs \<longleftrightarrow>
     recoverable fs d name \<and> d < fs_fresh fs \<and> \<not> prefix temporary_state_prefix name \<and>
     persistence_parent st = Some d \<and>
     (\<exists>path. persistence_path st = Some path \<and> path_file_name path = Some name)"

definition in_step :: "store_json \<Rightarrow> nat \<Rightarrow> string \<Rightarrow> pending_review_store \<Rightarrow> fsys \<Rightarrow> bool" where
  "in_step J d name st fs \<longleftrightarrow>
     store_ok st \<and> anchored_at d name st fs \<and> text_holds J (state_text fs d name) st"

lemma text_holds_content: "text_holds J txt a \<Longrightarrow> same_content b a \<Longrightarrow> text_holds J txt b"
  unfolding text_holds_def
  by (auto split: option.splits intro: same_content_trans same_content_sym)

lemma text_holds_serialized:
  "json_round_trip J \<Longrightarrow> store_ok st \<Longrightarrow> serialize_state J st = Ok body \<Longrightarrow> text_holds J (Some body) st"
  using serialize_round_trip [of st J body] by (auto simp: text_holds_def json_round_trip_def)

text \<open>One save, whatever faults occur: where the file and its durable copy then stand.\<close>

lemma persist_texts:
  assumes "persist X J st w = (r, w')" and "anchored_at d name st (w_fs w)"
    and "serialize_state J st = Ok body"
  shows "anchored_at d name st (w_fs w')"
    and "r = Ok u \<Longrightarrow> state_text (w_fs w') d name = Some body \<and> stable_text (w_fs w') d name = Some body"
    and "r = Err (AfterCommit e) \<Longrightarrow> state_text (w_fs w') d name = Some body \<and>
           stable_text (w_fs w') d name = stable_text (w_fs w) d name"
    and "r = Err (BeforeCommit e) \<Longrightarrow> state_text (w_fs w') d name = state_text (w_fs w) d name \<and>
           stable_text (w_fs w') d name = stable_text (w_fs w) d name"
proof -
  obtain path where path: "persistence_path st = Some path" "path_file_name path = Some name"
    and wf: "fs_wf (w_fs w)" "\<not> prefix temporary_state_prefix name" "recoverable (w_fs w) d name"
      "d < fs_fresh (w_fs w)"
    using assms(2) by (auto simp: anchored_at_def recoverable_def)
  have "save_to_anchored_path_classified X J st path d w = (r, w')"
    using assms(1,2) path by (simp add: persist_def anchored_at_def)
  from save_to_anchored_outcome [OF this assms(3) path(2) wf(2,1)]
  obtain v where out: "save_outcome d (temporary_state_name X v) name body r (w_fs w) (w_fs w')" ..
  have apart: "temporary_state_name X v \<noteq> name"
    using wf(2) by (auto simp: temporary_state_name_def)
  note texts = save_outcome_texts [OF out wf(3) apart wf(4)]
  have "fs_fresh (w_fs w) \<le> fs_fresh (w_fs w')"
    using out by (auto simp: save_outcome_def committed_def uncommitted_def
        split: result.splits persistence_failure.splits)
  then show "anchored_at d name st (w_fs w')"
    using assms(2) texts(1) by (auto simp: anchored_at_def)
  show "r = Ok u \<Longrightarrow> state_text (w_fs w') d name = Some body \<and> stable_text (w_fs w') d name = Some body"
    and "r = Err (AfterCommit e) \<Longrightarrow> state_text (w_fs w') d name = Some body \<and>
           stable_text (w_fs w') d name = stable_text (w_fs w) d name"
    and "r = Err (BeforeCommit e) \<Longrightarrow> state_text (w_fs w') d name = state_text (w_fs w) d name \<and>
           stable_text (w_fs w') d name = stable_text (w_fs w) d name"
    by (fact texts)+
qed

lemma persist_unserializable:
  assumes "serialize_state J st = Err e" and "persistence_path st = Some path"
    and "persistence_parent st = Some d"
  shows "persist X J st w = (Err (BeforeCommit e), w)"
  using assms by (simp add: persist_def save_to_anchored_path_classified_def)

lemma anchored_at_same:
  "anchored_at d name a fs \<Longrightarrow> same_anchor b a \<Longrightarrow> anchored_at d name b fs"
  by (auto simp: anchored_at_def same_anchor_def)

lemma refused_in_step:
  "in_step J d name st (w_fs w) \<Longrightarrow> refused failed st w st' w' \<Longrightarrow> in_step J d name st' (w_fs w')"
  by (auto simp: in_step_def refused_def intro: anchored_at_same text_holds_content)

lemma attempted_in_step:
  assumes "attempted X J m failed st w st' w'" and "in_step J d name st (w_fs w)" and "json_round_trip J"
  shows "in_step J d name st' (w_fs w')"
proof -
  let ?new = "apply_move m st"
  obtain pr where pr: "persist X J ?new w = (pr, w')" and out: "case pr of
      Ok (_ :: unit) \<Rightarrow> \<not> failed \<and> st' = ?new
    | Err (AfterCommit _) \<Rightarrow> failed \<and> st' = ?new
    | Err (BeforeCommit _) \<Rightarrow> failed \<and> same_content st' st"
    and st': "store_ok st'" "same_anchor st' st"
    using assms(1) unfolding attempted_def by blast
  have anchor: "anchored_at d name ?new (w_fs w)"
    using assms(2) by (auto simp: in_step_def intro: anchored_at_same)
  have old: "text_holds J (state_text (w_fs w) d name) st"
    using assms(2) by (simp add: in_step_def)
  show ?thesis
  proof (cases "serialize_state J ?new")
    case (Err e)
    then have "pr = Err (BeforeCommit e) \<and> w' = w"
      using persist_unserializable [OF Err, of _ d X w] anchor pr by (auto simp: anchored_at_def)
    then show ?thesis
      using out st' assms(2) old
      by (auto simp: in_step_def intro: anchored_at_same text_holds_content)
  next
    case (Ok body)
    note texts = persist_texts [OF pr anchor Ok]
    have here: "anchored_at d name st' (w_fs w')"
      using anchored_at_same [OF texts(1), of st'] st'(2) by (simp add: same_anchor_def)
    have "text_holds J (state_text (w_fs w') d name) st'"
      using out texts(2-4) old st'(1) text_holds_serialized [OF assms(3) _ Ok]
      by (auto split: result.splits persistence_failure.splits intro: text_holds_content)
    with here st'(1) show ?thesis by (simp add: in_step_def)
  qed
qed

section \<open>The contract of a review store\<close>

text \<open>
  What the gateway relies on.  \<open>good\<close> is the invariant of a state, \<open>view\<close> its map of phases.
  Success means the move was made, an error means it was made or not, and an operation asked for in
  a phase it does not start from is an error without any move.
\<close>

locale review_store =
  fixes good :: "'s \<Rightarrow> bool"
    and view :: "'s \<Rightarrow> uuid \<Rightarrow> review_phase"
    and ins :: "pending_review \<Rightarrow> ('s, unit, 'e) act"
    and clm :: "uuid \<Rightarrow> ('s, pending_review, 'e) act"
    and rst :: "pending_review \<Rightarrow> ('s, unit, 'e) act"
    and con :: "uuid \<Rightarrow> ('s, pending_review, 'f) act"
  assumes ins_law: "good s \<Longrightarrow> canonical p \<Longrightarrow> (\<And>q. view s (pr_request_id p) \<noteq> Claimed q) \<Longrightarrow>
      ins p s = (r, s') \<Longrightarrow>
      good s' \<and> (moved (MoveInsert p) (view s) (view s') \<or> is_err r \<and> view s' = view s)"
    and clm_law: "good s \<Longrightarrow> clm k s = (rc, s') \<Longrightarrow>
      good s' \<and> ((\<exists>p. pr_request_id p = k \<and> (\<forall>q. rc = Ok q \<longrightarrow> q = p) \<and>
         moved (MoveClaim p) (view s) (view s')) \<or> is_err rc \<and> view s' = view s)"
    and rst_law: "good s \<Longrightarrow> rst p s = (ru, s') \<Longrightarrow>
      good s' \<and> (moved (MoveRestore p) (view s) (view s') \<or> is_err ru \<and> view s' = view s)"
    and con_law: "good s \<Longrightarrow> con k s = (rk, s') \<Longrightarrow>
      good s' \<and> ((\<exists>p. pr_request_id p = k \<and> (\<forall>q. rk = Ok q \<longrightarrow> q = p) \<and>
         moved (MoveConsume p) (view s) (view s')) \<or> is_err rk \<and> view s' = view s)"
begin

lemma clm_Ok:
  assumes "good s" and "clm k s = (Ok p, s')"
  shows "pr_request_id p = k" and "view s k = Pending p" and "view s' = (view s)(k := Claimed p)"
  using clm_law [OF assms] by (auto simp: moved_def move_id_def)

lemma con_Ok:
  assumes "good s" and "con k s = (Ok p, s')"
  shows "pr_request_id p = k" and "view s k = Claimed p" and "view s' = (view s)(k := Absent)"
  using con_law [OF assms] by (auto simp: moved_def move_id_def)

text \<open>A request is in one hand at a time.\<close>

lemma claim_exclusive:
  assumes "good s" and "clm k s = (Ok p, s1)" and "clm k s1 = (r, s2)"
  shows "is_err r \<and> view s2 = view s1"
proof -
  have "good s1" and v: "view s1 k = Claimed p"
    using clm_law [OF assms(1,2)] clm_Ok [OF assms(1,2)] by auto
  from clm_law [OF this(1) assms(3)] v show ?thesis
    by (auto simp: moved_def move_id_def)
qed

lemma consume_once:
  assumes "good s" and "con k s = (Ok p, s1)" and "con k s1 = (r, s2)"
  shows "is_err r \<and> view s2 = view s1"
proof -
  have "good s1" and v: "view s1 k = Absent"
    using con_law [OF assms(1,2)] con_Ok [OF assms(1,2)] by auto
  from con_law [OF this(1) assms(3)] v show ?thesis
    by (auto simp: moved_def move_id_def)
qed

lemma claim_restore:
  assumes "good s" and "clm k s = (Ok p, s1)" and "rst p s1 = (Ok u, s2)"
  shows "view s2 = view s"
proof -
  have "good s1" and v: "view s1 = (view s)(k := Claimed p)" "view s k = Pending p" "pr_request_id p = k"
    using clm_law [OF assms(1,2)] clm_Ok [OF assms(1,2)] by auto
  from rst_law [OF this(1) assms(3)] v show ?thesis
    by (auto simp: moved_def move_id_def)
qed

lemma others_untouched:
  assumes "good s" and "j \<noteq> k"
  shows "clm k s = (r, s') \<Longrightarrow> view s' j = view s j"
    and "con k s = (r2, s') \<Longrightarrow> view s' j = view s j"
    and "rst p s = (r3, s') \<Longrightarrow> pr_request_id p = k \<Longrightarrow> view s' j = view s j"
  using clm_law [OF assms(1)] con_law [OF assms(1)] rst_law [OF assms(1)] assms(2)
  by (fastforce simp: moved_def move_id_def)+

end

definition store_view :: "pending_review_store \<times> world \<Rightarrow> uuid \<Rightarrow> review_phase" where
  "store_view s = phase (fst s)"

definition store_good :: "pending_review_store \<times> world \<Rightarrow> bool" where
  "store_good s \<longleftrightarrow> store_ok (fst s)"

definition disk_good :: "store_json \<Rightarrow> nat \<Rightarrow> string \<Rightarrow> pending_review_store \<times> world \<Rightarrow> bool" where
  "disk_good J d name s \<longleftrightarrow> json_round_trip J \<and> in_step J d name (fst s) (w_fs (snd s))"

lemma refused_view: "refused f st w st' w' \<Longrightarrow> f \<and> store_view (st', w') = store_view (st, w)"
  by (auto simp: refused_def store_view_def dest: phase_content)

lemma attempted_view:
  "attempted X J m f st w st' w' \<Longrightarrow> store_ok st \<Longrightarrow>
   moved m (store_view (st, w)) (store_view (st', w')) \<or> f \<and> store_view (st', w') = store_view (st, w)"
  using attempted_move by (auto simp: store_view_def)

lemma refused_ok: "refused f st w st' w' \<Longrightarrow> store_ok st'"
  by (simp add: refused_def)

lemma attempted_ok: "attempted X J m f st w st' w' \<Longrightarrow> store_ok st'"
  by (simp add: attempted_def)

text \<open>The four operations, each as a refusal or an attempt.\<close>

definition op_effect ::
  "externals \<Rightarrow> store_json \<Rightarrow> (pending_review \<Rightarrow> store_move) \<Rightarrow> (pending_review \<Rightarrow> bool) \<Rightarrow> bool
   \<Rightarrow> pending_review_store \<times> world \<Rightarrow> pending_review_store \<times> world \<Rightarrow> bool"
where
  "op_effect X J m sel f s s' \<longleftrightarrow>
     refused f (fst s) (snd s) (fst s') (snd s') \<or>
     (\<exists>p. sel p \<and> attempted X J (m p) f (fst s) (snd s) (fst s') (snd s'))"

lemma op_effect_view:
  assumes "op_effect X J m sel f s s'" and "store_good s"
  shows "store_good s' \<and>
    ((\<exists>p. sel p \<and> moved (m p) (store_view s) (store_view s')) \<or> f \<and> store_view s' = store_view s)"
  using assms unfolding op_effect_def store_good_def
  by (cases s; cases s') (auto dest: refused_view refused_ok attempted_ok attempted_view)

lemma op_effect_disk:
  assumes "op_effect X J m sel f s s'" and "disk_good J d name s"
  shows "disk_good J d name s'"
  using assms unfolding op_effect_def disk_good_def
  by (auto dest: refused_in_step attempted_in_step)

lemma disk_good_store: "disk_good J d name s \<Longrightarrow> store_good s"
  by (simp add: disk_good_def store_good_def in_step_def)

lemma insert_effect:
  assumes "store_good s" and "canonical p" and "\<And>q. store_view s (pr_request_id p) \<noteq> Claimed q"
    and "store_insert X J p s = (r, s')"
  shows "op_effect X J MoveInsert (\<lambda>q. q = p) (is_err r) s s'"
proof -
  obtain st w st' w' where s: "s = (st, w)" "s' = (st', w')" by (cases s; cases s') auto
  have "map_of (claimed_reviews st) (pr_request_id p) \<noteq> Some q" for q
    using assms(3) [of q] by (auto simp: s store_view_def phase_def)
  then have "map_of (claimed_reviews st) (pr_request_id p) = None"
    by (rule not_Some_eq [THEN iffD1, OF allI])
  then show ?thesis
    using store_insert_outcome [of X J p st w r st' w'] assms
    by (auto simp: s store_good_def op_effect_def split: if_splits)
qed

lemma claim_effect:
  assumes "store_good s" and "store_claim X J k s = (r, s')"
  shows "op_effect X J MoveClaim (\<lambda>p. pr_request_id p = k \<and> (\<forall>q. r = Ok q \<longrightarrow> q = p)) (is_err r) s s'"
proof -
  obtain st w st' w' where s: "s = (st, w)" "s' = (st', w')" by (cases s; cases s') auto
  show ?thesis
    using store_claim_outcome [of X J k st w r st' w'] assms
    by (auto simp: s store_good_def op_effect_def split: review_phase.splits)
qed

lemma restore_effect:
  assumes "store_good s" and "store_restore_claimed X J p s = (r, s')"
  shows "op_effect X J MoveRestore (\<lambda>q. q = p) (is_err r) s s'"
proof -
  obtain st w st' w' where s: "s = (st, w)" "s' = (st', w')" by (cases s; cases s') auto
  show ?thesis
    using store_restore_outcome [of X J p st w r st' w'] assms
    by (auto simp: s store_good_def op_effect_def split: if_splits)
qed

lemma consume_effect:
  assumes "store_good s" and "store_consume_claimed X J k s = (r, s')"
  shows "op_effect X J MoveConsume (\<lambda>p. pr_request_id p = k \<and> (\<forall>q. r = Ok q \<longrightarrow> q = p)) (is_err r) s s'"
proof -
  obtain st w st' w' where s: "s = (st, w)" "s' = (st', w')" by (cases s; cases s') auto
  show ?thesis
    using store_consume_outcome [of X J k st w r st' w'] assms
    by (auto simp: s store_good_def op_effect_def split: review_phase.splits)
qed

lemmas store_effects = insert_effect claim_effect restore_effect consume_effect

interpretation memory: review_store store_good store_view
  "store_insert X J" "store_claim X J" "store_restore_claimed X J" "store_consume_claimed X J" for X J
proof
  fix s s' :: "pending_review_store \<times> world" and p k r rc ru rk
  show "store_good s' \<and> (moved (MoveInsert p) (store_view s) (store_view s') \<or> is_err r \<and> store_view s' = store_view s)"
    if "store_good s" "canonical p" "\<And>q. store_view s (pr_request_id p) \<noteq> Claimed q"
      "store_insert X J p s = (r, s')"
    using op_effect_view [OF insert_effect [OF that] that(1)] by blast
  show "store_good s' \<and> ((\<exists>p. pr_request_id p = k \<and> (\<forall>q. rc = Ok q \<longrightarrow> q = p) \<and>
      moved (MoveClaim p) (store_view s) (store_view s')) \<or> is_err rc \<and> store_view s' = store_view s)"
    if "store_good s" "store_claim X J k s = (rc, s')"
    using op_effect_view [OF claim_effect [OF that] that(1)] by blast
  show "store_good s' \<and> (moved (MoveRestore p) (store_view s) (store_view s') \<or> is_err ru \<and> store_view s' = store_view s)"
    if "store_good s" "store_restore_claimed X J p s = (ru, s')"
    using op_effect_view [OF restore_effect [OF that] that(1)] by blast
  show "store_good s' \<and> ((\<exists>p. pr_request_id p = k \<and> (\<forall>q. rk = Ok q \<longrightarrow> q = p) \<and>
      moved (MoveConsume p) (store_view s) (store_view s')) \<or> is_err rk \<and> store_view s' = store_view s)"
    if "store_good s" "store_consume_claimed X J k s = (rk, s')"
    using op_effect_view [OF consume_effect [OF that] that(1)] by blast
qed

text \<open>The same contract with the state file in step as the invariant.\<close>

interpretation on_disk: review_store "disk_good J d name" store_view
  "store_insert X J" "store_claim X J" "store_restore_claimed X J" "store_consume_claimed X J" for X J d name
proof
  fix s s' :: "pending_review_store \<times> world" and p k r rc ru rk
  assume good: "disk_good J d name s"
  note ok = disk_good_store [OF good]
  show "disk_good J d name s' \<and> (moved (MoveInsert p) (store_view s) (store_view s') \<or> is_err r \<and> store_view s' = store_view s)"
    if "canonical p" "\<And>q. store_view s (pr_request_id p) \<noteq> Claimed q" "store_insert X J p s = (r, s')"
    using op_effect_disk [OF insert_effect [OF ok that] good] memory.ins_law [OF ok that] by blast
  show "disk_good J d name s' \<and> ((\<exists>p. pr_request_id p = k \<and> (\<forall>q. rc = Ok q \<longrightarrow> q = p) \<and>
      moved (MoveClaim p) (store_view s) (store_view s')) \<or> is_err rc \<and> store_view s' = store_view s)"
    if "store_claim X J k s = (rc, s')"
    using op_effect_disk [OF claim_effect [OF ok that] good] memory.clm_law [OF ok that] by blast
  show "disk_good J d name s' \<and> (moved (MoveRestore p) (store_view s) (store_view s') \<or> is_err ru \<and> store_view s' = store_view s)"
    if "store_restore_claimed X J p s = (ru, s')"
    using op_effect_disk [OF restore_effect [OF ok that] good] memory.rst_law [OF ok that] by blast
  show "disk_good J d name s' \<and> ((\<exists>p. pr_request_id p = k \<and> (\<forall>q. rk = Ok q \<longrightarrow> q = p) \<and>
      moved (MoveConsume p) (store_view s) (store_view s')) \<or> is_err rk \<and> store_view s' = store_view s)"
    if "store_consume_claimed X J k s = (rk, s')"
    using op_effect_disk [OF consume_effect [OF ok that] good] memory.con_law [OF ok that] by blast
qed

section \<open>Properties\<close>

definition sample_json :: store_json where
  "sample_json =
     \<lparr>sj_to_string_pretty = (\<lambda>s. if s = \<lparr>ps_version = state_version, ps_reviews = []\<rparr> then Ok ''{}'' else Err ''big''),
      sj_from_str = (\<lambda>t. if t = ''{}'' then Ok \<lparr>ps_version = state_version, ps_reviews = []\<rparr> else Err ''bad'')\<rparr>"

definition sample_store :: pending_review_store where
  "sample_store =
     \<lparr>reviews = [], claimed_reviews = [],
      persistence_path = Some [RootDir, Normal ''state'', Normal ''reviews.json''],
      persistence_parent = Some 1\<rparr>"

lemma sample_json_round_trip: "json_round_trip sample_json"
  by (simp add: json_round_trip_def sample_json_def)

lemma sample_store_ok: "store_ok sample_store"
  by (simp add: store_ok_def sample_store_def)

lemma sample_anchored: "anchored_at 1 ''reviews.json'' sample_store sample_fs"
proof -
  have "dir_lookup sample_fs 1 ''reviews.json'' = None" "stable_lookup sample_fs 1 ''reviews.json'' = None"
    by (simp_all add: dir_lookup_def stable_lookup_def dir_entries_def sample_defs)
  moreover have "1 < fs_fresh sample_fs" by (simp add: sample_fs_def)
  moreover have "\<not> prefix temporary_state_prefix ''reviews.json''" by code_simp
  moreover have "path_file_name [RootDir, Normal ''state'', Normal ''reviews.json''] = Some ''reviews.json''"
    by (simp add: path_file_name_def)
  ultimately show ?thesis
    using sample_fs_wf by (auto simp: anchored_at_def recoverable_def sample_store_def)
qed

lemma sample_in_step: "in_step sample_json 1 ''reviews.json'' sample_store sample_fs"
proof -
  have "state_text sample_fs 1 ''reviews.json'' = None" by code_simp
  then show ?thesis
    using sample_anchored sample_store_ok
    by (simp add: in_step_def text_holds_def same_content_def sample_store_def new_store_def)
qed

text \<open>C14: whatever I/O faults a save meets, and wherever a crash then brings the
  directory back to, the state file holds the old text or the new one: the new one when the save
  reported success, the old one when it reported a failure before the rename, and one of the two
  when only the last sync failed.\<close>

theorem save_crash_safe:
  assumes "anchored_at d name st (w_fs w)" and "serialize_state J st = Ok body"
    and "stable_text (w_fs w) d name = state_text (w_fs w) d name"
    and "crash_to (w_fs (snd (persist X J st w))) fs'"
  shows "case fst (persist X J st w) of
      Ok _ \<Rightarrow> state_text fs' d name = Some body
    | Err (AfterCommit _) \<Rightarrow> state_text fs' d name \<in> {Some body, state_text (w_fs w) d name}
    | Err (BeforeCommit _) \<Rightarrow> state_text fs' d name = state_text (w_fs w) d name"
proof -
  obtain r w' where run: "persist X J st w = (r, w')" by fastforce
  note texts = persist_texts [OF run assms(1,2)]
  have "recoverable (w_fs w') d name" using texts(1) by (simp add: anchored_at_def)
  from crash_state_text [OF this] have
    "state_text fs' d name \<in> {state_text (w_fs w') d name, stable_text (w_fs w') d name}"
    using assms(4) run by simp
  then show ?thesis
    using texts(2-4) assms(3) by (auto simp: run split: result.splits persistence_failure.splits)
qed

theorem save_crash_safe_witness:
  "state_text (w_fs (snd (persist sample_externals sample_json sample_store sample_world))) 1 ''reviews.json''
     = Some ''{}''"
proof -
  have ok: "fst (persist sample_externals sample_json sample_store sample_world) = Ok ()"
    and body: "serialize_state sample_json sample_store = Ok ''{}''"
    and same: "stable_text (w_fs sample_world) 1 ''reviews.json'' = state_text (w_fs sample_world) 1 ''reviews.json''"
    by code_simp+
  have "anchored_at 1 ''reviews.json'' sample_store (w_fs sample_world)"
    using sample_anchored by (simp add: sample_world_def)
  moreover have "crash_to fs fs" for fs by (simp add: crash_to_def)
  ultimately show ?thesis
    using save_crash_safe [OF _ body same, of sample_externals] ok by simp
qed



text \<open>C13: every operation of the store, successful, refused or failed at any
  point of its save, leaves a state file from which a start of the gateway would load exactly the
  requests that are in memory.\<close>

theorem store_and_file_agree:
  assumes "json_round_trip J" and "in_step J d name st (w_fs w)"
    and "canonical p" and "map_of (claimed_reviews st) (pr_request_id p) = None"
  shows "(case snd (store_insert X J p (st, w)) of (st', w') \<Rightarrow> in_step J d name st' (w_fs w')) \<and>
    (case snd (store_claim X J k (st, w)) of (st', w') \<Rightarrow> in_step J d name st' (w_fs w')) \<and>
    (case snd (store_restore_claimed X J q (st, w)) of (st', w') \<Rightarrow> in_step J d name st' (w_fs w')) \<and>
    (case snd (store_consume_claimed X J k (st, w)) of (st', w') \<Rightarrow> in_step J d name st' (w_fs w'))"
proof -
  have good: "disk_good J d name (st, w)" using assms(1,2) by (simp add: disk_good_def)
  have free: "store_view (st, w) (pr_request_id p) \<noteq> Claimed x" for x
    using assms(4) by (auto simp: store_view_def phase_def split: option.splits)
  have out: "case s of (st', w') \<Rightarrow> in_step J d name st' (w_fs w')" if "disk_good J d name s" for s
    using that by (cases s) (simp add: disk_good_def)
  show ?thesis
    using out [OF on_disk.ins_law [OF good assms(3) free prod.collapse [symmetric], THEN conjunct1]]
      out [OF on_disk.clm_law [OF good prod.collapse [symmetric], THEN conjunct1]]
      out [OF on_disk.rst_law [OF good prod.collapse [symmetric], THEN conjunct1]]
      out [OF on_disk.con_law [OF good prod.collapse [symmetric], THEN conjunct1]]
    by (intro conjI) assumption+
qed

definition sample_review :: pending_review where
  "sample_review = new_with_write_target_state 5 (WriteFile \<lparr>wf_path = ''a'', wf_content = ''b''\<rparr>) ''why'' Missing"

theorem store_and_file_agree_witness:
  "case snd (store_insert sample_externals sample_json sample_review (sample_store, sample_world)) of
     (st', w') \<Rightarrow> in_step sample_json 1 ''reviews.json'' st' (w_fs w')"
proof -
  have "in_step sample_json 1 ''reviews.json'' sample_store (w_fs sample_world)"
    using sample_in_step by (simp add: sample_world_def)
  moreover have "canonical sample_review" by (simp add: sample_review_def canonical_new)
  moreover have "map_of (claimed_reviews sample_store) (pr_request_id sample_review) = None"
    by (simp add: sample_store_def)
  ultimately show ?thesis
    by (rule store_and_file_agree [OF sample_json_round_trip, THEN conjunct1])
qed

text \<open>A request that was claimed cannot be claimed again: until it is put back
  or consumed every further claim of it is refused, and the store stays as it is.\<close>

theorem no_double_claim:
  assumes "store_ok st" and "store_claim X J k (st, w) = (Ok p, (st1, w1))"
  shows "phase st k = Pending p \<and> phase st1 = (phase st)(k := Claimed p) \<and>
    store_claim X J k (st1, w1) = (Err AlreadyClaimed, (st1, w1))"
proof -
  have good: "store_good (st, w)" using assms(1) by (simp add: store_good_def)
  note c = memory.clm_Ok [OF good assms(2)] memory.clm_law [OF good assms(2)]
  have "phase st1 k = Claimed p" using c(3) by (simp add: store_view_def)
  then have "map_of (claimed_reviews st1) k = Some p"
    using c(4) phase_cases(2) by (simp add: store_good_def)
  then show ?thesis
    using c by (auto simp: store_view_def store_claim_def)
qed

definition sample_held :: pending_review_store where
  "sample_held = new_store\<lparr>reviews := [(5, sample_review)]\<rparr>"

lemma sample_held_ok: "store_ok sample_held"
proof -
  have "canonical sample_review" by (simp add: sample_review_def canonical_new)
  moreover have "pr_request_id sample_review = 5"
    by (simp add: sample_review_def review_constructors)
  ultimately show ?thesis
    by (auto simp: store_ok_def sample_held_def new_store_def keyed_def hm_wf_def split: if_splits)
qed

theorem no_double_claim_witness:
  "phase sample_held 5 = Pending sample_review \<and>
   store_claim sample_externals sample_json 5 (snd (store_claim sample_externals sample_json 5 (sample_held, sample_world)))
     = (Err AlreadyClaimed, snd (store_claim sample_externals sample_json 5 (sample_held, sample_world)))"
proof -
  obtain st1 w1 where run: "store_claim sample_externals sample_json 5 (sample_held, sample_world)
      = (Ok sample_review, (st1, w1))"
    by (auto simp: store_claim_def sample_held_def new_store_def persist_def)
  show ?thesis using no_double_claim [OF sample_held_ok run] by (simp add: run)
qed

text \<open>Consuming a claimed request removes it or leaves it claimed, and the
  result says which: it is gone on success and when only the durability is uncertain, still claimed
  when the failure came before the rename; anything else is refused without a change.\<close>

theorem consume_outcome:
  assumes "store_ok st"
  shows "case store_consume_claimed X J k (st, w) of (r, (st', w')) \<Rightarrow>
     (case phase st k of
        Claimed p \<Rightarrow>
          (case r of
             Ok q \<Rightarrow> q = p \<and> phase st' k = Absent
           | Err (DurabilityUncertain _) \<Rightarrow> phase st' k = Absent
           | Err (NotCommitted _) \<Rightarrow> phase st' k = Claimed p)
      | _ \<Rightarrow> r = Err (NotCommitted ClaimedNotFound) \<and> phase st' = phase st \<and> w' = w)"
proof -
  obtain r st' w' where run: "store_consume_claimed X J k (st, w) = (r, (st', w'))"
    by (metis surj_pair)
  have good: "store_good (st, w)" using assms by (simp add: store_good_def)
  show ?thesis
    using store_consume_outcome [OF run assms] memory.con_Ok(3) [OF good] run
    by (auto simp: store_view_def refused_def dest: phase_content
        split: review_phase.splits result.splits consume_claimed_failure.splits)
qed

theorem consume_outcome_witness:
  "case store_consume_claimed sample_externals sample_json 5 (sample_held, sample_world) of (r, (st', w')) \<Rightarrow>
     r = Err (NotCommitted ClaimedNotFound) \<and> phase st' = phase sample_held \<and> w' = sample_world"
proof -
  have "phase sample_held 5 = Pending sample_review"
    by (simp add: phase_def sample_held_def new_store_def)
  then show ?thesis
    using consume_outcome [where X = sample_externals and J = sample_json and k = 5 and w = sample_world,
        OF sample_held_ok] by simp
qed

end
