(* ===== verification/PathCalls.thy ===== *)
theory PathCalls
  imports Externals
begin

text \<open>
  The calls of \<open>std::fs\<close> that take a whole path and change the file system:
  \<open>create_dir\<close>, \<open>create_new\<close>, \<open>copy\<close>, \<open>remove_file\<close> and \<open>remove_dir_all\<close>.  The last
  component is looked up in the directory its parent resolves to.
\<close>

section \<open>The directory and name of a path\<close>

definition fs_locate :: "path \<Rightarrow> fsys \<Rightarrow> (nat \<times> string, io_error) result" where
  "fs_locate p fs =
     (case path_file_name p of
        None \<Rightarrow> Err (OtherIo ''Invalid argument'')
      | Some n \<Rightarrow>
          bind_result (fs_lookup True (butlast p) fs)
            (\<lambda>d. if dir_entries fs d = None then Err NotADirectory else Ok (d, n)))"

definition fs_make_dir :: "path \<Rightarrow> fsys \<Rightarrow> (unit \<times> fsys, io_error) result" where
  "fs_make_dir p fs =
     bind_result (fs_locate p fs) (\<lambda>(d, n).
     bind_result (fs_create_at d n (7 * 8 * 8 + 5 * 8 + 5) fs) (\<lambda>(i, fs1).
     Ok ((), case fs_inodes fs1 i of
               Some k \<Rightarrow> set_inode i (k\<lparr>ino_node := DirNode []\<rparr>) fs1
             | None \<Rightarrow> fs1)))"

definition fs_create_path :: "path \<Rightarrow> nat \<Rightarrow> fsys \<Rightarrow> (nat \<times> fsys, io_error) result" where
  "fs_create_path p mode fs = bind_result (fs_locate p fs) (\<lambda>(d, n). fs_create_at d n mode fs)"

definition fs_truncate :: "nat \<Rightarrow> fsys \<Rightarrow> fsys" where
  "fs_truncate i fs =
     (case fs_inodes fs i of
        Some n \<Rightarrow> (case ino_node n of FileNode _ \<Rightarrow> set_inode i (n\<lparr>ino_node := FileNode []\<rparr>) fs | _ \<Rightarrow> fs)
      | None \<Rightarrow> fs)"

definition fs_create_or_truncate :: "path \<Rightarrow> nat \<Rightarrow> fsys \<Rightarrow> (nat \<times> fsys, io_error) result" where
  "fs_create_or_truncate p mode fs =
     (case fs_lookup True p fs of
        Ok i \<Rightarrow> (if dir_entries fs i \<noteq> None then Err IsADirectory else Ok (i, fs_truncate i fs))
      | Err e \<Rightarrow> (if e = NotFound then fs_create_path p mode fs else Err e))"

definition fs_remove_file :: "path \<Rightarrow> fsys \<Rightarrow> (unit \<times> fsys, io_error) result" where
  "fs_remove_file p fs = bind_result (fs_locate p fs) (\<lambda>(d, n). fs_unlink_at d n fs)"

text \<open>\<open>remove_dir_all\<close> detaches the tree; a symbolic link at its root is removed itself.\<close>

definition fs_remove_tree :: "path \<Rightarrow> fsys \<Rightarrow> (unit \<times> fsys, io_error) result" where
  "fs_remove_tree p fs =
     bind_result (fs_locate p fs) (\<lambda>(d, n).
     case dir_entries fs d of
       None \<Rightarrow> Err NotADirectory
     | Some es \<Rightarrow>
         (case map_of es n of
            None \<Rightarrow> Err NotFound
          | Some _ \<Rightarrow> Ok ((), set_entries d (AList.delete n es) fs)))"

text \<open>\<open>bind\<close> makes a socket at a free name; \<open>set_permissions\<close> follows links.\<close>

definition fs_bind_socket :: "path \<Rightarrow> fsys \<Rightarrow> (unit \<times> fsys, io_error) result" where
  "fs_bind_socket p fs =
     bind_result (fs_locate p fs) (\<lambda>(d, n).
     case fs_create_at d n (7 * 8 * 8 + 5 * 8 + 5) fs of
       Err e \<Rightarrow> Err (if e = AlreadyExists then OtherIo ''Address already in use'' else e)
     | Ok (i, fs1) \<Rightarrow>
         Ok ((), case fs_inodes fs1 i of
                   Some k \<Rightarrow> set_inode i (k\<lparr>ino_node := SocketNode\<rparr>) fs1
                 | None \<Rightarrow> fs1))"

definition fs_set_permissions :: "path \<Rightarrow> nat \<Rightarrow> fsys \<Rightarrow> (unit \<times> fsys, io_error) result" where
  "fs_set_permissions p mode fs =
     bind_result (fs_lookup True p fs) (\<lambda>i.
     if fs_inodes fs i = None then Err NotFound else Ok ((), fs_chmod i mode fs))"

section \<open>As calls of the world\<close>

definition sys_create_dir :: "path \<Rightarrow> (world, unit, io_error) act" where
  "sys_create_dir p = sys_update (fs_make_dir p)"

definition sys_create_new :: "path \<Rightarrow> nat \<Rightarrow> (world, nat, io_error) act" where
  "sys_create_new p mode = sys_update (fs_create_path p mode)"

definition sys_remove_file :: "path \<Rightarrow> (world, unit, io_error) act" where
  "sys_remove_file p = sys_update (fs_remove_file p)"

definition sys_remove_dir_all :: "path \<Rightarrow> (world, unit, io_error) act" where
  "sys_remove_dir_all p = sys_update (fs_remove_tree p)"

definition sys_bind_socket :: "path \<Rightarrow> (world, unit, io_error) act" where
  "sys_bind_socket p = sys_update (fs_bind_socket p)"

definition sys_set_permissions :: "path \<Rightarrow> nat \<Rightarrow> (world, unit, io_error) act" where
  "sys_set_permissions p mode = sys_update (fs_set_permissions p mode)"

text \<open>\<open>fs::copy\<close>: read the source, create or truncate the target, write, copy the mode.\<close>

definition sys_copy :: "path \<Rightarrow> path \<Rightarrow> (world, unit, io_error) act" where
  "sys_copy source target =
     and_then (sys_read (fs_metadata source)) (\<lambda>m.
     if \<not> is_file m then fail (OtherIo ''the source path is neither a regular file nor a symlink to a regular file'')
     else
       and_then (sys_read (fs_read source)) (\<lambda>bytes.
       and_then (sys_update (fs_create_or_truncate target (md_mode m))) (\<lambda>i.
       and_then (sys_write_all i bytes) (\<lambda>_.
       sys_chmod i (md_mode m)))))"

section \<open>Loops over a list\<close>

text \<open>A \<open>for\<close> loop whose body can stop with \<open>?\<close>.\<close>

fun for_each :: "('a \<Rightarrow> 'b \<Rightarrow> ('s, 'b, 'e) act) \<Rightarrow> 'a list \<Rightarrow> 'b \<Rightarrow> ('s, 'b, 'e) act" where
  "for_each body [] acc = ret acc"
| "for_each body (x # xs) acc = and_then (body x acc) (\<lambda>acc'. for_each body xs acc')"

lemma for_each_invariant:
  assumes "for_each body xs acc s = (Ok acc', s')" and "P acc s"
    and "\<And>x acc s acc' s'. x \<in> set xs \<Longrightarrow> P acc s \<Longrightarrow> body x acc s = (Ok acc', s') \<Longrightarrow> P acc' s'"
  shows "P acc' s'"
  using assms
proof (induction xs arbitrary: acc s)
  case (Cons x xs)
  from Cons.prems(1) obtain acc1 s1 where
    step: "body x acc s = (Ok acc1, s1)" and more: "for_each body xs acc1 s1 = (Ok acc', s')"
    by (auto elim: and_then_OkE)
  have "P acc1 s1" using Cons.prems(3) [OF _ Cons.prems(2) step] by simp
  with more show ?case by (rule Cons.IH) (rule Cons.prems(3), auto)
qed simp

lemma keeps_for_each:
  assumes "transp R" and "reflp R" and "\<And>x acc. keeps R (body x acc)"
  shows "keeps R (for_each body xs acc)"
proof (induction xs arbitrary: acc)
  case Nil
  show ?case unfolding for_each.simps by (rule keeps_pure(1) [OF assms(2)])
next
  case (Cons x xs)
  show ?case unfolding for_each.simps by (rule keeps_and_then [OF assms(1) assms(3) Cons.IH])
qed

end
