(* ===== verification/Workspace.thy ===== *)
theory Workspace
  imports PathCalls Strings "HOL-Library.List_Lexorder" "HOL-Library.Char_ord" Samples
begin

text \<open>
  \<open>workspace_fingerprint.rs\<close> and \<open>workspace_snapshot.rs\<close>: which files of a workspace a Cargo
  run depends on, the digest that names their contents, and the copy the run works on.
\<close>

section \<open>The order of paths\<close>

text \<open>\<open>Path::cmp\<close> compares component by component, a normal component by its bytes.\<close>

fun component_rank :: "component \<Rightarrow> nat \<times> string" where
  "component_rank RootDir = (0, [])"
| "component_rank CurDir = (1, [])"
| "component_rank ParentDir = (2, [])"
| "component_rank (Normal n) = (3, n)"

lemma component_rank_inj: "component_rank a = component_rank b \<Longrightarrow> a = b"
  by (cases a; cases b) simp_all

instantiation component :: linorder
begin

definition less_eq_component :: "component \<Rightarrow> component \<Rightarrow> bool" where
  "less_eq_component a b \<longleftrightarrow>
     (case (component_rank a, component_rank b) of ((i, n), (j, m)) \<Rightarrow> i < j \<or> i = j \<and> n \<le> m)"

definition less_component :: "component \<Rightarrow> component \<Rightarrow> bool" where
  "less_component a b \<longleftrightarrow> a \<le> b \<and> \<not> b \<le> (a :: component)"

instance
proof
  fix a b c :: component
  show "(a < b) = (a \<le> b \<and> \<not> b \<le> a)" by (rule less_component_def)
  show "a \<le> a" by (simp add: less_eq_component_def split: prod.splits)
  show "a \<le> c" if "a \<le> b" "b \<le> c"
    using that by (auto simp: less_eq_component_def split: prod.splits)
  show "a = b" if "a \<le> b" "b \<le> a"
    using that by (intro component_rank_inj) (auto simp: less_eq_component_def split: prod.splits)
  show "a \<le> b \<or> b \<le> a"
    by (auto simp: less_eq_component_def split: prod.splits)
qed

end

section \<open>Inputs of a run\<close>

definition ROOT_FILES :: "string list" where
  "ROOT_FILES = [''Cargo.toml'', ''Cargo.lock'', ''build.rs'']"

definition SOURCE_DIRECTORIES :: "string list" where
  "SOURCE_DIRECTORIES = [''src'', ''tests'']"

text \<open>
  \<open>PATH_MAX\<close> is 4096 bytes and a component takes at least two of them, so no path of more than
  2048 components can be opened: the recursion over directories stops there with an error.
\<close>

definition max_depth :: nat where "max_depth = 2048"

datatype workspace_error =
    RootFileSymlink string
  | InspectRootFile string io_error
  | DirectorySymlink string
  | InspectDirectory string io_error
  | ReadDirectory path io_error
  | ReadEntry io_error
  | InspectEntry path io_error
  | EntrySymlink path
  | RelativePath path
  | FileNotRegular path
  | ReadWorkspaceFile path io_error
  | CreateSnapshot io_error
  | CreateSnapshotDirectory path io_error
  | CopyFile path io_error

definition name_too_long :: io_error where
  "name_too_long = OtherIo ''File name too long''"

text \<open>The name of a path as messages show it: relative to the workspace where it is inside.\<close>

definition shown :: "path \<Rightarrow> path \<Rightarrow> path" where
  "shown workspace p = (case path_strip_prefix p workspace of Some r \<Rightarrow> r | None \<Rightarrow> p)"

text \<open>\<open>symlink_metadata\<close> with a missing file as a case of its own.\<close>

definition optional_metadata :: "path \<Rightarrow> (world, metadata option, io_error) act" where
  "optional_metadata p w =
     (case sys_read (fs_symlink_metadata p) w of
        (Ok m, w1) \<Rightarrow> (Ok (Some m), w1)
      | (Err e, w1) \<Rightarrow> (if e = NotFound then Ok None else Err e, w1))"

section \<open>The fingerprint\<close>

definition collect_root_file ::
  "path \<Rightarrow> string \<Rightarrow> path list \<Rightarrow> (world, path list, workspace_error) act" where
  "collect_root_file workspace file_name files =
     (let path = path_join workspace (path_of file_name) in
      and_then (with_err (InspectRootFile file_name) (optional_metadata path)) (\<lambda>found.
      case found of
        None \<Rightarrow> ret files
      | Some metadata \<Rightarrow>
          if is_symlink metadata then fail (RootFileSymlink file_name)
          else if is_file metadata then ret (files @ [path])
          else ret files))"

definition collect_entry ::
  "(path \<Rightarrow> path list \<Rightarrow> (world, path list, workspace_error) act)
   \<Rightarrow> path \<Rightarrow> path \<Rightarrow> string \<Rightarrow> path list \<Rightarrow> (world, path list, workspace_error) act" where
  "collect_entry collect workspace directory name files =
     and_then (with_err ReadEntry (sys_read (\<lambda>_. Ok ()))) (\<lambda>_.
     let path = path_join directory [Normal name] in
     and_then (with_err (InspectEntry path) (sys_read (fs_symlink_metadata path))) (\<lambda>metadata.
     if is_symlink metadata then fail (EntrySymlink (shown workspace path))
     else if is_dir metadata then collect path files
     else if is_file metadata then ret (files @ [path])
     else ret files))"

primrec collect_files ::
  "nat \<Rightarrow> path \<Rightarrow> path \<Rightarrow> path list \<Rightarrow> (world, path list, workspace_error) act" where
  "collect_files 0 = (\<lambda>workspace directory files.
     fail (ReadDirectory (shown workspace directory) name_too_long))"
| "collect_files (Suc depth) = (\<lambda>workspace directory files.
     and_then (with_err (ReadDirectory (shown workspace directory)) (sys_read (fs_read_dir directory)))
       (\<lambda>names. for_each (collect_entry (collect_files depth workspace) workspace directory) names files))"

definition collect_directory ::
  "path \<Rightarrow> string \<Rightarrow> path list \<Rightarrow> (world, path list, workspace_error) act" where
  "collect_directory workspace directory_name files =
     (let directory = path_join workspace (path_of directory_name) in
      and_then (with_err (InspectDirectory directory_name) (optional_metadata directory)) (\<lambda>found.
      case found of
        None \<Rightarrow> ret files
      | Some metadata \<Rightarrow>
          if is_symlink metadata then fail (DirectorySymlink directory_name)
          else if is_dir metadata then collect_files max_depth workspace directory files
          else ret files))"

text \<open>\<open>u64::to_le_bytes\<close> of a length, and what the hasher is fed for one file.\<close>

definition le_bytes :: "u64 \<Rightarrow> string" where
  "le_bytes n = List.map (\<lambda>k. char_of (unat (drop_bit (8 * k) n) mod 256)) [0..<8]"

definition framed :: "string \<Rightarrow> string" where
  "framed bytes = le_bytes (word_of_nat (length bytes)) @ bytes"

definition file_record :: "path \<Rightarrow> string \<Rightarrow> string" where
  "file_record relative contents = framed (from_utf8_lossy (relative_text relative)) @ framed contents"

definition hash_file ::
  "path \<Rightarrow> path \<Rightarrow> string \<Rightarrow> (world, string, workspace_error) act" where
  "hash_file workspace path hasher =
     and_then (from_result (ok_or (RelativePath path) (path_strip_prefix path workspace))) (\<lambda>relative.
     and_then (with_err (InspectEntry relative) (sys_read (fs_symlink_metadata path))) (\<lambda>metadata.
     if is_symlink metadata then fail (EntrySymlink relative)
     else if \<not> is_file metadata then fail (FileNotRegular relative)
     else
       and_then (with_err (ReadWorkspaceFile relative) (sys_read (fs_read path))) (\<lambda>contents.
       ret (hasher @ file_record relative contents))))"

definition compute_workspace_fingerprint ::
  "externals \<Rightarrow> path \<Rightarrow> (world, string, workspace_error) act" where
  "compute_workspace_fingerprint X workspace =
     and_then (for_each (collect_root_file workspace) ROOT_FILES []) (\<lambda>files.
     and_then (for_each (collect_directory workspace) SOURCE_DIRECTORIES files) (\<lambda>files.
     and_then (for_each (hash_file workspace) (sort_key (shown workspace) files) []) (\<lambda>hasher.
     ret (hex_text (x_sha256 X hasher)))))"

section \<open>The snapshot\<close>

definition copy_root_file :: "path \<Rightarrow> path \<Rightarrow> string \<Rightarrow> unit \<Rightarrow> (world, unit, workspace_error) act" where
  "copy_root_file workspace snapshot file_name _ =
     (let source = path_join workspace (path_of file_name) in
      and_then (with_err (InspectRootFile file_name) (optional_metadata source)) (\<lambda>found.
      case found of
        None \<Rightarrow> ret ()
      | Some metadata \<Rightarrow>
          if is_symlink metadata then fail (RootFileSymlink file_name)
          else if is_file metadata
          then with_err (CopyFile (path_of file_name)) (sys_copy source (path_join snapshot (path_of file_name)))
          else ret ()))"

definition copy_entry ::
  "(path \<Rightarrow> path \<Rightarrow> (world, unit, workspace_error) act)
   \<Rightarrow> path \<Rightarrow> path \<Rightarrow> path \<Rightarrow> string \<Rightarrow> unit \<Rightarrow> (world, unit, workspace_error) act" where
  "copy_entry copy workspace source destination name _ =
     and_then (with_err ReadEntry (sys_read (\<lambda>_. Ok ()))) (\<lambda>_.
     let source_path = path_join source [Normal name];
         destination_path = path_join destination [Normal name] in
     and_then (with_err (InspectEntry source_path) (sys_read (fs_symlink_metadata source_path)))
       (\<lambda>metadata.
     if is_symlink metadata then fail (EntrySymlink (shown workspace source_path))
     else if is_dir metadata
     then and_then (with_err (CreateSnapshotDirectory destination_path) (sys_create_dir destination_path))
            (\<lambda>_. copy source_path destination_path)
     else if is_file metadata
     then with_err (CopyFile source_path) (sys_copy source_path destination_path)
     else ret ()))"

primrec copy_directory ::
  "nat \<Rightarrow> path \<Rightarrow> path \<Rightarrow> path \<Rightarrow> (world, unit, workspace_error) act" where
  "copy_directory 0 = (\<lambda>workspace source destination.
     fail (ReadDirectory (shown workspace source) name_too_long))"
| "copy_directory (Suc depth) = (\<lambda>workspace source destination.
     and_then (with_err (ReadDirectory (shown workspace source)) (sys_read (fs_read_dir source)))
       (\<lambda>names. for_each
          (copy_entry (copy_directory depth workspace) workspace source destination) names ()))"

definition copy_source_directory ::
  "path \<Rightarrow> path \<Rightarrow> string \<Rightarrow> unit \<Rightarrow> (world, unit, workspace_error) act" where
  "copy_source_directory workspace snapshot directory_name _ =
     (let source = path_join workspace (path_of directory_name) in
      and_then (with_err (InspectDirectory directory_name) (optional_metadata source)) (\<lambda>found.
      case found of
        None \<Rightarrow> ret ()
      | Some metadata \<Rightarrow>
          if is_symlink metadata then fail (DirectorySymlink directory_name)
          else if is_dir metadata
          then
            (let destination = path_join snapshot (path_of directory_name) in
             and_then (with_err (CreateSnapshotDirectory (path_of directory_name)) (sys_create_dir destination))
               (\<lambda>_. copy_directory max_depth workspace source destination))
          else ret ()))"

definition copy_workspace_inputs :: "path \<Rightarrow> path \<Rightarrow> (world, unit, workspace_error) act" where
  "copy_workspace_inputs workspace snapshot =
     and_then (for_each (copy_root_file workspace snapshot) ROOT_FILES ()) (\<lambda>_.
     for_each (copy_source_directory workspace snapshot) SOURCE_DIRECTORIES ())"

definition snapshot_name :: "externals \<Rightarrow> uuid \<Rightarrow> string" where
  "snapshot_name X u =
     ''zyguor-cargo-snapshot-'' @ decimal (unat (x_process_id X)) @ ''-'' @ x_uuid_text X u"

text \<open>\<open>WorkspaceSnapshot::create\<close>, and the \<open>Drop\<close> that removes the copy.\<close>

definition create_snapshot :: "externals \<Rightarrow> path \<Rightarrow> (world, path, workspace_error) act" where
  "create_snapshot X workspace w =
     (case new_uuid w of (u, w1) \<Rightarrow>
        let snapshot_root = path_join (x_temp_dir X) (path_of (snapshot_name X u)) in
        (case with_err CreateSnapshot (sys_create_dir snapshot_root) w1 of
           (Err e, w2) \<Rightarrow> (Err e, w2)
         | (Ok _, w2) \<Rightarrow>
             (case copy_workspace_inputs workspace snapshot_root w2 of
                (Err e, w3) \<Rightarrow> (Err e, ignore_err (sys_remove_dir_all snapshot_root) w3)
              | (Ok _, w3) \<Rightarrow> (Ok snapshot_root, w3))))"

definition drop_snapshot :: "path \<Rightarrow> world \<Rightarrow> world" where
  "drop_snapshot snapshot = ignore_err (sys_remove_dir_all snapshot)"

section \<open>What a fingerprint determines\<close>

lemma le_bytes_inj: "le_bytes a = le_bytes b \<Longrightarrow> a = b"
proof (rule bit_word_eqI)
  fix n assume eq: "le_bytes a = le_bytes b" and n: "n < LENGTH(64)"
  let ?k = "n div 8"
  have "le_bytes a ! ?k = le_bytes b ! ?k" using eq by simp
  moreover have "?k < 8" using n by simp
  ultimately have "char_of (unat (drop_bit (8 * ?k) a) mod 256) = (char_of (unat (drop_bit (8 * ?k) b) mod 256) :: char)"
    by (simp add: le_bytes_def)
  then have "take_bit 8 (unat (drop_bit (8 * ?k) a)) = take_bit 8 (unat (drop_bit (8 * ?k) b))"
    by (simp add: char_of_eq_iff take_bit_eq_mod)
  then have "bit (take_bit 8 (unat (drop_bit (8 * ?k) a))) (n mod 8) =
      bit (take_bit 8 (unat (drop_bit (8 * ?k) b))) (n mod 8)"
    by (rule arg_cong)
  then have "bit a (8 * ?k + n mod 8) = bit b (8 * ?k + n mod 8)"
    by (simp add: bit_take_bit_iff bit_unsigned_iff bit_drop_bit_eq)
  then show "bit a n = bit b n" by simp
qed

lemma length_le_bytes [simp]: "length (le_bytes n) = 8"
  by (simp add: le_bytes_def)

lemma framed_inj:
  assumes "framed a @ r = framed b @ s" and "length a < 2 ^ 64" and "length b < 2 ^ 64"
  shows "a = b \<and> r = s"
proof -
  have head: "le_bytes (word_of_nat (length a)) = le_bytes (word_of_nat (length b))" and tail: "a @ r = b @ s"
    using assms(1) by (simp_all add: framed_def append_eq_append_conv)
  have "(word_of_nat (length a) :: 64 word) = word_of_nat (length b)"
    using head by (rule le_bytes_inj)
  then have "length a = length b"
    using assms(2,3) by (simp add: word_of_nat_eq_iff take_bit_nat_eq_self)
  with tail show ?thesis by simp
qed

text \<open>The name and the contents that are hashed for each file, and the stream they form.\<close>

definition input_record :: "string \<times> string \<Rightarrow> string" where
  "input_record f = framed (fst f) @ framed (snd f)"

definition hash_stream :: "(string \<times> string) list \<Rightarrow> string" where
  "hash_stream inputs = List.concat (List.map input_record inputs)"

definition sized :: "(string \<times> string) list \<Rightarrow> bool" where
  "sized inputs = list_all (\<lambda>f. length (fst f) < 2 ^ 64 \<and> length (snd f) < 2 ^ 64) inputs"

lemma hash_stream_inj:
  "hash_stream xs = hash_stream ys \<Longrightarrow> sized xs \<Longrightarrow> sized ys \<Longrightarrow> xs = ys"
proof (induction xs arbitrary: ys)
  case Nil
  then show ?case
    by (cases ys) (auto simp: hash_stream_def input_record_def framed_def le_bytes_def)
next
  case (Cons x xs)
  show ?case
  proof (cases ys)
    case Nil
    then show ?thesis using Cons.prems by (auto simp: hash_stream_def input_record_def framed_def le_bytes_def)
  next
    case (Cons y ys')
    have "framed (fst x) @ framed (snd x) @ hash_stream xs = framed (fst y) @ framed (snd y) @ hash_stream ys'"
      using Cons.prems(1) Cons by (simp add: hash_stream_def input_record_def)
    moreover have sizes: "length (fst x) < 2 ^ 64" "length (snd x) < 2 ^ 64" "sized xs"
      "length (fst y) < 2 ^ 64" "length (snd y) < 2 ^ 64" "sized ys'"
      using Cons.prems(2,3) Cons by (simp_all add: sized_def)
    ultimately have one: "fst x = fst y \<and> framed (snd x) @ hash_stream xs = framed (snd y) @ hash_stream ys'"
      by (intro framed_inj)
    then have two: "snd x = snd y \<and> hash_stream xs = hash_stream ys'"
      using sizes by (intro framed_inj) simp_all
    then have "xs = ys'" using Cons.IH sizes by blast
    with one two show ?thesis by (simp add: Cons prod_eq_iff)
  qed
qed

text \<open>These files of the workspace, sorted, with the contents they have.\<close>

definition fingerprint_inputs :: "fsys \<Rightarrow> path \<Rightarrow> (string \<times> string) list \<Rightarrow> bool" where
  "fingerprint_inputs fs workspace inputs \<longleftrightarrow>
     (\<exists>files. sorted (List.map (shown workspace) files) \<and>
        list_all2 (\<lambda>p (name, contents). \<exists>relative m. path_strip_prefix p workspace = Some relative \<and>
           name = from_utf8_lossy (relative_text relative) \<and>
           fs_symlink_metadata p fs = Ok m \<and> is_file m \<and> fs_read p fs = Ok contents) files inputs)"

lemma hash_file_Ok:
  assumes "hash_file workspace p h w = (Ok h', w')"
  shows "\<exists>relative m contents. path_strip_prefix p workspace = Some relative \<and>
    fs_symlink_metadata p (w_fs w) = Ok m \<and> is_file m \<and> fs_read p (w_fs w) = Ok contents \<and>
    h' = h @ input_record (from_utf8_lossy (relative_text relative), contents) \<and> w_fs w' = w_fs w"
  using assms unfolding hash_file_def
  by (auto elim!: and_then_OkE simp: with_err_eq_Ok file_record_def input_record_def
      split: if_splits dest!: sys_read_OkD)

lemma hash_files_Ok:
  assumes "for_each (hash_file workspace) files h w = (Ok h', w')"
  shows "\<exists>inputs. h' = h @ hash_stream inputs \<and> w_fs w' = w_fs w \<and>
    list_all2 (\<lambda>p (name, contents). \<exists>relative m. path_strip_prefix p workspace = Some relative \<and>
       name = from_utf8_lossy (relative_text relative) \<and>
       fs_symlink_metadata p (w_fs w) = Ok m \<and> is_file m \<and> fs_read p (w_fs w) = Ok contents) files inputs"
  using assms
proof (induction files arbitrary: h w)
  case Nil
  then show ?case by (intro exI [where x = "[]"]) (simp add: hash_stream_def)
next
  case (Cons p files)
  from Cons.prems obtain h1 w1 where step: "hash_file workspace p h w = (Ok h1, w1)"
    and more: "for_each (hash_file workspace) files h1 w1 = (Ok h', w')"
    by (auto elim: and_then_OkE)
  from hash_file_Ok [OF step] obtain relative m contents where
    first: "path_strip_prefix p workspace = Some relative" "fs_symlink_metadata p (w_fs w) = Ok m"
      "is_file m" "fs_read p (w_fs w) = Ok contents"
      "h1 = h @ input_record (from_utf8_lossy (relative_text relative), contents)" "w_fs w1 = w_fs w"
    by blast
  from Cons.IH [OF more] obtain inputs where rest: "h' = h1 @ hash_stream inputs" "w_fs w' = w_fs w1"
    "list_all2 (\<lambda>p (name, contents). \<exists>relative m. path_strip_prefix p workspace = Some relative \<and>
       name = from_utf8_lossy (relative_text relative) \<and>
       fs_symlink_metadata p (w_fs w1) = Ok m \<and> is_file m \<and> fs_read p (w_fs w1) = Ok contents) files inputs"
    by blast
  show ?case
    using first rest
    by (intro exI [where x = "(from_utf8_lossy (relative_text relative), contents) # inputs"])
      (simp add: hash_stream_def)
qed

lemma reads_only_for_each:
  assumes "for_each body xs acc w = (Ok acc', w')"
    and "\<And>x acc w acc' w'. body x acc w = (Ok acc', w') \<Longrightarrow> w_fs w' = w_fs w"
  shows "w_fs w' = w_fs w"
  using for_each_invariant [OF assms(1), of "\<lambda>_ v. w_fs v = w_fs w"] assms(2) by auto

lemma optional_metadata_fs: "optional_metadata p w = (Ok m, w') \<Longrightarrow> w_fs w' = w_fs w"
  by (auto simp: optional_metadata_def split: prod.splits result.splits if_splits dest: sys_read_fs)

lemma collect_files_fs:
  "collect_files k ws d files w = (Ok files', w') \<Longrightarrow> w_fs w' = w_fs w"
proof (induction k arbitrary: d files w files' w')
  case (Suc k)
  have entry: "w_fs v' = w_fs v"
    if "collect_entry (collect_files k ws) ws d n acc v = (Ok acc', v')" for n acc v acc' v'
    using that unfolding collect_entry_def Let_def
    by (auto elim!: and_then_OkE simp: with_err_eq_Ok split: if_splits dest!: sys_read_OkD Suc.IH)
  from Suc.prems show ?case
    by (auto elim!: and_then_OkE simp: with_err_eq_Ok dest!: sys_read_OkD reads_only_for_each [OF _ entry])
qed simp

lemma collect_root_file_fs: "collect_root_file ws n files w = (Ok files', w') \<Longrightarrow> w_fs w' = w_fs w"
  by (auto simp: collect_root_file_def Let_def with_err_eq_Ok elim!: and_then_OkE
      split: option.splits if_splits dest!: optional_metadata_fs)

lemma collect_directory_fs: "collect_directory ws n files w = (Ok files', w') \<Longrightarrow> w_fs w' = w_fs w"
  by (auto simp: collect_directory_def Let_def with_err_eq_Ok elim!: and_then_OkE
      split: option.splits if_splits dest!: optional_metadata_fs collect_files_fs)

lemma fingerprint_Ok:
  assumes "compute_workspace_fingerprint X ws w = (Ok f, w')"
  shows "\<exists>inputs. fingerprint_inputs (w_fs w) ws inputs \<and> f = hex_text (x_sha256 X (hash_stream inputs))"
proof -
  from assms obtain files files' h w1 w2 w3 where
    roots: "for_each (collect_root_file ws) ROOT_FILES [] w = (Ok files', w1)"
    and dirs: "for_each (collect_directory ws) SOURCE_DIRECTORIES files' w1 = (Ok files, w2)"
    and hash: "for_each (hash_file ws) (sort_key (shown ws) files) [] w2 = (Ok h, w3)"
    and f: "f = hex_text (x_sha256 X h)"
    unfolding compute_workspace_fingerprint_def by (auto elim!: and_then_OkE)
  have fs: "w_fs w2 = w_fs w"
    using reads_only_for_each [OF roots collect_root_file_fs]
      reads_only_for_each [OF dirs collect_directory_fs] by simp
  from hash_files_Ok [OF hash] obtain inputs where inputs: "h = hash_stream inputs"
    "list_all2 (\<lambda>p (name, contents). \<exists>relative m. path_strip_prefix p ws = Some relative \<and>
       name = from_utf8_lossy (relative_text relative) \<and>
       fs_symlink_metadata p (w_fs w2) = Ok m \<and> is_file m \<and> fs_read p (w_fs w2) = Ok contents)
       (sort_key (shown ws) files) inputs"
    by auto
  have "fingerprint_inputs (w_fs w) ws inputs"
    unfolding fingerprint_inputs_def
    using inputs(2) fs by (intro exI [where x = "sort_key (shown ws) files"]) simp
  then show ?thesis using f inputs(1) by blast
qed

lemma fingerprint_streams:
  assumes "compute_workspace_fingerprint X a w = (Ok f, w')"
    and "compute_workspace_fingerprint X b v = (Ok f, v')"
  shows "\<exists>s t. fingerprint_inputs (w_fs w) a s \<and> fingerprint_inputs (w_fs v) b t \<and>
    (sized s \<and> sized t \<and> s \<noteq> t \<longrightarrow>
       hash_stream s \<noteq> hash_stream t \<and> x_sha256 X (hash_stream s) = x_sha256 X (hash_stream t))"
proof -
  from fingerprint_Ok [OF assms(1)] fingerprint_Ok [OF assms(2)] obtain s t where
    "fingerprint_inputs (w_fs w) a s" "f = hex_text (x_sha256 X (hash_stream s))"
    "fingerprint_inputs (w_fs v) b t" "f = hex_text (x_sha256 X (hash_stream t))"
    by blast
  then show ?thesis
    using hash_stream_inj by (metis hex_text_inj)
qed

section \<open>Properties\<close>



end
