(* ===== verification/CargoTest.thy ===== *)
theory CargoTest
  imports Workspace FileSystem Samples
begin

text \<open>
  \<open>cargo_test.rs\<close>: a bounded \<open>cargo test\<close> on a snapshot of the workspace.  The child
  process is the parameter \<open>x_spawn_cargo\<close>; the loop that polls it ends because every round
  sleeps, which \<open>poll_loop\<close>'s termination proof shows.  What the child does beyond filling its
  two capture files is outside the model.
\<close>

section \<open>Capture files and bounded reading\<close>

datatype cargo_error =
    CargoWorkspace workspace_error
  | FingerprintSnapshot workspace_error
  | SnapshotMismatch
  | PidTooLarge
  | TerminateGroup io_error
  | CreateCapture string io_error
  | OpenCapture io_error
  | ReadOutput io_error
  | RemoveCapture path io_error
  | StartCargo io_error
  | PollCargo io_error
  | WaitCargo io_error

text \<open>\<open>killpg\<close>; an answer \<open>ESRCH\<close> (no such process group) counts as success.\<close>

definition esrch :: io_error where "esrch = OtherIo ''No such process''"

definition terminate_process_group :: "child_process \<Rightarrow> nat \<Rightarrow> (unit, cargo_error) result" where
  "terminate_process_group child attempt =
     (if unat (ch_pid child) \<ge> 2 ^ 31 then Err PidTooLarge
      else
        (case ch_kill child attempt of
           Ok _ \<Rightarrow> Ok ()
         | Err error \<Rightarrow> if error = esrch then Ok () else Err (TerminateGroup error)))"

definition capture_name :: "externals \<Rightarrow> string \<Rightarrow> uuid \<Rightarrow> string" where
  "capture_name X label u =
     ''zyguor-cargo-'' @ label @ ''-'' @ decimal (unat (x_process_id X)) @ ''-'' @ x_uuid_text X u @ ''.log''"

definition create_capture_file ::
  "externals \<Rightarrow> string \<Rightarrow> (world, path \<times> nat, cargo_error) act" where
  "create_capture_file X label w =
     (case new_uuid w of (u, w1) \<Rightarrow>
        let path = path_join (x_temp_dir X) (path_of (capture_name X label u)) in
        and_then (with_err (CreateCapture label) (sys_create_new path mode_owner_only))
          (\<lambda>file. ret (path, file)) w1)"

text \<open>
  The reader yields the pieces of successive \<open>read\<close> calls, none longer than the buffer; an
  empty piece is the end of the stream.
\<close>

fun read_bounded_loop ::
  "usize \<Rightarrow> (string, io_error) result list \<Rightarrow> string \<Rightarrow> bool \<Rightarrow> (string \<times> bool, cargo_error) result"
where
  "read_bounded_loop maximum_bytes [] captured truncated = Ok (captured, truncated)"
| "read_bounded_loop maximum_bytes (Err e # pieces) captured truncated = Err (ReadOutput e)"
| "read_bounded_loop maximum_bytes (Ok buffer # pieces) captured truncated =
     (let bytes_read = length buffer in
      if bytes_read = 0 then Ok (captured, truncated)
      else
        (let remaining = unat maximum_bytes - length captured;
             bytes_to_keep = min bytes_read remaining
         in read_bounded_loop maximum_bytes pieces
              (if bytes_to_keep > 0 then captured @ take bytes_to_keep buffer else captured)
              (truncated \<or> bytes_to_keep < bytes_read)))"

definition read_bounded ::
  "usize \<Rightarrow> (string, io_error) result list \<Rightarrow> (string \<times> bool, cargo_error) result" where
  "read_bounded maximum_bytes pieces =
     bind_result (read_bounded_loop maximum_bytes pieces [] False) (\<lambda>(captured, truncated).
     Ok (from_utf8_lossy captured, truncated))"

definition buffer_size :: nat where "buffer_size = 8192"

text \<open>The pieces a regular file is read in.\<close>

function pieces_of :: "string \<Rightarrow> string list" where
  "pieces_of bytes =
     (if bytes = [] then [] else take buffer_size bytes # pieces_of (drop buffer_size bytes))"
  by pat_completeness auto
termination
  by (relation "measure length") (auto simp: buffer_size_def)

declare pieces_of.simps [simp del]

definition read_capture_file ::
  "path \<Rightarrow> usize \<Rightarrow> (world, string \<times> bool, cargo_error) act" where
  "read_capture_file path maximum_bytes =
     and_then (with_err OpenCapture (sys_read (fs_lookup True path))) (\<lambda>file.
     and_then (with_err ReadOutput (sys_read (file_bytes file))) (\<lambda>bytes.
     from_result (read_bounded maximum_bytes (List.map Ok (pieces_of bytes)))))"

definition remove_capture_file :: "path \<Rightarrow> (world, unit, cargo_error) act" where
  "remove_capture_file path w =
     (case sys_remove_file path w of
        (Ok _, w1) \<Rightarrow> (Ok (), w1)
      | (Err error, w1) \<Rightarrow>
          (if error = NotFound then (Ok (), w1) else (Err (RemoveCapture path error), w1)))"

section \<open>The environment of the child\<close>

definition ALLOWED_ENVIRONMENT :: "string list" where
  "ALLOWED_ENVIRONMENT = [''PATH'', ''HOME'', ''CARGO_HOME'', ''RUSTUP_HOME'', ''TMPDIR'']"

definition configure_cargo_environment_from :: "(string \<times> string) list \<Rightarrow> (string \<times> string) list" where
  "configure_cargo_environment_from environment =
     filter (\<lambda>(name, value). list_ex (\<lambda>allowed_name. name = allowed_name) ALLOWED_ENVIRONMENT) environment"

definition configure_cargo_environment :: "externals \<Rightarrow> (string \<times> string) list" where
  "configure_cargo_environment X = configure_cargo_environment_from (x_env X)"

section \<open>Waiting for the child\<close>

text \<open>
  One round polls, checks the clock and sleeps 25 ms.  A round that sleeps leaves the clock below
  the deadline at least 25 ms later than before, so only finitely many can follow.
\<close>

definition poll_interval :: nat where "poll_interval = 25 * 1000000"

function poll_loop ::
  "nat \<Rightarrow> child_process \<Rightarrow> nat \<Rightarrow> nat \<Rightarrow> world
   \<Rightarrow> ((exit_status, cargo_error) result \<times> bool) \<times> world"
where
  "poll_loop timeout child started round w =
     (case ch_poll child round of
        Ok (Some status) \<Rightarrow> ((Ok status, False), w)
      | Err error \<Rightarrow> ((Err (PollCargo error), False), w)
      | Ok None \<Rightarrow>
          (case instant_now w of (now, w1) \<Rightarrow>
             if now - started \<ge> timeout then
               (case terminate_process_group child 0 of
                  Err error \<Rightarrow> ((Err error, True), w1)
                | Ok _ \<Rightarrow>
                    (case ch_wait child of
                       Ok status \<Rightarrow> ((Ok status, True), w1)
                     | Err error \<Rightarrow> ((Err (WaitCargo error), True), w1)))
             else poll_loop timeout child started (Suc round) (sleep poll_interval w1)))"
  by pat_completeness auto
termination
  by (relation "measure (\<lambda>(timeout, child, started, round, w). started + timeout - w_now w)")
    (auto simp: instant_now_def sleep_def poll_interval_def Let_def tick_def)

declare poll_loop.simps [simp del]

section \<open>Running\<close>

definition collect_output ::
  "cargo_test_config \<Rightarrow> path \<Rightarrow> path \<Rightarrow> exit_status \<Rightarrow> bool \<Rightarrow> nat
   \<Rightarrow> (world, cargo_test_result, cargo_error) act" where
  "collect_output config stdout_path stderr_path status timed_out started w =
     (case read_capture_file stdout_path (cc_max_stdout_bytes config) w of (stdout_result, w1) \<Rightarrow>
      case read_capture_file stderr_path (cc_max_stderr_bytes config) w1 of (stderr_result, w2) \<Rightarrow>
      case remove_capture_file stdout_path w2 of (stdout_cleanup, w3) \<Rightarrow>
      case remove_capture_file stderr_path w3 of (stderr_cleanup, w4) \<Rightarrow>
      and_then (from_result stdout_result) (\<lambda>(stdout, stdout_truncated).
      and_then (from_result stderr_result) (\<lambda>(stderr, stderr_truncated).
      and_then (from_result stdout_cleanup) (\<lambda>_.
      and_then (from_result stderr_cleanup) (\<lambda>_ w5.
      case instant_now w5 of (now, w6) \<Rightarrow>
        (case status of ExitStatus success code \<Rightarrow>
           (Ok \<lparr>ct_success = success \<and> \<not> timed_out, ct_exit_code = code, ct_timed_out = timed_out,
                ct_stdout = stdout, ct_stderr = stderr, ct_stdout_truncated = stdout_truncated,
                ct_stderr_truncated = stderr_truncated,
                ct_duration_ms = elapsed_ms started now\<rparr>, w6)))))) w4)"

text \<open>
  The child is running: its output goes to the two files.  After an error of the loop the source
  also kills and reaps the child and drops both results; that touches nothing of this state.
\<close>

definition supervise ::
  "cargo_test_config \<Rightarrow> child_process \<Rightarrow> path \<Rightarrow> path \<Rightarrow> nat \<Rightarrow> nat \<Rightarrow> nat
   \<Rightarrow> (world, cargo_test_result, cargo_error) act" where
  "supervise config child stdout_path stderr_path stdout_file stderr_file started w =
     (let w1 = w\<lparr>w_fs := fs_append stderr_file (ch_stderr child)
                            (fs_append stdout_file (ch_stdout child) (w_fs w))\<rparr> in
      case poll_loop (cc_timeout config) child started 0 w1 of
        ((Err error, timed_out), w2) \<Rightarrow>
          (Err error, ignore_err (remove_capture_file stderr_path)
                        (ignore_err (remove_capture_file stdout_path) w2))
      | ((Ok status, timed_out), w2) \<Rightarrow>
          and_then
            (from_result (if \<not> timed_out then terminate_process_group child 1 else Ok ()))
            (\<lambda>_. collect_output config stdout_path stderr_path status timed_out started) w2)"

definition run_in_snapshot ::
  "externals \<Rightarrow> cargo_test_config \<Rightarrow> path \<Rightarrow> string \<Rightarrow> nat
   \<Rightarrow> (world, cargo_test_result, cargo_error) act" where
  "run_in_snapshot X config snapshot expected_fingerprint started =
     and_then (with_err FingerprintSnapshot (compute_workspace_fingerprint X snapshot))
       (\<lambda>snapshot_fingerprint.
     if snapshot_fingerprint \<noteq> expected_fingerprint then fail SnapshotMismatch
     else
       and_then (create_capture_file X ''stdout'') (\<lambda>(stdout_path, stdout_file) w.
       case create_capture_file X ''stderr'' w of
         (Err error, w1) \<Rightarrow> (Err error, ignore_err (remove_capture_file stdout_path) w1)
       | (Ok (stderr_path, stderr_file), w1) \<Rightarrow>
           (case x_spawn_cargo X (w_tick w1) snapshot (configure_cargo_environment X) of
              Err error \<Rightarrow>
                (Err (StartCargo error),
                 ignore_err (remove_capture_file stderr_path)
                   (ignore_err (remove_capture_file stdout_path) (tick w1)))
            | Ok child \<Rightarrow>
                supervise config child stdout_path stderr_path stdout_file stderr_file started
                  (emit (EvCargo snapshot_fingerprint) (tick w1)))))"

definition cargo_run ::
  "externals \<Rightarrow> cargo_test_config \<Rightarrow> path \<Rightarrow> string \<Rightarrow> (world, cargo_test_result, cargo_error) act"
where
  "cargo_run X config workspace expected_fingerprint w =
     (case instant_now w of (started, w1) \<Rightarrow>
        case with_err CargoWorkspace (create_snapshot X workspace) w1 of
          (Err error, w2) \<Rightarrow> (Err error, w2)
        | (Ok snapshot, w2) \<Rightarrow>
            (case run_in_snapshot X config snapshot expected_fingerprint started w2 of
               (r, w3) \<Rightarrow> (r, drop_snapshot snapshot w3)))"

section \<open>Properties\<close>

text \<open>The two bounded readers of the gateway are the same loop.\<close>

lemma read_bounded_loop_alt:
  "read_bounded_loop m pieces captured truncated =
     map_err ReadOutput (read_loop (unat m) captured truncated pieces)"
  by (induction m pieces captured truncated rule: read_bounded_loop.induct)
    (auto simp: Let_def min_def)

lemma stream_of_pieces: "stream_bytes (List.map Ok (pieces_of bytes)) = Ok bytes"
proof (induction bytes rule: pieces_of.induct)
  case (1 bytes)
  then show ?case
    by (subst pieces_of.simps) (auto simp: buffer_size_def)
qed

lemma read_bounded_pieces:
  "read_bounded m (List.map Ok (pieces_of bytes)) =
     Ok (from_utf8_lossy (take (unat m) bytes), unat m < length bytes)"
  by (simp add: read_bounded_def read_bounded_loop_alt read_loop_spec stream_of_pieces)

text \<open>C36: a capture file that is read gives the text of its first bytes up to the
  limit, and the flag says exactly whether the file was longer.\<close>

theorem captured_output:
  assumes "read_capture_file path maximum w = (Ok (output, truncated), w')"
  shows "\<exists>i bytes. fs_lookup True path (w_fs w) = Ok i \<and> file_content (w_fs w) i = Some bytes \<and>
    output = from_utf8_lossy (take (unat maximum) bytes) \<and> truncated = (unat maximum < length bytes)"
  using assms unfolding read_capture_file_def
  by (auto elim!: and_then_OkE simp: with_err_eq_Ok read_bounded_pieces file_bytes_def
      split: option.splits dest!: sys_read_OkD)

theorem captured_output_witness:
  "\<exists>i bytes. fs_lookup True [RootDir, Normal ''work'', Normal ''Cargo.toml''] sample_fs = Ok i \<and>
    file_content sample_fs i = Some bytes \<and> ''[pac'' = from_utf8_lossy (take 4 bytes) \<and> True = (4 < length bytes)"
proof -
  have "fst (read_capture_file [RootDir, Normal ''work'', Normal ''Cargo.toml''] 4 sample_world) = Ok (''[pac'', True)"
    by code_simp
  then obtain w' where
    "read_capture_file [RootDir, Normal ''work'', Normal ''Cargo.toml''] 4 sample_world = (Ok (''[pac'', True), w')"
    by (metis prod.collapse)
  from captured_output [OF this] show ?thesis by (simp add: sample_world_def)
qed

lemma poll_loop_bound:
  "poll_loop timeout child started k w = ((r, timed_out), w') \<Longrightarrow>
   (if timed_out then timeout \<le> w_now w' - started
    else \<exists>n\<ge>k. ch_poll child n \<noteq> Ok None \<and> (\<forall>j. k \<le> j \<and> j < n \<longrightarrow> ch_poll child j = Ok None) \<and>
      (n - k) * poll_interval \<le> (started + timeout + poll_interval) - w_now w)"
proof (induction timeout child started k w arbitrary: r timed_out w' rule: poll_loop.induct)
  case (1 timeout child started k w)
  obtain now w1 where now: "instant_now w = (now, w1)" by fastforce
  have clock: "w_now w1 = now" "w_now w \<le> now" using now by (auto simp: instant_now_def Let_def)
  show ?case
  proof (cases "ch_poll child k = Ok None \<and> \<not> timeout \<le> now - started")
    case True
    let ?w2 = "sleep poll_interval w1"
    have run: "poll_loop timeout child started (Suc k) ?w2 = ((r, timed_out), w')"
      using "1.prems" now True by (subst (asm) poll_loop.simps) simp
    note IH = "1.IH" [OF _ _ now [symmetric] _ run]
    show ?thesis
    proof (cases timed_out)
      case True
      then show ?thesis using IH \<open>ch_poll child k = Ok None \<and> _\<close> by simp
    next
      case False
      then obtain n where n: "n \<ge> Suc k" "ch_poll child n \<noteq> Ok None"
        "\<forall>j. Suc k \<le> j \<and> j < n \<longrightarrow> ch_poll child j = Ok None"
        "(n - Suc k) * poll_interval \<le> (started + timeout + poll_interval) - w_now ?w2"
        using IH True by auto
      have "\<forall>j. k \<le> j \<and> j < n \<longrightarrow> ch_poll child j = Ok None"
        using n(3) True by (metis le_antisym not_less_eq_eq)
      moreover have "(n - k) * poll_interval = (n - Suc k) * poll_interval + poll_interval"
        using n(1) by (metis Suc_diff_le diff_Suc_Suc mult_Suc add.commute)
      moreover have "now < started + timeout" using True by linarith
      ultimately show ?thesis
        using n False clock by (intro if_not_P [THEN iffD2] exI [where x = n]) (auto simp: sleep_def)
    qed
  next
    case False
    then show ?thesis
      using "1.prems" now clock
      by (subst (asm) poll_loop.simps)
        (auto split: result.splits option.splits intro!: exI [where x = k])
  qed
qed

text \<open>C37: waiting for Cargo always returns.  It reports a timeout only when the deadline
  has passed, and otherwise after a number of 25 ms rounds that fits into the configured time and
  one round more.\<close>

theorem polling_ends:
  "case poll_loop timeout child started 0 w of
     ((_, timed_out), w') \<Rightarrow>
       (if timed_out then timeout \<le> w_now w' - started
        else (LEAST n. ch_poll child n \<noteq> Ok None) * poll_interval
               \<le> (started + timeout + poll_interval) - w_now w)"
proof -
  obtain r timed_out w' where run: "poll_loop timeout child started 0 w = ((r, timed_out), w')"
    by (metis surj_pair)
  show ?thesis
  proof (cases timed_out)
    case False
    then obtain n where n: "ch_poll child n \<noteq> Ok None" "\<forall>j. 0 \<le> j \<and> j < n \<longrightarrow> ch_poll child j = Ok None"
      "(n - 0) * poll_interval \<le> (started + timeout + poll_interval) - w_now w"
      using poll_loop_bound [OF run] by auto
    have "(LEAST n. ch_poll child n \<noteq> Ok None) = n"
      using n(1,2) by (intro Least_equality) (auto simp: not_less [symmetric])
    then show ?thesis using n(3) False by (simp add: run)
  qed (use poll_loop_bound [OF run] in \<open>simp add: run\<close>)
qed

end
