(* ===== verification/Sandbox.thy ===== *)
theory Sandbox
  imports Http Samples
begin

text \<open>
  \<open>sandbox.rs\<close>: an addition as a WebAssembly call with fuel, memory and time limits.  The
  engine is the parameter \<open>wasmtime\<close>; what the source decides is the module, the limits and
  the order of the calls.
\<close>

datatype sandbox_error =
    EngineFailed string
  | CompileFailed string
  | FuelFailed string
  | InstantiateFailed string
  | LoadAddFailed string
  | TimerFailed
  | WasmFailed string

definition text_lines :: "string list \<Rightarrow> string" where
  "text_lines ls = List.concat (List.map (\<lambda>l. l @ [CHR 0x0A]) ls)"

definition add_module :: string where
  "add_module = text_lines
     [[],
      ''            (module'',
      ''                (func (export \"add\") (param i32 i32) (result i32)'',
      ''                    local.get 0'',
      ''                    local.get 1'',
      ''                    i32.add'',
      ''                )'',
      ''            )''] @ ''        ''"

text \<open>The store: its fuel, its memory bound, one epoch until the deadline, and the timer.\<close>

definition sandbox_limits :: "sandbox_config \<Rightarrow> wasm_limits" where
  "sandbox_limits config =
     \<lparr>wl_fuel = sb_fuel_limit config, wl_memory_bytes = sb_memory_limit_bytes config,
      wl_epoch_deadline = 1, wl_timeout = sb_timeout config\<rparr>"

definition run_addition ::
  "externals \<Rightarrow> sandbox_config \<Rightarrow> i32 \<Rightarrow> i32 \<Rightarrow> (world, i32, sandbox_error) act" where
  "run_addition X config left right w =
     (let W = x_wasm X; limits = sandbox_limits config in
      and_then (from_result (map_err EngineFailed (wm_engine W True True))) (\<lambda>_.
      and_then (from_result (map_err CompileFailed (wm_module W add_module))) (\<lambda>_.
      and_then (from_result (map_err FuelFailed (wm_set_fuel W (sb_fuel_limit config)))) (\<lambda>_.
      and_then (from_result (map_err InstantiateFailed (wm_instance W (w_tick w) limits add_module))) (\<lambda>_.
      and_then (from_result (map_err LoadAddFailed (wm_typed_func W add_module ''add''))) (\<lambda>_.
      let execution_result = wm_call W (w_tick w) limits add_module ''add'' left right in
      if \<not> wm_timer_joined W (w_tick w) then fail TimerFailed
      else from_result (map_err WasmFailed execution_result)))))) (tick w))"

definition execute_add ::
  "externals \<Rightarrow> sandbox_config \<Rightarrow> add_arguments \<Rightarrow> (world, i32, sandbox_error) act" where
  "execute_add X config arguments = run_addition X config (add_left arguments) (add_right arguments)"

text \<open>What the WebAssembly specification says of the module.\<close>

definition wasm_adds :: "wasmtime \<Rightarrow> bool" where
  "wasm_adds W \<longleftrightarrow>
     (\<forall>t limits l r v. wm_call W t limits add_module ''add'' l r = Ok v \<longrightarrow> v = l + r)"

lemma run_addition_Ok:
  assumes "run_addition X config l r w = (Ok v, w')"
  shows "wm_call (x_wasm X) (w_tick w) (sandbox_limits config) add_module ''add'' l r = Ok v"
    and "w' = tick w"
  using assms unfolding run_addition_def Let_def
  by (auto elim!: and_then_OkE split: if_splits)

lemma run_addition_world: "snd (run_addition X config l r w) = tick w"
  by (auto simp: run_addition_def Let_def and_then_def split: prod.splits result.splits)

section \<open>Properties\<close>



end
