(* ===== verification/GitStatus.thy ===== *)
theory GitStatus
  imports AuditLog
begin

text \<open>
  \<open>git.rs\<close>: the status of the repository that is exactly the workspace, with a bound on the
  number of entries.  The repository itself is the parameter \<open>x_git_open\<close>.
\<close>

definition MAX_GIT_STATUS_ENTRIES :: nat where "MAX_GIT_STATUS_ENTRIES = 10000"

datatype git_error =
    OpenRepository string
  | ResolveWorkspace io_error
  | ResolveGitDirectory io_error
  | GitDirectoryOutside
  | BareRepository
  | ResolveWorktree io_error
  | WorktreeMismatch
  | ReadStatus string
  | TooManyEntries nat
  | StatusPath string

definition ensure_status_entry_capacity :: "nat \<Rightarrow> nat \<Rightarrow> (unit, git_error) result" where
  "ensure_status_entry_capacity current_count maximum =
     (if current_count \<ge> maximum then Err (TooManyEntries maximum) else Ok ())"

text \<open>The pushes of one entry, in the order of the source.\<close>

definition flag_changes :: "git_status_flag list \<Rightarrow> (git_status_flag \<times> git_change) list \<Rightarrow> git_change list"
where
  "flag_changes status table =
     List.concat (List.map (\<lambda>(flag, change). if flag \<in> set status then [change] else []) table)"

definition index_changes :: "git_status_flag list \<Rightarrow> git_change list" where
  "index_changes status =
     flag_changes status [(IndexNew, NewChange), (IndexModified, Modified), (IndexDeleted, Deleted),
       (IndexRenamed, Renamed), (IndexTypechange, Typechange)]"

definition worktree_changes :: "git_status_flag list \<Rightarrow> git_change list" where
  "worktree_changes status =
     flag_changes status [(WtNew, NewChange), (WtModified, Modified), (WtDeleted, Deleted),
       (WtRenamed, Renamed), (WtTypechange, Typechange)]"

fun collect_status :: "git_entry list \<Rightarrow> git_status_entry list \<Rightarrow> (git_status_entry list, git_error) result"
where
  "collect_status [] entries = Ok entries"
| "collect_status (entry # rest) entries =
     bind_result (ensure_status_entry_capacity (length entries) MAX_GIT_STATUS_ENTRIES) (\<lambda>_.
     bind_result (map_err StatusPath (gi_path entry)) (\<lambda>path.
     collect_status rest
       (entries @ [\<lparr>ge_path = path, ge_index = index_changes (gi_status entry),
                    ge_worktree = worktree_changes (gi_status entry)\<rparr>])))"

definition read_git_status :: "externals \<Rightarrow> path \<Rightarrow> (world, git_status_result, git_error) act" where
  "read_git_status X repository_path =
     and_then (\<lambda>w. (map_err OpenRepository (x_git_open X (w_tick w) repository_path), tick w)) (\<lambda>repository.
     and_then (with_err ResolveWorkspace (sys_read (fs_canonicalize repository_path))) (\<lambda>authorized_root.
     and_then (with_err ResolveGitDirectory (sys_read (fs_canonicalize (gp_path repository)))) (\<lambda>git_directory.
     if \<not> path_starts_with git_directory authorized_root then fail GitDirectoryOutside
     else
       and_then (from_result (ok_or BareRepository (gp_workdir repository))) (\<lambda>workdir.
       and_then (with_err ResolveWorktree (sys_read (fs_canonicalize workdir))) (\<lambda>worktree.
       if worktree \<noteq> authorized_root then fail WorktreeMismatch
       else
         (let branch = (case gp_head repository of
                          Ok shorthand \<Rightarrow> (case shorthand of Ok s \<Rightarrow> Some s | Err _ \<Rightarrow> None)
                        | Err _ \<Rightarrow> None) in
          and_then (from_result (map_err ReadStatus (gp_statuses repository))) (\<lambda>statuses.
          and_then (from_result (collect_status statuses [])) (\<lambda>entries.
          ret \<lparr>gr_branch = branch, gr_entries = entries\<rparr>))))))))"

lemma collect_status_Ok:
  assumes "collect_status raw entries = Ok out"
  shows "\<exists>more. out = entries @ more \<and> length more = length raw \<and>
    (raw \<noteq> [] \<longrightarrow> length out \<le> MAX_GIT_STATUS_ENTRIES) \<and>
    (\<forall>k<length raw. gi_path (raw ! k) = Ok (ge_path (more ! k)) \<and>
       ge_index (more ! k) = index_changes (gi_status (raw ! k)) \<and>
       ge_worktree (more ! k) = worktree_changes (gi_status (raw ! k)))"
  using assms
proof (induction raw arbitrary: entries)
  case (Cons e raw)
  from Cons.prems obtain p where cap: "length entries < MAX_GIT_STATUS_ENTRIES"
    and p: "gi_path e = Ok p"
    and next_step: "collect_status raw (entries @ [\<lparr>ge_path = p, ge_index = index_changes (gi_status e),
                    ge_worktree = worktree_changes (gi_status e)\<rparr>]) = Ok out"
    by (auto simp: ensure_status_entry_capacity_def elim!: bind_result_OkE split: if_splits)
  from Cons.IH [OF next_step] obtain more where more:
    "out = entries @ [\<lparr>ge_path = p, ge_index = index_changes (gi_status e),
                    ge_worktree = worktree_changes (gi_status e)\<rparr>] @ more"
    "length more = length raw"
    "raw \<noteq> [] \<longrightarrow> length out \<le> MAX_GIT_STATUS_ENTRIES"
    "\<forall>k<length raw. gi_path (raw ! k) = Ok (ge_path (more ! k)) \<and>
       ge_index (more ! k) = index_changes (gi_status (raw ! k)) \<and>
       ge_worktree (more ! k) = worktree_changes (gi_status (raw ! k))"
    by auto
  show ?case
    using more cap p
    by (intro exI [where x = "\<lparr>ge_path = p, ge_index = index_changes (gi_status e),
                    ge_worktree = worktree_changes (gi_status e)\<rparr> # more"])
      (auto simp: nth_Cons split: nat.splits)
qed simp

section \<open>Properties\<close>

text \<open>C39: a status that is reported has one entry per entry of the repository, in
  its order and with its changes, and never more than ten thousand; a repository with more is an
  error.\<close>

theorem git_entries:
  "case collect_status raw [] of
     Ok entries \<Rightarrow> length entries = length raw \<and> length entries \<le> 10000 \<and>
       List.map (\<lambda>e. Ok (ge_path e)) entries = List.map gi_path raw \<and>
       List.map ge_index entries = List.map (index_changes \<circ> gi_status) raw \<and>
       List.map ge_worktree entries = List.map (worktree_changes \<circ> gi_status) raw
   | Err e \<Rightarrow> list_ex (\<lambda>g. is_err (gi_path g)) raw \<or> 10000 < length raw"
proof (cases "collect_status raw []")
  case (Ok out)
  from collect_status_Ok [OF Ok] show ?thesis
    by (cases "raw = []") (auto simp: Ok MAX_GIT_STATUS_ENTRIES_def intro!: nth_equalityI)
next
  case (Err e)
  have "is_err (collect_status raw acc) \<Longrightarrow> length acc \<le> 10000 \<Longrightarrow>
      list_ex (\<lambda>g. is_err (gi_path g)) raw \<or> 10000 < length acc + length raw" for acc
  proof (induction raw arbitrary: acc)
    case (Cons g raw)
    show ?case
    proof (cases "length acc = 10000 \<or> is_err (gi_path g)")
      case False
      then obtain p where "gi_path g = Ok p" by (auto simp: not_is_err)
      then show ?thesis
        using Cons.IH [of "acc @ [\<lparr>ge_path = p, ge_index = index_changes (gi_status g),
            ge_worktree = worktree_changes (gi_status g)\<rparr>]"] Cons.prems False
        by (auto simp: ensure_status_entry_capacity_def MAX_GIT_STATUS_ENTRIES_def)
    qed auto
  qed simp
  from this [of "[]"] show ?thesis by (simp add: Err)
qed

end
