(* ===== verification/Gateway.thy ===== *)
theory Gateway
  imports Persistence CargoTest Sandbox GitStatus
begin

text \<open>
  The request path of \<open>main.rs\<close>: building a request from the parameters of the MCP tool, the
  policy evaluation, the review that is stored when the policy asks for one, and the audited
  execution of what it allows.
\<close>

section \<open>State\<close>

text \<open>
  What the handlers share: the store behind its mutex, the two mutexes' poison flags, and the world.
  The tool struct \<open>ZyguorGateway\<close> holds the capability, the configuration and the audit sink.
\<close>

record gateway_state =
  gs_store :: pending_review_store
  gs_store_poisoned :: bool
  gs_audit_poisoned :: bool
  gs_world :: world

type_synonym ('a, 'e) handler = "(gateway_state, 'a, 'e) act"

record zyguor_gateway =
  zg_filesystem :: file_system_capability
  zg_config :: gateway_config
  zg_audit :: "audit_record \<Rightarrow> (world, unit, audit_error) act"

definition on_world :: "(world, 'a, 'e) act \<Rightarrow> ('a, 'e) handler" where
  "on_world m gs = (case m (gs_world gs) of (r, w') \<Rightarrow> (r, gs\<lparr>gs_world := w'\<rparr>))"

definition on_store :: "(pending_review_store \<times> world, 'a, 'e) act \<Rightarrow> ('a, 'e) handler" where
  "on_store m gs =
     (case m (gs_store gs, gs_world gs) of
        (r, (st', w')) \<Rightarrow> (r, gs\<lparr>gs_store := st', gs_world := w'\<rparr>))"

text \<open>A critical section of the store: a poisoned mutex is an error before anything happens.\<close>

definition locked :: "'e \<Rightarrow> ('a, 'e) handler \<Rightarrow> ('a, 'e) handler" where
  "locked poisoned m gs = (if gs_store_poisoned gs then (Err poisoned, gs) else m gs)"

section \<open>Errors\<close>

datatype audit_failure = AuditLockPoisoned | SinkFailed audit_error

datatype operation_error =
    HttpFailed http_error
  | SandboxFailed sandbox_error
  | FileFailed fs_error
  | GitFailed git_error
  | GitNotSerialized string
  | CargoFailed cargo_error
  | NotEnabled string
  | PostRequired

datatype gateway_error =
    RequiresArgument string string
  | EmptyArgument string string
  | UnsupportedHttpMethod string
  | HttpGetBody
  | UnsupportedOperation string
  | MessageEmpty
  | MessageTooLong
  | AuditRecordFailed audit_phase
  | AuditPersistFailed audit_phase audit_failure
  | ResponseNotSerialized string
  | StoreFailed store_error
  | FingerprintFailed workspace_error
  | CaptureFailed fs_error
  | ReviewNotFound
  | ClaimedReviewNotFound
  | NotReviewable
  | WriteTargetInvalid fs_error
  | MissingWriteState
  | WriteStateUnverified fs_error
  | WriteTargetChanged
  | CargoWorkspaceInvalid fs_error
  | MissingReviewFingerprint
  | FingerprintUnverified workspace_error
  | WorkspaceChanged
  | HttpDestinationInvalid http_error
  | NotApprovable
  | RestoreFailed gateway_error store_error
  | RejectionNotConsumed consume_claimed_failure
  | OperationNotConsumed consume_claimed_failure
  | ReconciliationNotConsumed store_error
  | NoResult
  | UnexpectedResult

section \<open>Parameters and requests\<close>

record execution_arguments_params =
  ea_left :: "i32 option"
  ea_right :: "i32 option"
  ea_path :: "string option"
  ea_content :: "string option"
  ea_method :: "string option"
  ea_url :: "string option"
  ea_body :: "string option"

record execute_params =
  ep_operation :: string
  ep_arguments :: execution_arguments_params
  ep_purpose :: string

definition require :: "string \<Rightarrow> string \<Rightarrow> 'a option \<Rightarrow> ('a, gateway_error) result" where
  "require operation name v = ok_or (RequiresArgument operation name) v"

definition build_http_request ::
  "execution_arguments_params \<Rightarrow> (execution_request, gateway_error) result" where
  "build_http_request a =
     bind_result (require ''http_request'' ''method'' (ea_method a)) (\<lambda>method_text.
     let m = to_ascii_lowercase (trim method_text) in
     bind_result (if m = ''get'' then Ok Get else if m = ''post'' then Ok Post
                  else Err (UnsupportedHttpMethod m)) (\<lambda>method.
     bind_result (require ''http_request'' ''url'' (ea_url a)) (\<lambda>url.
     if is_blank url then Err (EmptyArgument ''http_request'' ''url'')
     else if method = Get \<and> ea_body a \<noteq> None then Err HttpGetBody
     else Ok (HttpRequest \<lparr>http_method = method, http_url = url, http_body = ea_body a\<rparr>))))"

definition build_execution_request :: "execute_params \<Rightarrow> (execution_request, gateway_error) result"
where
  "build_execution_request params =
     (let operation = to_ascii_lowercase (trim (ep_operation params)); a = ep_arguments params in
      if operation = ''add'' then
        bind_result (require ''add'' ''left'' (ea_left a)) (\<lambda>left.
        bind_result (require ''add'' ''right'' (ea_right a)) (\<lambda>right.
        Ok (Add \<lparr>add_left = left, add_right = right\<rparr>)))
      else if operation = ''read_file'' then
        bind_result (require ''read_file'' ''path'' (ea_path a)) (\<lambda>path.
        if is_blank path then Err (EmptyArgument ''read_file'' ''path'')
        else Ok (ReadFile \<lparr>rf_path = path\<rparr>))
      else if operation = ''write_file'' then
        bind_result (require ''write_file'' ''path'' (ea_path a)) (\<lambda>path.
        if is_blank path then Err (EmptyArgument ''write_file'' ''path'')
        else
          bind_result (require ''write_file'' ''content'' (ea_content a)) (\<lambda>content.
          Ok (WriteFile \<lparr>wf_path = path, wf_content = content\<rparr>)))
      else if operation = ''http_request'' then build_http_request a
      else if operation = ''git_status'' then Ok GitStatus
      else if operation = ''run_cargo_test'' then Ok RunCargoTest
      else Err (UnsupportedOperation operation))"

section \<open>Policy evaluation\<close>

definition evaluate_request_with_config ::
  "externals \<Rightarrow> execution_request \<Rightarrow> file_system_capability \<Rightarrow> gateway_config \<Rightarrow> world
   \<Rightarrow> policy_evaluation \<times> world" where
  "evaluate_request_with_config X request filesystem config w =
     (let policy = gc_policy config in
      case request of
        Add _ \<Rightarrow> (evaluate_operation_with_config OpAdd policy, w)
      | HttpRequest arguments \<Rightarrow>
          (if is_err (validate_http_destination (x_url_parse X) (http_url arguments)
                        (hp_allowed_hosts (gc_http config)))
           then (block_out_of_scope, w)
           else
             (case http_method arguments of
                Get \<Rightarrow> (evaluate_operation_with_config OpHttpGet policy, w)
              | Post \<Rightarrow> (evaluate_operation_with_config OpHttpPost policy, w)))
      | RunCargoTest \<Rightarrow> (evaluate_operation_with_config OpRunCargoTest policy, w)
      | ReadFile arguments \<Rightarrow>
          (case resolve_existing_path filesystem (rf_path arguments) w of
             (Err _, w1) \<Rightarrow> (block_out_of_scope, w1)
           | (Ok _, w1) \<Rightarrow> (evaluate_operation_with_config OpReadFile policy, w1))
      | WriteFile arguments \<Rightarrow>
          (case resolve_write_target filesystem (wf_path arguments) w of
             (Err _, w1) \<Rightarrow> (block_out_of_scope, w1)
           | (Ok _, w1) \<Rightarrow> (evaluate_operation_with_config OpWriteFile policy, w1))
      | GitStatus \<Rightarrow> (evaluate_operation_with_config OpGitStatus policy, w))"

section \<open>Audited execution\<close>

definition MAX_MESSAGE_LENGTH :: nat where "MAX_MESSAGE_LENGTH = 4096"

definition validate_message :: "string \<Rightarrow> (unit, gateway_error) result" where
  "validate_message message =
     (if is_blank message then Err MessageEmpty
      else if length message > MAX_MESSAGE_LENGTH then Err MessageTooLong
      else Ok ())"

definition persist_audit_locked ::
  "(audit_record \<Rightarrow> (world, unit, audit_error) act) \<Rightarrow> audit_record \<Rightarrow> (unit, audit_failure) handler"
where
  "persist_audit_locked audit_log record gs =
     (if gs_audit_poisoned gs then (Err AuditLockPoisoned, gs)
      else on_world (with_err SinkFailed (audit_log record)) gs)"

text \<open>\<open>AuditRecord::new\<close> inside a handler.\<close>

definition audit_record_for ::
  "uuid \<Rightarrow> string \<Rightarrow> policy_decision \<Rightarrow> policy_reason \<Rightarrow> audit_phase \<Rightarrow> execution_outcome
   \<Rightarrow> (audit_record, gateway_error) handler" where
  "audit_record_for request_id message d r stage outcome =
     on_world (\<lambda>w. case new_audit_record request_id message d r stage outcome w of
       (record, w') \<Rightarrow> (ok_or (AuditRecordFailed stage) record, w'))"

text \<open>The \<open>Allow\<close> arm: an audit record before the operation, and none of its effects without it.\<close>

definition allowed_execution ::
  "uuid \<Rightarrow> string \<Rightarrow> policy_evaluation \<Rightarrow> (audit_record \<Rightarrow> (unit, audit_failure) handler)
   \<Rightarrow> (execution_result, operation_error) handler
   \<Rightarrow> (string \<times> bool \<times> execution_result option \<times> execution_outcome, gateway_error) handler" where
  "allowed_execution request_id message evaluation audit_writer sandbox_runner =
     and_then (audit_record_for request_id message (decision evaluation) (reason evaluation)
                 PreExecution NotExecuted) (\<lambda>pre_execution_record.
     and_then (with_err (AuditPersistFailed PreExecution) (audit_writer pre_execution_record)) (\<lambda>_ gs.
     case sandbox_runner gs of
       (Ok result, gs1) \<Rightarrow> (Ok (''executed'', True, Some result, Success), gs1)
     | (Err _, gs1) \<Rightarrow> (Ok (''execution_failed'', False, None, Failed), gs1)))"

fun status_after_audit_failure :: "execution_outcome \<Rightarrow> string \<Rightarrow> string" where
  "status_after_audit_failure Success status = ''execution_completed_audit_failed''"
| "status_after_audit_failure Failed status = ''execution_failed_audit_failed''"
| "status_after_audit_failure NotExecuted status = status"
| "status_after_audit_failure Unknown status = ''execution_unknown_audit_failed''"

definition execute_message_with_audit_id ::
  "externals \<Rightarrow> uuid \<Rightarrow> string \<Rightarrow> policy_evaluation \<Rightarrow> (audit_record \<Rightarrow> (unit, audit_failure) handler)
   \<Rightarrow> (execution_result, operation_error) handler \<Rightarrow> (string, gateway_error) handler" where
  "execute_message_with_audit_id X request_id message evaluation audit_writer sandbox_runner =
     and_then (from_result (validate_message message)) (\<lambda>_.
     and_then
       (case decision evaluation of
          Allow \<Rightarrow> allowed_execution request_id message evaluation audit_writer sandbox_runner
        | Review \<Rightarrow> ret (''held_for_review'', False, None, NotExecuted)
        | Block \<Rightarrow> ret (''blocked'', False, None, NotExecuted))
       (\<lambda>(status, executed, result, execution_outcome).
     and_then (audit_record_for request_id message (decision evaluation) (reason evaluation)
                 Completion execution_outcome) (\<lambda>audit_record gs.
     case audit_writer audit_record gs of (written, gs1) \<Rightarrow>
       let status1 = (if is_err written then status_after_audit_failure execution_outcome status
                      else status);
           response = \<lparr>gw_request_id = ar_request_id audit_record, gw_status = status1,
             gw_decision = decision evaluation, gw_reason = reason evaluation,
             gw_executed = executed, gw_result = result, gw_execution_outcome = execution_outcome\<rparr>
       in (map_err ResponseNotSerialized (x_response_json X response), gs1))))"

section \<open>Requests held for review\<close>

definition build_pending_review ::
  "externals \<Rightarrow> file_system_capability \<Rightarrow> uuid \<Rightarrow> execution_request \<Rightarrow> string
   \<Rightarrow> (pending_review, gateway_error) handler" where
  "build_pending_review X filesystem request_id request purpose =
     (case request of
        RunCargoTest \<Rightarrow>
          and_then (on_world (with_err FingerprintFailed
            (compute_workspace_fingerprint X (fc_workspace_root filesystem))))
            (\<lambda>workspace_fingerprint.
              ret (new_with_workspace_fingerprint request_id request purpose workspace_fingerprint))
      | WriteFile arguments \<Rightarrow>
          and_then (on_world (with_err CaptureFailed
            (capture_write_target_state X filesystem (wf_path arguments))))
            (\<lambda>target_state.
              ret (new_with_write_target_state request_id request purpose target_state))
      | _ \<Rightarrow> ret (new_review request_id request purpose))"

definition hold_for_review ::
  "externals \<Rightarrow> store_json \<Rightarrow> file_system_capability \<Rightarrow> uuid \<Rightarrow> execution_request \<Rightarrow> string
   \<Rightarrow> (unit, gateway_error) handler" where
  "hold_for_review X J filesystem request_id request purpose =
     and_then (build_pending_review X filesystem request_id request purpose) (\<lambda>pending.
     locked (StoreFailed StoreLockPoisoned)
       (with_err StoreFailed (on_store (store_insert X J pending))))"

section \<open>Operations the policy allows\<close>

definition run_allowed_operation ::
  "externals \<Rightarrow> file_system_capability \<Rightarrow> gateway_config
   \<Rightarrow> (http_method \<Rightarrow> validated_http_url \<Rightarrow> string option
        \<Rightarrow> (http_execution_result, operation_error) handler)
   \<Rightarrow> execution_request \<Rightarrow> (execution_result, operation_error) handler" where
  "run_allowed_operation X filesystem config http_runner request =
     (case request of
        HttpRequest arguments \<Rightarrow>
          (case http_method arguments of
             Get \<Rightarrow>
               and_then (from_result (map_err HttpFailed
                 (validate_http_destination (x_url_parse X) (http_url arguments)
                    (hp_allowed_hosts (gc_http config))))) (\<lambda>destination.
               and_then (http_runner Get destination (http_body arguments)) (\<lambda>result.
               ret (Http result)))
           | Post \<Rightarrow> fail (NotEnabled ''http POST''))
      | Add arguments \<Rightarrow>
          and_then (on_world (with_err SandboxFailed (execute_add X (gc_sandbox config) arguments)))
            (\<lambda>value. ret (Integer value))
      | ReadFile arguments \<Rightarrow>
          and_then (on_world (with_err FileFailed (read_text_file filesystem (rf_path arguments))))
            (\<lambda>content. ret (TextResult content))
      | GitStatus \<Rightarrow>
          and_then (on_world (with_err GitFailed (read_git_status X (fc_workspace_root filesystem))))
            (\<lambda>status.
          and_then (from_result (map_err GitNotSerialized (x_git_json X status))) (\<lambda>content.
          ret (TextResult content)))
      | WriteFile _ \<Rightarrow> fail (NotEnabled ''write_file'')
      | RunCargoTest \<Rightarrow> fail (NotEnabled ''run_cargo_test''))"

section \<open>The tool\<close>

definition execute_request_with_http_runner ::
  "externals \<Rightarrow> store_json \<Rightarrow> zyguor_gateway
   \<Rightarrow> (http_method \<Rightarrow> validated_http_url \<Rightarrow> string option
        \<Rightarrow> (http_execution_result, operation_error) handler)
   \<Rightarrow> execute_params \<Rightarrow> (string, gateway_error) handler" where
  "execute_request_with_http_runner X J g http_runner params =
     and_then (from_result (build_execution_request params)) (\<lambda>request gs.
     case evaluate_request_with_config X request (zg_filesystem g) (zg_config g) (gs_world gs) of
       (evaluation, w1) \<Rightarrow>
     (case new_uuid w1 of (request_id, w2) \<Rightarrow>
        and_then
          (if decision evaluation = Review
           then hold_for_review X J (zg_filesystem g) request_id request (ep_purpose params)
           else ret ()) (\<lambda>_.
        execute_message_with_audit_id X request_id (ep_purpose params) evaluation
          (persist_audit_locked (zg_audit g))
          (run_allowed_operation X (zg_filesystem g) (zg_config g) http_runner request))
          (gs\<lparr>gs_world := w2\<rparr>)))"

definition http_runner_of ::
  "externals \<Rightarrow> gateway_config \<Rightarrow> http_method \<Rightarrow> validated_http_url \<Rightarrow> string option
   \<Rightarrow> (http_execution_result, operation_error) handler" where
  "http_runner_of X config method destination body =
     on_world (with_err HttpFailed (http_execute X (hp_execution (gc_http config)) method destination body))"

definition execute_request_with_config ::
  "externals \<Rightarrow> store_json \<Rightarrow> zyguor_gateway \<Rightarrow> execute_params \<Rightarrow> (string, gateway_error) handler"
where
  "execute_request_with_config X J g =
     execute_request_with_http_runner X J g (http_runner_of X (zg_config g))"

text \<open>The tool method: an error becomes a text that starts with \<open>GATEWAY_ERROR\<close>.\<close>

datatype tool_response = ToolResult string | GatewayError gateway_error

definition execute ::
  "externals \<Rightarrow> store_json \<Rightarrow> zyguor_gateway \<Rightarrow> execute_params \<Rightarrow> gateway_state
   \<Rightarrow> tool_response \<times> gateway_state" where
  "execute X J g params gs =
     (case execute_request_with_config X J g params gs of
        (Ok result, gs1) \<Rightarrow> (ToolResult result, gs1)
      | (Err error, gs1) \<Rightarrow> (GatewayError error, gs1))"

end
