(* ===== verification/Admin.thy ===== *)
theory Admin
  imports Gateway Samples
begin

text \<open>
  The admin side of \<open>main.rs\<close>: the commands of the operator, the audited execution of an
  approved request, and the connection on the Unix socket that carries a command.
\<close>

section \<open>Commands and outcomes\<close>

datatype admin_command =
    Approve uuid
  | Reject uuid
  | AcknowledgeClaimed uuid

datatype admin_parse_error =
    EmptyCommand
  | MissingRequestId
  | UnexpectedArguments
  | InvalidRequestId
  | UnsupportedCommand

definition parse_admin_command ::
  "externals \<Rightarrow> string \<Rightarrow> (admin_command, admin_parse_error) result" where
  "parse_admin_command X input =
     (case split_whitespace (trim input) of
        [] \<Rightarrow> Err EmptyCommand
      | [_] \<Rightarrow> Err MissingRequestId
      | [command, request_id] \<Rightarrow>
          (case x_uuid_parse X request_id of
             None \<Rightarrow> Err InvalidRequestId
           | Some u \<Rightarrow>
               (if command = ''APPROVE'' then Ok (Approve u)
                else if command = ''REJECT'' then Ok (Reject u)
                else if command = ''ACK_CLAIMED'' then Ok (AcknowledgeClaimed u)
                else Err UnsupportedCommand))
      | _ \<Rightarrow> Err UnexpectedArguments)"

datatype operation_failure =
    CargoTimedOut
  | CargoExited i32
  | CargoNoStatus
  | HttpStatus u16

datatype reviewed_operation_result =
    OperationSuccess "execution_result option"
  | FailedWithResult operation_failure execution_result

datatype reviewed_execution_outcome =
    ReviewedSuccess
  | SuccessWithResult execution_result
  | ExecutionFailed operation_error
  | ExecutionFailedWithResult operation_failure execution_result
  | ReviewedAuditFailed execution_outcome gateway_error "execution_result option"

datatype admin_outcome =
    Approved uuid
  | Rejected pending_review
  | ClaimedAcknowledged pending_review
  | AcknowledgementUncertain uuid store_error
  | WriteFailed uuid operation_error
  | CargoTestCompleted uuid cargo_test_result
  | CargoTestFailed uuid cargo_test_result
  | CompletionAuditFailed uuid execution_outcome gateway_error "execution_result option"
  | CargoTestExecutionFailed uuid operation_error
  | HttpPostCompleted uuid http_execution_result
  | HttpPostFailed uuid http_execution_result
  | HttpPostExecutionFailed uuid operation_error

text \<open>The texts of errors (\<open>Display\<close>) are a parameter of the rendering.\<close>

record error_texts =
  et_operation :: "operation_error \<Rightarrow> string"
  et_store :: "store_error \<Rightarrow> string"
  et_gateway :: "gateway_error \<Rightarrow> string"
  et_parse :: "admin_parse_error \<Rightarrow> string"

definition admin_line :: "string list \<Rightarrow> string" where
  "admin_line ws = List.concat (List.map (\<lambda>w. w @ '' '') (butlast ws)) @ last ws @ newline"

definition json_line ::
  "externals \<Rightarrow> string list \<Rightarrow> uuid \<Rightarrow> (string, string) result \<Rightarrow> string" where
  "json_line X ws u json =
     (case json of
        Ok text \<Rightarrow> admin_line (ws @ [x_uuid_text X u, text])
      | Err error \<Rightarrow> admin_line [''ERROR'', ''RESPONSE_SERIALIZATION_FAILED'', x_uuid_text X u, error])"

fun format_admin_outcome_response :: "externals \<Rightarrow> error_texts \<Rightarrow> admin_outcome \<Rightarrow> string" where
  "format_admin_outcome_response X T (Approved u) = admin_line [''OK'', ''APPROVED'', x_uuid_text X u]"
| "format_admin_outcome_response X T (Rejected p) =
     admin_line [''OK'', ''REJECTED'', x_uuid_text X (pr_request_id p)]"
| "format_admin_outcome_response X T (WriteFailed u e) =
     admin_line [''ERROR'', ''WRITE_FAILED'', x_uuid_text X u, et_operation T e]"
| "format_admin_outcome_response X T (CargoTestExecutionFailed u e) =
     admin_line [''ERROR'', ''CARGO_TEST_EXECUTION_FAILED'', x_uuid_text X u, et_operation T e]"
| "format_admin_outcome_response X T (ClaimedAcknowledged p) =
     admin_line [''OK'', ''CLAIMED_ACKNOWLEDGED'', x_uuid_text X (pr_request_id p)]"
| "format_admin_outcome_response X T (AcknowledgementUncertain u e) =
     admin_line [''ERROR'', ''CLAIMED_ACKNOWLEDGEMENT_DURABILITY_UNCERTAIN'', x_uuid_text X u, et_store T e]"
| "format_admin_outcome_response X T (CargoTestCompleted u r) =
     json_line X [''OK'', ''CARGO_TEST_COMPLETED''] u (x_cargo_json X r)"
| "format_admin_outcome_response X T (CargoTestFailed u r) =
     json_line X [''ERROR'', ''CARGO_TEST_FAILED''] u (x_cargo_json X r)"
| "format_admin_outcome_response X T (HttpPostExecutionFailed u e) =
     admin_line [''ERROR'', ''HTTP_POST_EXECUTION_FAILED'', x_uuid_text X u, et_operation T e]"
| "format_admin_outcome_response X T (HttpPostCompleted u r) =
     json_line X [''OK'', ''HTTP_POST_COMPLETED''] u (x_http_json X r)"
| "format_admin_outcome_response X T (HttpPostFailed u r) =
     json_line X [''ERROR'', ''HTTP_POST_FAILED''] u (x_http_json X r)"
| "format_admin_outcome_response X T (CompletionAuditFailed u out e r) =
     admin_line [''ERROR'', ''COMPLETION_AUDIT_FAILED'', x_uuid_text X u, et_gateway T e]"

section \<open>The store behind its mutex\<close>

definition reject_pending_request ::
  "externals \<Rightarrow> store_json \<Rightarrow> uuid \<Rightarrow> (pending_review, gateway_error) handler" where
  "reject_pending_request X J request_id =
     locked (StoreFailed StoreLockPoisoned) (with_err StoreFailed (on_store (store_claim X J request_id)))"

definition inspect_pending_request :: "uuid \<Rightarrow> (pending_review, gateway_error) handler" where
  "inspect_pending_request request_id =
     locked (StoreFailed StoreLockPoisoned)
       (\<lambda>gs. (ok_or ReviewNotFound (store_get request_id (gs_store gs)), gs))"

definition restore_claimed_request ::
  "externals \<Rightarrow> store_json \<Rightarrow> pending_review \<Rightarrow> (unit, store_error) handler" where
  "restore_claimed_request X J pending =
     locked StoreLockPoisoned (on_store (store_restore_claimed X J pending))"

definition consume_claimed_request ::
  "externals \<Rightarrow> store_json \<Rightarrow> uuid \<Rightarrow> (pending_review, consume_claimed_failure) handler" where
  "consume_claimed_request X J request_id =
     locked (NotCommitted StoreLockPoisoned) (on_store (store_consume_claimed X J request_id))"

text \<open>The error branch that three handlers share: put the request back and report the first error.\<close>

definition restore_and_fail ::
  "externals \<Rightarrow> store_json \<Rightarrow> pending_review \<Rightarrow> gateway_error \<Rightarrow> ('a, gateway_error) handler" where
  "restore_and_fail X J claimed error =
     and_then (with_err (RestoreFailed error) (restore_claimed_request X J claimed)) (\<lambda>_. fail error)"

section \<open>Revalidation and audit of a decision\<close>

definition review_reason_for_request :: "execution_request \<Rightarrow> (policy_reason, gateway_error) result"
where
  "review_reason_for_request request =
     (case request of
        WriteFile _ \<Rightarrow> Ok Write
      | RunCargoTest \<Rightarrow> Ok CodeExecution
      | HttpRequest arguments \<Rightarrow> (if http_method arguments = Post then Ok ExternalWrite else Err NotReviewable)
      | _ \<Rightarrow> Err NotReviewable)"

definition revalidate_pending_request_with_config ::
  "externals \<Rightarrow> pending_review \<Rightarrow> file_system_capability \<Rightarrow> gateway_config
   \<Rightarrow> (world, unit, gateway_error) act" where
  "revalidate_pending_request_with_config X pending filesystem config =
     (case pr_request pending of
        WriteFile arguments \<Rightarrow>
          and_then (with_err WriteTargetInvalid (revalidate_write_target filesystem (wf_path arguments)))
            (\<lambda>_.
          and_then (from_result (ok_or MissingWriteState (pr_write_target_state pending)))
            (\<lambda>expected_state.
          and_then (with_err WriteStateUnverified
            (capture_write_target_state X filesystem (wf_path arguments))) (\<lambda>current_state.
          if current_state \<noteq> expected_state then fail WriteTargetChanged else ret ())))
      | RunCargoTest \<Rightarrow>
          and_then (with_err CargoWorkspaceInvalid (resolve_existing_path filesystem ''Cargo.toml'')) (\<lambda>_.
          and_then (from_result (ok_or MissingReviewFingerprint (pr_workspace_fingerprint pending)))
            (\<lambda>expected_fingerprint.
          and_then (with_err FingerprintUnverified
            (compute_workspace_fingerprint X (fc_workspace_root filesystem))) (\<lambda>current_fingerprint.
          if current_fingerprint \<noteq> expected_fingerprint then fail WorkspaceChanged else ret ())))
      | HttpRequest arguments \<Rightarrow>
          (if http_method arguments = Post
           then from_result (map_err HttpDestinationInvalid
                  (bind_result (validate_http_destination (x_url_parse X) (http_url arguments)
                     (hp_allowed_hosts (gc_http config))) (\<lambda>_. Ok ())))
           else fail NotApprovable)
      | _ \<Rightarrow> fail NotApprovable)"

type_synonym audit_writer = "audit_record \<Rightarrow> (unit, audit_failure) handler"

definition write_review_audit ::
  "audit_phase \<Rightarrow> execution_outcome \<Rightarrow> pending_review \<Rightarrow> audit_writer \<Rightarrow> (unit, gateway_error) handler"
where
  "write_review_audit stage outcome pending audit_writer =
     and_then (from_result (review_reason_for_request (pr_request pending))) (\<lambda>r.
     and_then (audit_record_for (pr_request_id pending) (pr_purpose pending) Review r stage outcome)
       (\<lambda>record.
     with_err (AuditPersistFailed stage) (audit_writer record)))"

definition write_approval_audit :: "pending_review \<Rightarrow> audit_writer \<Rightarrow> (unit, gateway_error) handler" where
  "write_approval_audit = write_review_audit Approval NotExecuted"

definition write_rejection_audit :: "pending_review \<Rightarrow> audit_writer \<Rightarrow> (unit, gateway_error) handler" where
  "write_rejection_audit = write_review_audit Rejection NotExecuted"

definition write_reconciliation_audit :: "pending_review \<Rightarrow> audit_writer \<Rightarrow> (unit, gateway_error) handler"
where
  "write_reconciliation_audit = write_review_audit Reconciliation Unknown"

definition audit_claimed_rejection ::
  "externals \<Rightarrow> store_json \<Rightarrow> pending_review \<Rightarrow> audit_writer \<Rightarrow> (unit, gateway_error) handler" where
  "audit_claimed_rejection X J claimed audit_writer gs =
     (case write_rejection_audit claimed audit_writer gs of
        (Err audit_error, gs1) \<Rightarrow> restore_and_fail X J claimed audit_error gs1
      | (Ok _, gs1) \<Rightarrow>
          and_then (with_err RejectionNotConsumed (consume_claimed_request X J (pr_request_id claimed)))
            (\<lambda>_. ret ()) gs1)"

definition audit_claimed_approval ::
  "externals \<Rightarrow> store_json \<Rightarrow> pending_review \<Rightarrow> audit_writer \<Rightarrow> (unit, gateway_error) handler" where
  "audit_claimed_approval X J claimed audit_writer gs =
     (case write_approval_audit claimed audit_writer gs of
        (Err audit_error, gs1) \<Rightarrow> restore_and_fail X J claimed audit_error gs1
      | (Ok _, gs1) \<Rightarrow> (Ok (), gs1))"

section \<open>Reviewed operations\<close>

definition execute_cargo_test_with_config ::
  "externals \<Rightarrow> file_system_capability \<Rightarrow> gateway_config \<Rightarrow> string
   \<Rightarrow> (reviewed_operation_result, operation_error) handler" where
  "execute_cargo_test_with_config X filesystem config expected_fingerprint =
     and_then (on_world (with_err CargoFailed
       (cargo_run X (gc_cargo_test config) (fc_workspace_root filesystem) expected_fingerprint)))
       (\<lambda>result.
     if ct_success result then ret (OperationSuccess (Some (CargoTest result)))
     else
       ret (FailedWithResult
         (if ct_timed_out result then CargoTimedOut
          else (case ct_exit_code result of Some code \<Rightarrow> CargoExited code | None \<Rightarrow> CargoNoStatus))
         (CargoTest result)))"

definition execute_http_post_with_config ::
  "externals \<Rightarrow> gateway_config \<Rightarrow> http_request_arguments
   \<Rightarrow> (reviewed_operation_result, operation_error) handler" where
  "execute_http_post_with_config X config arguments =
     (if http_method arguments \<noteq> Post then fail PostRequired
      else
        and_then (from_result (map_err HttpFailed
          (validate_http_destination (x_url_parse X) (http_url arguments)
             (hp_allowed_hosts (gc_http config))))) (\<lambda>destination.
        and_then (on_world (with_err HttpFailed
          (http_execute X (hp_execution (gc_http config)) Post destination (http_body arguments))))
          (\<lambda>result.
        if 200 \<le> hr_status_code result \<and> hr_status_code result < 400
        then ret (OperationSuccess (Some (Http result)))
        else ret (FailedWithResult (HttpStatus (hr_status_code result)) (Http result)))))"

fun operation_outcome :: "(reviewed_operation_result, operation_error) result \<Rightarrow> execution_outcome" where
  "operation_outcome (Ok (OperationSuccess _)) = Success"
| "operation_outcome (Ok (FailedWithResult _ _)) = Failed"
| "operation_outcome (Err _) = Failed"

fun preserved_result ::
  "(reviewed_operation_result, operation_error) result \<Rightarrow> execution_result option" where
  "preserved_result (Ok (OperationSuccess r)) = r"
| "preserved_result (Ok (FailedWithResult _ r)) = Some r"
| "preserved_result (Err _) = None"

fun reviewed_outcome ::
  "(reviewed_operation_result, operation_error) result \<Rightarrow> reviewed_execution_outcome" where
  "reviewed_outcome (Ok (OperationSuccess (Some r))) = SuccessWithResult r"
| "reviewed_outcome (Ok (OperationSuccess None)) = ReviewedSuccess"
| "reviewed_outcome (Ok (FailedWithResult e r)) = ExecutionFailedWithResult e r"
| "reviewed_outcome (Err e) = ExecutionFailed e"

definition complete_reviewed_action ::
  "pending_review \<Rightarrow> policy_reason \<Rightarrow> audit_writer
   \<Rightarrow> (reviewed_operation_result, operation_error) result
   \<Rightarrow> (reviewed_execution_outcome, gateway_error) handler" where
  "complete_reviewed_action pending r audit_writer execution_result gs =
     (case audit_record_for (pr_request_id pending) (pr_purpose pending) Review r Completion
             (operation_outcome execution_result) gs of
        (Err error, gs1) \<Rightarrow>
          (Ok (ReviewedAuditFailed (operation_outcome execution_result) error
                 (preserved_result execution_result)), gs1)
      | (Ok completion_record, gs1) \<Rightarrow>
          (case audit_writer completion_record gs1 of
             (Err error, gs2) \<Rightarrow>
               (Ok (ReviewedAuditFailed (operation_outcome execution_result)
                      (AuditPersistFailed Completion error) (preserved_result execution_result)), gs2)
           | (Ok _, gs2) \<Rightarrow> (Ok (reviewed_outcome execution_result), gs2)))"

definition execute_reviewed_action ::
  "pending_review \<Rightarrow> audit_writer \<Rightarrow> (reviewed_operation_result, operation_error) handler
   \<Rightarrow> (reviewed_execution_outcome, gateway_error) handler" where
  "execute_reviewed_action pending audit_writer operation =
     and_then (from_result (review_reason_for_request (pr_request pending))) (\<lambda>r.
     and_then (audit_record_for (pr_request_id pending) (pr_purpose pending) Review r
                 PreExecution NotExecuted) (\<lambda>pre_execution_record.
     and_then (with_err (AuditPersistFailed PreExecution) (audit_writer pre_execution_record)) (\<lambda>_ gs.
     case operation gs of (execution_result, gs1) \<Rightarrow>
       complete_reviewed_action pending r audit_writer execution_result gs1)))"

definition execute_approved_write ::
  "pending_review \<Rightarrow> audit_writer \<Rightarrow> (unit, operation_error) handler
   \<Rightarrow> (reviewed_execution_outcome, gateway_error) handler" where
  "execute_approved_write pending audit_writer write_operation =
     execute_reviewed_action pending audit_writer
       (and_then write_operation (\<lambda>_. ret (OperationSuccess None)))"

definition settle_claimed ::
  "externals \<Rightarrow> store_json \<Rightarrow> pending_review
   \<Rightarrow> (reviewed_execution_outcome, gateway_error) result
   \<Rightarrow> (reviewed_execution_outcome, gateway_error) handler" where
  "settle_claimed X J claimed executed =
     (case executed of
        Ok outcome \<Rightarrow>
          and_then (with_err OperationNotConsumed (consume_claimed_request X J (pr_request_id claimed)))
            (\<lambda>_. ret outcome)
      | Err execution_error \<Rightarrow> restore_and_fail X J claimed execution_error)"

definition execute_claimed_reviewed_action ::
  "externals \<Rightarrow> store_json \<Rightarrow> pending_review \<Rightarrow> audit_writer
   \<Rightarrow> (reviewed_operation_result, operation_error) handler
   \<Rightarrow> (reviewed_execution_outcome, gateway_error) handler" where
  "execute_claimed_reviewed_action X J claimed audit_writer operation gs =
     (case execute_reviewed_action claimed audit_writer operation gs of
        (executed, gs1) \<Rightarrow> settle_claimed X J claimed executed gs1)"

definition execute_claimed_write ::
  "externals \<Rightarrow> store_json \<Rightarrow> pending_review \<Rightarrow> audit_writer \<Rightarrow> (unit, operation_error) handler
   \<Rightarrow> (reviewed_execution_outcome, gateway_error) handler" where
  "execute_claimed_write X J claimed audit_writer write_operation gs =
     (case execute_approved_write claimed audit_writer write_operation gs of
        (executed, gs1) \<Rightarrow> settle_claimed X J claimed executed gs1)"

section \<open>The three commands\<close>

fun write_approval_outcome ::
  "uuid \<Rightarrow> reviewed_execution_outcome \<Rightarrow> (admin_outcome, gateway_error) result" where
  "write_approval_outcome u ReviewedSuccess = Ok (Approved u)"
| "write_approval_outcome u (SuccessWithResult _) = Err UnexpectedResult"
| "write_approval_outcome u (ExecutionFailed error) = Ok (WriteFailed u error)"
| "write_approval_outcome u (ExecutionFailedWithResult _ _) = Err UnexpectedResult"
| "write_approval_outcome u (ReviewedAuditFailed outcome error _) =
     Ok (CompletionAuditFailed u outcome error None)"

fun cargo_approval_outcome ::
  "uuid \<Rightarrow> reviewed_execution_outcome \<Rightarrow> (admin_outcome, gateway_error) result" where
  "cargo_approval_outcome u (SuccessWithResult (CargoTest r)) = Ok (CargoTestCompleted u r)"
| "cargo_approval_outcome u (ExecutionFailedWithResult _ (CargoTest r)) = Ok (CargoTestFailed u r)"
| "cargo_approval_outcome u (ExecutionFailed error) = Ok (CargoTestExecutionFailed u error)"
| "cargo_approval_outcome u (ReviewedAuditFailed outcome error r) =
     Ok (CompletionAuditFailed u outcome error r)"
| "cargo_approval_outcome u ReviewedSuccess = Err NoResult"
| "cargo_approval_outcome u (SuccessWithResult _) = Err UnexpectedResult"
| "cargo_approval_outcome u (ExecutionFailedWithResult _ _) = Err UnexpectedResult"

fun http_approval_outcome ::
  "uuid \<Rightarrow> reviewed_execution_outcome \<Rightarrow> (admin_outcome, gateway_error) result" where
  "http_approval_outcome u (SuccessWithResult (Http r)) = Ok (HttpPostCompleted u r)"
| "http_approval_outcome u (ExecutionFailedWithResult _ (Http r)) = Ok (HttpPostFailed u r)"
| "http_approval_outcome u (ExecutionFailed error) = Ok (HttpPostExecutionFailed u error)"
| "http_approval_outcome u (ReviewedAuditFailed outcome error r) =
     Ok (CompletionAuditFailed u outcome error r)"
| "http_approval_outcome u ReviewedSuccess = Err NoResult"
| "http_approval_outcome u (SuccessWithResult _) = Err UnexpectedResult"
| "http_approval_outcome u (ExecutionFailedWithResult _ _) = Err UnexpectedResult"

type_synonym post_runner =
  "http_request_arguments \<Rightarrow> (reviewed_operation_result, operation_error) handler"

text \<open>The arms of an approval, one per kind of request.\<close>

definition approve_write ::
  "externals \<Rightarrow> store_json \<Rightarrow> zyguor_gateway \<Rightarrow> uuid \<Rightarrow> pending_review \<Rightarrow> write_file_arguments
   \<Rightarrow> (admin_outcome, gateway_error) handler" where
  "approve_write X J g request_id claimed arguments =
     and_then (execute_claimed_write X J claimed (persist_audit_locked (zg_audit g))
       (on_world (with_err FileFailed
          (write_text_file X (zg_filesystem g) (wf_path arguments) (wf_content arguments)))))
       (\<lambda>outcome. from_result (write_approval_outcome request_id outcome))"

definition approve_cargo ::
  "externals \<Rightarrow> store_json \<Rightarrow> zyguor_gateway \<Rightarrow> uuid \<Rightarrow> pending_review
   \<Rightarrow> (admin_outcome, gateway_error) handler" where
  "approve_cargo X J g request_id claimed =
     and_then (from_result (ok_or MissingReviewFingerprint (pr_workspace_fingerprint claimed)))
       (\<lambda>expected_fingerprint.
     and_then (execute_claimed_reviewed_action X J claimed (persist_audit_locked (zg_audit g))
       (execute_cargo_test_with_config X (zg_filesystem g) (zg_config g) expected_fingerprint))
       (\<lambda>outcome. from_result (cargo_approval_outcome request_id outcome)))"

definition approve_http ::
  "externals \<Rightarrow> store_json \<Rightarrow> zyguor_gateway \<Rightarrow> post_runner \<Rightarrow> uuid \<Rightarrow> pending_review
   \<Rightarrow> http_request_arguments \<Rightarrow> (admin_outcome, gateway_error) handler" where
  "approve_http X J g http_post_runner request_id claimed arguments =
     and_then (execute_claimed_reviewed_action X J claimed (persist_audit_locked (zg_audit g))
       (http_post_runner arguments))
       (\<lambda>outcome. from_result (http_approval_outcome request_id outcome))"

definition execute_approved ::
  "externals \<Rightarrow> store_json \<Rightarrow> zyguor_gateway \<Rightarrow> post_runner \<Rightarrow> uuid \<Rightarrow> pending_review
   \<Rightarrow> (admin_outcome, gateway_error) handler" where
  "execute_approved X J g http_post_runner request_id claimed =
     (case pr_request claimed of
        WriteFile arguments \<Rightarrow> approve_write X J g request_id claimed arguments
      | RunCargoTest \<Rightarrow> approve_cargo X J g request_id claimed
      | HttpRequest arguments \<Rightarrow>
          (if http_method arguments = Post
           then approve_http X J g http_post_runner request_id claimed arguments
           else fail NotApprovable)
      | _ \<Rightarrow> fail NotApprovable)"

definition approve_command ::
  "externals \<Rightarrow> store_json \<Rightarrow> zyguor_gateway \<Rightarrow> post_runner \<Rightarrow> uuid
   \<Rightarrow> (admin_outcome, gateway_error) handler" where
  "approve_command X J g http_post_runner request_id =
     and_then (inspect_pending_request request_id) (\<lambda>pending.
     and_then (on_world (revalidate_pending_request_with_config X pending (zg_filesystem g) (zg_config g)))
       (\<lambda>_.
     and_then (locked (StoreFailed StoreLockPoisoned)
       (with_err StoreFailed (on_store (store_claim X J request_id)))) (\<lambda>claimed.
     and_then (audit_claimed_approval X J claimed (persist_audit_locked (zg_audit g))) (\<lambda>_.
     execute_approved X J g http_post_runner request_id claimed))))"

definition reject_command ::
  "externals \<Rightarrow> store_json \<Rightarrow> zyguor_gateway \<Rightarrow> uuid \<Rightarrow> (admin_outcome, gateway_error) handler" where
  "reject_command X J g request_id =
     and_then (reject_pending_request X J request_id) (\<lambda>pending.
     and_then (audit_claimed_rejection X J pending (persist_audit_locked (zg_audit g))) (\<lambda>_.
     ret (Rejected pending)))"

definition acknowledge_command ::
  "externals \<Rightarrow> store_json \<Rightarrow> zyguor_gateway \<Rightarrow> uuid \<Rightarrow> (admin_outcome, gateway_error) handler" where
  "acknowledge_command X J g request_id =
     and_then (locked (StoreFailed StoreLockPoisoned)
       (\<lambda>gs. (ok_or ClaimedReviewNotFound (store_get_claimed request_id (gs_store gs)), gs)))
       (\<lambda>claimed.
     and_then (write_reconciliation_audit claimed (persist_audit_locked (zg_audit g))) (\<lambda>_ gs.
     case consume_claimed_request X J request_id gs of
       (Ok acknowledged, gs1) \<Rightarrow> (Ok (ClaimedAcknowledged acknowledged), gs1)
     | (Err (NotCommitted error), gs1) \<Rightarrow> (Err (ReconciliationNotConsumed error), gs1)
     | (Err (DurabilityUncertain error), gs1) \<Rightarrow> (Ok (AcknowledgementUncertain request_id error), gs1)))"

definition handle_admin_command_with_http_runner ::
  "externals \<Rightarrow> store_json \<Rightarrow> zyguor_gateway \<Rightarrow> post_runner \<Rightarrow> admin_command
   \<Rightarrow> (admin_outcome, gateway_error) handler" where
  "handle_admin_command_with_http_runner X J g http_post_runner command =
     (case command of
        Approve request_id \<Rightarrow> approve_command X J g http_post_runner request_id
      | Reject request_id \<Rightarrow> reject_command X J g request_id
      | AcknowledgeClaimed request_id \<Rightarrow> acknowledge_command X J g request_id)"

definition handle_admin_command_with_config ::
  "externals \<Rightarrow> store_json \<Rightarrow> zyguor_gateway \<Rightarrow> admin_command \<Rightarrow> (admin_outcome, gateway_error) handler"
where
  "handle_admin_command_with_config X J g =
     handle_admin_command_with_http_runner X J g (execute_http_post_with_config X (zg_config g))"

section \<open>A connection\<close>

text \<open>
  What a connection offers: the answers of the two system calls that ask for the peer (the user and
  the group of \<open>getpeereid\<close>, the \<open>ucred\<close> of \<open>SO_PEERCRED\<close>), the bytes the client sends before it
  closes or waits, and the errors of reading and writing.
\<close>

record ucred =
  uc_pid :: i32
  uc_uid :: u32
  uc_gid :: u32

record admin_stream =
  as_getpeereid :: "(u32 \<times> u32, io_error) result"
  as_peercred :: "(ucred, io_error) result"
  as_input :: string
  as_read_error :: "io_error option"
  as_write_error :: "io_error option"

datatype connection_error =
    PeerCredentials io_error
  | PeerUnsupported
  | PeerMismatch
  | ReadCommand io_error
  | ClosedWithoutCommand
  | CommandTooLong
  | BadCommand admin_parse_error
  | CommandFailed gateway_error
  | ResponseNotWritten io_error
  | ErrorResponseNotWritten connection_error io_error

definition MAX_ADMIN_COMMAND_LENGTH :: nat where "MAX_ADMIN_COMMAND_LENGTH = 256"

text \<open>The user at the other end, on each platform by its own call.\<close>

definition admin_peer_uid :: "externals \<Rightarrow> admin_stream \<Rightarrow> (u32, connection_error) result" where
  "admin_peer_uid X stream =
     (case x_platform X of
        MacOs \<Rightarrow>
          bind_result (map_err PeerCredentials (as_getpeereid stream)) (\<lambda>(peer_uid, peer_gid). Ok peer_uid)
      | Linux \<Rightarrow>
          bind_result (map_err PeerCredentials (as_peercred stream)) (\<lambda>credentials. Ok (uc_uid credentials))
      | OtherPlatform \<Rightarrow> Err PeerUnsupported)"

definition verify_admin_peer_uid ::
  "externals \<Rightarrow> admin_stream \<Rightarrow> u32 \<Rightarrow> (unit, connection_error) result" where
  "verify_admin_peer_uid X stream expected_uid =
     bind_result (admin_peer_uid X stream) (\<lambda>peer_uid.
     if peer_uid \<noteq> expected_uid then Err PeerMismatch else Ok ())"

definition verify_admin_peer :: "externals \<Rightarrow> admin_stream \<Rightarrow> (unit, connection_error) result" where
  "verify_admin_peer X stream = verify_admin_peer_uid X stream (x_euid X)"

text \<open>\<open>read_line\<close>: up to the first line feed, which belongs to the line, and only UTF-8.\<close>

definition read_line :: "admin_stream \<Rightarrow> nat \<Rightarrow> (string, io_error) result" where
  "read_line stream limit =
     (case as_read_error stream of
        Some e \<Rightarrow> Err e
      | None \<Rightarrow>
          (let available = take limit (as_input stream);
               body = takeWhile (\<lambda>c. c \<noteq> CHR 0x0A) available;
               line = take (Suc (length body)) available
           in ok_or InvalidData (from_utf8 line)))"

definition respond ::
  "admin_stream \<Rightarrow> (connection_error \<Rightarrow> string) \<Rightarrow> (admin_outcome \<Rightarrow> string)
   \<Rightarrow> (admin_outcome, connection_error) result \<Rightarrow> (admin_outcome, connection_error) result \<times> string option"
where
  "respond stream error_line outcome_line result =
     (case result of
        Ok outcome \<Rightarrow>
          (case as_write_error stream of
             Some e \<Rightarrow> (Err (ResponseNotWritten e), None)
           | None \<Rightarrow> (Ok outcome, Some (outcome_line outcome)))
      | Err error \<Rightarrow>
          (case as_write_error stream of
             Some e \<Rightarrow> (Err (ErrorResponseNotWritten error e), None)
           | None \<Rightarrow> (Err error, Some (error_line error))))"

definition error_response :: "error_texts \<Rightarrow> connection_error \<Rightarrow> string" where
  "error_response T error =
     admin_line [''ERROR'',
       (case error of
          BadCommand e \<Rightarrow> et_parse T e
        | CommandFailed e \<Rightarrow> et_gateway T e
        | _ \<Rightarrow> ''admin command exceeds maximum length'')]"

definition handle_admin_connection ::
  "externals \<Rightarrow> store_json \<Rightarrow> error_texts \<Rightarrow> zyguor_gateway \<Rightarrow> admin_stream \<Rightarrow> gateway_state
   \<Rightarrow> ((admin_outcome, connection_error) result \<times> string option) \<times> gateway_state" where
  "handle_admin_connection X J T g stream gs =
     (case verify_admin_peer X stream of
        Err e \<Rightarrow> ((Err e, None), gs)
      | Ok _ \<Rightarrow>
          (case read_line stream (MAX_ADMIN_COMMAND_LENGTH + 1) of
             Err e \<Rightarrow> ((Err (ReadCommand e), None), gs)
           | Ok input \<Rightarrow>
               if length input = 0 then ((Err ClosedWithoutCommand, None), gs)
               else if length input > MAX_ADMIN_COMMAND_LENGTH
               then (respond stream (error_response T) (format_admin_outcome_response X T)
                       (Err CommandTooLong), gs)
               else
                 (case parse_admin_command X input of
                    Err e \<Rightarrow>
                      (respond stream (error_response T) (format_admin_outcome_response X T)
                         (Err (BadCommand e)), gs)
                  | Ok command \<Rightarrow>
                      (case handle_admin_command_with_config X J g command gs of
                         (r, gs1) \<Rightarrow>
                           (respond stream (error_response T) (format_admin_outcome_response X T)
                              (map_err CommandFailed r), gs1)))))"

text \<open>The accept loop, over the connections accepted so far; \<open>None\<close> is a loop still waiting.\<close>

fun run_admin_listener ::
  "externals \<Rightarrow> store_json \<Rightarrow> error_texts \<Rightarrow> zyguor_gateway \<Rightarrow> (admin_stream, io_error) result list
   \<Rightarrow> gateway_state \<Rightarrow> (unit, io_error) result option \<times> gateway_state"
where
  "run_admin_listener X J T g [] gs = (None, gs)"
| "run_admin_listener X J T g (Err e # rest) gs = (Some (Err e), gs)"
| "run_admin_listener X J T g (Ok stream # rest) gs =
     (case handle_admin_connection X J T g stream gs of
        (_, gs1) \<Rightarrow> run_admin_listener X J T g rest gs1)"

section \<open>Words of a command\<close>

text \<open>Visible ASCII: no byte of it starts or ends white space.\<close>

definition graph :: "char \<Rightarrow> bool" where
  "graph c \<longleftrightarrow> byte_in 0x21 0x7E c"

lemma ws_prefix_in_skip: "list_all (\<lambda>e. e \<noteq> [] \<and> hd e \<noteq> c) es \<Longrightarrow> ws_prefix_in es (c # cs) = 0"
proof (induction es)
  case (Cons e es)
  then obtain d ds where "e = d # ds" "d \<noteq> c" by (cases e) auto
  with Cons show ?case by simp
qed simp

lemma graph_no_ws:
  assumes "graph c"
  shows "ws_len (c # cs) = 0" and "ws_len_rev (c # cs) = 0"
proof -
  have edges: "list_all (\<lambda>e. e \<noteq> [] \<and> \<not> graph (hd e)) ws_encodings"
    "list_all (\<lambda>e. e \<noteq> [] \<and> \<not> graph (hd e)) (List.map rev ws_encodings)"
    by code_simp+
  then have "list_all (\<lambda>e. e \<noteq> [] \<and> hd e \<noteq> c) ws_encodings"
    "list_all (\<lambda>e. e \<noteq> [] \<and> hd e \<noteq> c) (List.map rev ws_encodings)"
    using assms by (auto simp: list_all_iff)
  then show "ws_len (c # cs) = 0" "ws_len_rev (c # cs) = 0"
    by (simp_all add: ws_len_def ws_len_rev_def ws_prefix_in_skip)
qed

lemma ws_len_space: "ws_len (CHR 0x20 # cs) = 1" "ws_len_rev (CHR 0x0A # cs) = 1"
  by (simp_all add: ws_len_def ws_len_rev_def ws_encodings_def)

lemma take_word_graph:
  assumes "list_all graph s"
  shows "take_word s = (s, [])" and "take_word (s @ CHR 0x20 # r) = (s, CHR 0x20 # r)"
  using assms by (induction s) (simp_all add: graph_no_ws ws_len_space)

lemma trim_start_graph: "graph c \<Longrightarrow> trim_start (c # cs) = c # cs"
  by (simp add: trim_start_def trim_start_by_fixed graph_no_ws)

lemma trim_start_space: "graph c \<Longrightarrow> trim_start (CHR 0x20 # c # cs) = c # cs"
proof -
  assume "graph c"
  have "trim_start (CHR 0x20 # c # cs) = trim_start_by ws_len (c # cs)"
    unfolding trim_start_def by (subst trim_start_by.simps) (simp add: ws_len_space)
  then show ?thesis using \<open>graph c\<close> by (simp add: trim_start_by_fixed graph_no_ws)
qed

text \<open>A line of two visible words.\<close>

lemma trim_line:
  assumes "s = c # cs" and "graph c" and "t \<noteq> []" and "list_all graph t"
  shows "trim (s @ '' '' @ t @ newline) = s @ '' '' @ t"
proof -
  obtain t' d where t: "t = t' @ [d]" "graph d"
    using assms(3,4) by (cases t rule: rev_cases) auto
  have first: "trim_start (s @ '' '' @ t @ newline) = s @ '' '' @ t @ newline"
    using assms(1,2) by (simp add: trim_start_graph)
  have reversed: "rev (s @ '' '' @ t @ newline) = CHR 0x0A # d # rev (s @ '' '' @ t')"
    by (simp add: t newline_def)
  have step: "trim_start_by ws_len_rev (CHR 0x0A # d # r) = d # r" for r
  proof -
    have "trim_start_by ws_len_rev (CHR 0x0A # d # r) = trim_start_by ws_len_rev (d # r)"
      by (subst trim_start_by.simps) (simp add: ws_len_space)
    then show ?thesis using t(2) by (simp add: trim_start_by_fixed graph_no_ws)
  qed
  have "trim_end (s @ '' '' @ t @ newline) = s @ '' '' @ t"
    unfolding trim_end_def reversed step by (simp add: t)
  then show ?thesis unfolding trim_def first .
qed

lemma split_line:
  assumes "s \<noteq> []" and "list_all graph s" and "t \<noteq> []" and "list_all graph t"
  shows "split_whitespace (s @ '' '' @ t) = [s, t]"
proof -
  have start: "trim_start t = t" "trim_start (CHR 0x20 # t) = t"
    using assms(3,4) by (cases t; simp add: trim_start_graph trim_start_space)+
  have first: "trim_start (s @ CHR 0x20 # t) = s @ CHR 0x20 # t"
    using assms(1,2) by (cases s) (simp_all add: trim_start_graph)
  have empty: "split_whitespace [] = []"
    by (rule split_whitespace_Nil) (simp add: trim_start_def trim_start_by.simps)
  have "split_whitespace (CHR 0x20 # t) = t # split_whitespace []"
    by (rule split_whitespace_step [OF start(2) assms(3) take_word_graph(1) [OF assms(4)]])
  moreover have "split_whitespace (s @ CHR 0x20 # t) = s # split_whitespace (CHR 0x20 # t)"
    by (rule split_whitespace_step [OF first _ take_word_graph(2) [OF assms(2)]]) simp
  ultimately show ?thesis by (simp add: empty)
qed

section \<open>Properties\<close>

text \<open>C24: a command written as its name, a space, an identifier the UUID parser
  accepts and a line feed is read back as that command.\<close>

theorem command_round_trip:
  assumes "id_text \<noteq> []" and "list_all graph id_text" and "x_uuid_parse X id_text = Some u"
  shows "parse_admin_command X (''APPROVE'' @ '' '' @ id_text @ newline) = Ok (Approve u) \<and>
    parse_admin_command X (''REJECT'' @ '' '' @ id_text @ newline) = Ok (Reject u) \<and>
    parse_admin_command X (''ACK_CLAIMED'' @ '' '' @ id_text @ newline) = Ok (AcknowledgeClaimed u)"
proof -
  have words: "list_all graph ''APPROVE''" "list_all graph ''REJECT''" "list_all graph ''ACK_CLAIMED''"
    by code_simp+
  have line: "split_whitespace (trim (s @ '' '' @ id_text @ newline)) = [s, id_text]"
    if "s \<noteq> []" "list_all graph s" for s
  proof -
    from that obtain c cs where s: "s = c # cs" "graph c" by (cases s) simp_all
    show ?thesis using trim_line [OF s assms(1,2)] split_line [OF that assms(1,2)] by simp
  qed
  show ?thesis
    unfolding parse_admin_command_def
    by (subst line, simp, rule words, subst line, simp, rule words, subst line, simp, rule words)
      (simp add: assms(3))
qed

theorem command_round_trip_witness:
  "parse_admin_command sample_externals (''APPROVE'' @ '' '' @ ''u'' @ newline) = Ok (Approve 5)"
proof -
  have "list_all graph ''u''" by code_simp
  moreover have "x_uuid_parse sample_externals ''u'' = Some 5" by (simp add: sample_externals_def)
  ultimately show ?thesis using command_round_trip [of "''u''" sample_externals 5] by simp
qed

text \<open>C22: a connection changes the state of the gateway only through a command that
  came whole, in at most 256 bytes and one line, from a peer with the gateway's own user, and then
  exactly as that command does.\<close>

theorem connection_gate:
  "snd (handle_admin_connection X J T g stream gs) = gs \<or>
   (\<exists>line command. admin_peer_uid X stream = Ok (x_euid X) \<and>
      read_line stream (MAX_ADMIN_COMMAND_LENGTH + 1) = Ok line \<and>
      0 < length line \<and> length line \<le> MAX_ADMIN_COMMAND_LENGTH \<and>
      parse_admin_command X line = Ok command \<and>
      snd (handle_admin_connection X J T g stream gs) = snd (handle_admin_command_with_config X J g command gs))"
proof (cases "admin_peer_uid X stream = Ok (x_euid X)")
  case False
  then have "is_err (verify_admin_peer X stream)"
    by (cases "admin_peer_uid X stream") (auto simp: verify_admin_peer_def verify_admin_peer_uid_def)
  then show ?thesis
    by (cases "verify_admin_peer X stream") (simp_all add: handle_admin_connection_def)
next
  case True
  then have peer: "verify_admin_peer X stream = Ok ()"
    by (simp add: verify_admin_peer_def verify_admin_peer_uid_def)
  show ?thesis
  proof (cases "read_line stream (MAX_ADMIN_COMMAND_LENGTH + 1)")
    case (Ok line)
    then show ?thesis
      using True peer
      by (cases "parse_admin_command X line")
        (auto simp: handle_admin_connection_def split: prod.splits)
  qed (simp add: handle_admin_connection_def peer)
qed

end
