(* ===== verification/Startup.thy ===== *)
theory Startup
  imports Admin
begin

text \<open>
  Starting and stopping: the admin socket and the guard that removes it, the validation of the two
  operational files, and \<open>main\<close>.
\<close>

section \<open>The admin socket\<close>

record admin_socket_path_guard =
  ag_path :: path
  ag_device :: nat
  ag_inode :: nat

datatype socket_error =
    InspectSocket io_error
  | NotASocket
  | SocketPathExists
  | BindSocket io_error
  | SecureSocket io_error
  | CleanUpSocket socket_error io_error

definition new_socket_guard :: "path \<Rightarrow> (world, admin_socket_path_guard, socket_error) act" where
  "new_socket_guard path =
     and_then (with_err InspectSocket (sys_read (fs_symlink_metadata path))) (\<lambda>metadata.
     if \<not> is_socket metadata then fail NotASocket
     else ret \<lparr>ag_path = path, ag_device = md_dev metadata, ag_inode = md_ino metadata\<rparr>)"

text \<open>\<open>Drop\<close>: remove the path only while it is still the socket the guard was made for.\<close>

definition drop_socket_guard :: "admin_socket_path_guard \<Rightarrow> world \<Rightarrow> world" where
  "drop_socket_guard guard w =
     (case sys_read (fs_symlink_metadata (ag_path guard)) w of
        (Ok metadata, w1) \<Rightarrow>
          (if is_socket metadata \<and> md_dev metadata = ag_device guard \<and> md_ino metadata = ag_inode guard
           then ignore_err (sys_remove_file (ag_path guard)) w1
           else w1)
      | (Err _, w1) \<Rightarrow> w1)"

definition sys_exists :: "path \<Rightarrow> world \<Rightarrow> bool \<times> world" where
  "sys_exists p w = (case sys_read (fs_metadata p) w of (r, w1) \<Rightarrow> (\<not> is_err r, w1))"

definition create_admin_listener :: "path \<Rightarrow> (world, unit, socket_error) act" where
  "create_admin_listener socket_path w =
     (case sys_exists socket_path w of (exists, w1) \<Rightarrow>
        if exists then (Err SocketPathExists, w1)
        else
          and_then (with_err BindSocket (sys_bind_socket socket_path)) (\<lambda>_.
          with_err SecureSocket (sys_set_permissions socket_path mode_owner_only)) w1)"

definition create_managed_admin_listener ::
  "path \<Rightarrow> (world, admin_socket_path_guard, socket_error) act" where
  "create_managed_admin_listener socket_path =
     and_then (create_admin_listener socket_path) (\<lambda>_ w.
     case new_socket_guard socket_path w of
       (Ok guard, w1) \<Rightarrow> (Ok guard, w1)
     | (Err error, w1) \<Rightarrow>
         (case sys_remove_file socket_path w1 of
            (Ok _, w2) \<Rightarrow> (Err error, w2)
          | (Err cleanup_error, w2) \<Rightarrow>
              (if cleanup_error = NotFound then (Err error, w2)
               else (Err (CleanUpSocket error cleanup_error), w2))))"

text \<open>How a task ended, as \<open>JoinHandle\<close> reports it after a possible abort.\<close>

datatype 'e task_end = Cancelled | Returned "(unit, 'e) result" | Panicked string

datatype 'e admin_task_error = ListenerFailed 'e | TaskFailed string

definition stop_admin_task :: "'e task_end \<Rightarrow> (unit, 'e admin_task_error) result" where
  "stop_admin_task admin_task =
     (case admin_task of
        Cancelled \<Rightarrow> Ok ()
      | Returned (Ok _) \<Rightarrow> Ok ()
      | Returned (Err error) \<Rightarrow> Err (ListenerFailed error)
      | Panicked error \<Rightarrow> Err (TaskFailed error))"

section \<open>Operational files\<close>

record validated_operational_state_path =
  vp_path :: path
  vp_parent_device :: nat
  vp_parent_inode :: nat

datatype operational_error =
    MustBeAbsolute
  | ResolveWorkspaceRoot io_error
  | OperationalNoParent
  | ResolveOperationalParent io_error
  | InspectOperationalParent io_error
  | OperationalParentNotDir
  | OperationalNoFileName
  | OperationalSymlink
  | OperationalNotRegular
  | InspectOperational io_error
  | ResolveOperational io_error
  | InsideWorkspace

definition check_operational_file :: "path \<Rightarrow> (world, unit, operational_error) act" where
  "check_operational_file candidate w =
     (case sys_read (fs_symlink_metadata candidate) w of
        (Ok metadata, w1) \<Rightarrow>
          (if is_symlink metadata then (Err OperationalSymlink, w1)
           else if \<not> is_file metadata then (Err OperationalNotRegular, w1)
           else (Ok (), w1))
      | (Err e, w1) \<Rightarrow> (if e = NotFound then (Ok (), w1) else (Err (InspectOperational e), w1)))"

definition resolve_operational_file :: "path \<Rightarrow> (world, path, operational_error) act" where
  "resolve_operational_file candidate w =
     (case sys_read (fs_canonicalize candidate) w of
        (Ok p, w1) \<Rightarrow> (Ok p, w1)
      | (Err e, w1) \<Rightarrow> (if e = NotFound then (Ok candidate, w1) else (Err (ResolveOperational e), w1)))"

definition validate_operational_state_path ::
  "path \<Rightarrow> path \<Rightarrow> (world, validated_operational_state_path, operational_error) act" where
  "validate_operational_state_path workspace_root state_path =
     (if \<not> is_absolute state_path then fail MustBeAbsolute
      else
        and_then (with_err ResolveWorkspaceRoot (sys_read (fs_canonicalize workspace_root)))
          (\<lambda>canonical_workspace.
        and_then (from_result (ok_or OperationalNoParent (path_parent state_path))) (\<lambda>parent.
        and_then (with_err ResolveOperationalParent (sys_read (fs_canonicalize parent)))
          (\<lambda>canonical_parent.
        and_then (with_err InspectOperationalParent (sys_read (fs_metadata canonical_parent)))
          (\<lambda>metadata.
        if \<not> is_dir metadata then fail OperationalParentNotDir
        else
          and_then (from_result (ok_or OperationalNoFileName (path_file_name state_path))) (\<lambda>file_name.
          let candidate = path_join canonical_parent [Normal file_name] in
          and_then (check_operational_file candidate) (\<lambda>_.
          and_then (resolve_operational_file candidate) (\<lambda>resolved_state_path.
          if path_starts_with resolved_state_path canonical_workspace then fail InsideWorkspace
          else ret \<lparr>vp_path = resolved_state_path, vp_parent_device = md_dev metadata,
                    vp_parent_inode = md_ino metadata\<rparr>))))))))"

section \<open>Start\<close>

datatype startup_error =
    NotConfigured string
  | NotUnicode string
  | ConfigFailed config_error
  | SocketFailed socket_error
  | OperationalFailed string operational_error
  | AuditLogFailed audit_error
  | StateFailed store_error
  | WorkspaceFailed fs_error

text \<open>\<open>std::env::var\<close> wants UTF-8.\<close>

definition env_var :: "externals \<Rightarrow> string \<Rightarrow> (string, startup_error) result" where
  "env_var X name =
     (case map_of (x_env X) name of
        None \<Rightarrow> Err (NotConfigured name)
      | Some v \<Rightarrow> (if valid_utf8 v then Ok v else Err (NotUnicode name)))"

definition optional_env_var :: "externals \<Rightarrow> string \<Rightarrow> (string option, startup_error) result" where
  "optional_env_var X name =
     (case map_of (x_env X) name of
        None \<Rightarrow> Ok None
      | Some v \<Rightarrow> (if valid_utf8 v then Ok (Some v) else Err (NotUnicode name)))"

definition operational_file ::
  "externals \<Rightarrow> path \<Rightarrow> string \<Rightarrow> (world, validated_operational_state_path, startup_error) act" where
  "operational_file X workspace_root name =
     and_then (from_result (env_var X name)) (\<lambda>v.
     with_err (OperationalFailed name) (validate_operational_state_path workspace_root (path_of v)))"

text \<open>Everything after the socket exists: its guard is dropped when one of these steps fails.\<close>

definition open_gateway ::
  "externals \<Rightarrow> store_json \<Rightarrow> gateway_config \<Rightarrow> path
   \<Rightarrow> (world, zyguor_gateway \<times> pending_review_store, startup_error) act" where
  "open_gateway X J config workspace_root =
     and_then (operational_file X workspace_root ''ZYGUOR_PENDING_REVIEW_STATE_PATH'')
       (\<lambda>validated_pending_review_state.
     and_then (operational_file X workspace_root ''ZYGUOR_AUDIT_LOG_PATH'') (\<lambda>validated_audit_log.
     and_then (with_err AuditLogFailed
       (from_validated_path (vp_path validated_audit_log) (vp_parent_device validated_audit_log)
          (vp_parent_inode validated_audit_log))) (\<lambda>log.
     and_then (with_err StateFailed
       (load_from_validated_path J (vp_path validated_pending_review_state)
          (vp_parent_device validated_pending_review_state)
          (vp_parent_inode validated_pending_review_state))) (\<lambda>store.
     and_then (with_err WorkspaceFailed (try_new X workspace_root)) (\<lambda>filesystem.
     ret (\<lparr>zg_filesystem = filesystem, zg_config = config, zg_audit = anchored_persist X log\<rparr>,
          store))))))"

record running_gateway =
  rg_gateway :: zyguor_gateway
  rg_state :: gateway_state
  rg_guard :: admin_socket_path_guard
  rg_warned_claimed :: nat

definition start_gateway ::
  "externals \<Rightarrow> store_json \<Rightarrow> (string \<Rightarrow> (gateway_config_file, string) result) \<Rightarrow> world
   \<Rightarrow> (running_gateway, startup_error) result \<times> world" where
  "start_gateway X J toml =
     and_then (from_result (env_var X ''ZYGUOR_WORKSPACE_ROOT'')) (\<lambda>workspace_root.
     and_then (from_result (env_var X ''ZYGUOR_ADMIN_SOCKET'')) (\<lambda>admin_socket_path.
     and_then (from_result (optional_env_var X ''ZYGUOR_CONFIG_PATH'')) (\<lambda>config_path.
     and_then (with_err ConfigFailed
       (resolve_gateway_config toml (x_host_parse X) (map_option path_of config_path))) (\<lambda>config.
     and_then (with_err SocketFailed (create_managed_admin_listener (path_of admin_socket_path)))
       (\<lambda>guard w.
     case open_gateway X J config (path_of workspace_root) w of
       (Err error, w1) \<Rightarrow> (Err error, drop_socket_guard guard w1)
     | (Ok (gateway, store), w1) \<Rightarrow>
         (Ok \<lparr>rg_gateway = gateway,
              rg_state = \<lparr>gs_store = store, gs_store_poisoned = False, gs_audit_poisoned = False,
                          gs_world = w1\<rparr>,
              rg_guard = guard, rg_warned_claimed = claimed_count store\<rparr>, w1))))))"

text \<open>
  The end of \<open>main\<close>: the admin task is stopped, its error is reported only when serving ended
  well, and the guard removes the socket except on that error path, where returning drops it too.
\<close>

datatype ('e, 'f) main_error = AdminShutdown "'e admin_task_error" | Serving 'f

definition shut_down ::
  "admin_socket_path_guard \<Rightarrow> (unit, 'f) result \<Rightarrow> 'e task_end \<Rightarrow> world
   \<Rightarrow> (unit, ('e, 'f) main_error) result \<times> world" where
  "shut_down guard gateway_result admin_task w =
     (case stop_admin_task admin_task of
        Err error \<Rightarrow>
          (if \<not> is_err gateway_result then (Err (AdminShutdown error), drop_socket_guard guard w)
           else (map_err Serving gateway_result, drop_socket_guard guard w))
      | Ok _ \<Rightarrow> (map_err Serving gateway_result, drop_socket_guard guard w))"

end
