(* ===== verification/Quiet.thy ===== *)
theory Quiet
  imports Startup
begin

text \<open>
  Which calls leave the trace of effects alone.  The rules of the collection
  \<open>keeps_intros\<close> follow the shapes in which the operations are written, so that a body made of
  quiet calls is quiet by \<open>intro\<close>.
\<close>

section \<open>Shapes of bodies\<close>

lemma keeps_if: "keeps R a \<Longrightarrow> keeps R b \<Longrightarrow> keeps R (if c then a else b)"
  by simp

lemma keeps_if_run: "keeps R a \<Longrightarrow> keeps R b \<Longrightarrow> keeps R (\<lambda>s. if c then a s else b s)"
  by (cases c) simp_all

lemma keeps_option:
  "keeps R a \<Longrightarrow> (\<And>x. keeps R (b x)) \<Longrightarrow> keeps R (case v of None \<Rightarrow> a | Some x \<Rightarrow> b x)"
  by (cases v) simp_all

lemma keeps_option_run:
  "keeps R a \<Longrightarrow> (\<And>x. keeps R (b x)) \<Longrightarrow> keeps R (\<lambda>s. case v of None \<Rightarrow> a s | Some x \<Rightarrow> b x s)"
  by (cases v) simp_all

lemma keeps_result:
  "(\<And>x. keeps R (a x)) \<Longrightarrow> (\<And>e. keeps R (b e)) \<Longrightarrow> keeps R (case r of Ok x \<Rightarrow> a x | Err e \<Rightarrow> b e)"
  by (cases r) simp_all

lemma keeps_result_run:
  "(\<And>x. keeps R (a x)) \<Longrightarrow> (\<And>e. keeps R (b e)) \<Longrightarrow>
   keeps R (\<lambda>s. case r of Ok x \<Rightarrow> a x s | Err e \<Rightarrow> b e s)"
  by (cases r) simp_all

lemma keeps_prod: "(\<And>x y. keeps R (f x y)) \<Longrightarrow> keeps R (case p of (x, y) \<Rightarrow> f x y)"
  by (cases p) simp

lemma keeps_const: "reflp R \<Longrightarrow> keeps R (\<lambda>s. (r, s))"
  by (auto intro!: keepsI dest: reflpD)

lemma keeps_match:
  assumes "transp R" and "keeps R m" and "\<And>x. keeps R (a x)" and "\<And>e. keeps R (b e)"
  shows "keeps R (\<lambda>s. case m s of (Ok x, s') \<Rightarrow> a x s' | (Err e, s') \<Rightarrow> b e s')"
proof (rule keepsI)
  fix s r t
  assume run: "(case m s of (Ok x, s') \<Rightarrow> a x s' | (Err e, s') \<Rightarrow> b e s') = (r, t)"
  obtain q s' where q: "m s = (q, s')" by fastforce
  have "R s s'" using assms(2) q by (rule keepsD)
  moreover have "R s' t"
    using run q keepsD [OF assms(3)] keepsD [OF assms(4)] by (cases q) auto
  ultimately show "R s t" using assms(1) by (blast dest: transpD)
qed

lemma keeps_match_err:
  assumes "transp R" and "keeps R m" and "\<And>x. keeps R (a x)" and "\<And>e. keeps R (b e)"
  shows "keeps R (\<lambda>s. case m s of (Err e, s') \<Rightarrow> b e s' | (Ok x, s') \<Rightarrow> a x s')"
  using keeps_match [OF assms] by simp

lemma keeps_bind_run:
  assumes "transp R" and "keeps R m" and "\<And>q. keeps R (a q)"
  shows "keeps R (\<lambda>s. case m s of (q, s') \<Rightarrow> a q s')"
proof (rule keepsI)
  fix s r t
  assume run: "(case m s of (q, s') \<Rightarrow> a q s') = (r, t)"
  obtain q s' where q: "m s = (q, s')" by fastforce
  have "R s s'" using assms(2) q by (rule keepsD)
  moreover have "R s' t" using run q keepsD [OF assms(3)] by auto
  ultimately show "R s t" using assms(1) by (blast dest: transpD)
qed

lemmas keeps_shapes =
  keeps_if keeps_if_run keeps_option keeps_option_run keeps_result keeps_result_run keeps_prod

lemmas quiet_shapes [keeps_intros] =
  keeps_shapes [where R = quiet] keeps_const [OF quiet_reflp] keeps_match [OF quiet_transp]

section \<open>Calls of the file system\<close>

lemma quiet_path_calls [keeps_intros]:
  "keeps quiet (sys_create_dir p)" "keeps quiet (sys_create_new p m)" "keeps quiet (sys_remove_file p)"
  "keeps quiet (sys_remove_dir_all p)" "keeps quiet (sys_bind_socket p)"
  "keeps quiet (sys_set_permissions p m)"
  unfolding sys_create_dir_def sys_create_new_def sys_remove_file_def sys_remove_dir_all_def
    sys_bind_socket_def sys_set_permissions_def
  by (rule keeps_intros)+

lemma quiet_sys_copy [keeps_intros]: "keeps quiet (sys_copy p q)"
  unfolding sys_copy_def by (intro keeps_intros)

lemma quiet_for_each [keeps_intros]:
  "(\<And>x acc. keeps quiet (body x acc)) \<Longrightarrow> keeps quiet (for_each body xs acc)"
  by (rule keeps_for_each [OF quiet_transp quiet_reflp])

lemma quiet_new_uuid: "new_uuid w = (u, w') \<Longrightarrow> quiet w w'"
  by (auto simp: new_uuid_def)

lemma quiet_instant_now: "instant_now w = (n, w') \<Longrightarrow> quiet w w'"
  by (auto simp: instant_now_def Let_def quiet_def same_env_def tick_def)

lemma quiet_sleep [simp]: "quiet w (sleep n w)"
  by (simp add: sleep_def quiet_def same_env_def)

lemma quiet_ignore_err: "keeps quiet m \<Longrightarrow> quiet w (ignore_err m w)"
  by (simp add: ignore_err_def keeps_def)

text \<open>The events a run appended; a quiet run appended none.\<close>

definition adds :: "event list \<Rightarrow> world \<Rightarrow> world \<Rightarrow> bool" where
  "adds es w w' \<longleftrightarrow> same_env w w' \<and> w_trace w' = w_trace w @ es"

lemma adds_Nil: "adds [] w w' \<longleftrightarrow> quiet w w'"
  by (simp add: adds_def quiet_def)

lemma adds_trans: "adds a u v \<Longrightarrow> adds b v w \<Longrightarrow> adds (a @ b) u w"
  by (auto simp: adds_def intro: same_env_trans)

lemma adds_quiet: "quiet u v \<Longrightarrow> adds es v w \<Longrightarrow> adds es u w"
  by (auto simp: adds_def quiet_def intro: same_env_trans)

lemma quiet_adds: "adds es u v \<Longrightarrow> quiet v w \<Longrightarrow> adds es u w"
  by (auto simp: adds_def quiet_def intro: same_env_trans)

lemma adds_emit: "adds [ev] w (emit ev w)"
  by (simp add: adds_def emit_def same_env_def)

text \<open>A cleanup whose result is dropped never shows.\<close>

lemma quiet_cleanup:
  "keeps quiet m \<Longrightarrow> quiet w (ignore_err m v) \<longleftrightarrow> quiet w v"
  "keeps quiet m \<Longrightarrow> adds es w (ignore_err m v) \<longleftrightarrow> adds es w v"
  using quiet_ignore_err [of m v] by (auto simp: adds_def quiet_def same_env_def)

lemmas quiet_cleanups [simp] =
  quiet_cleanup [OF quiet_sys_update] quiet_cleanup [OF quiet_path_calls(3)]
  quiet_cleanup [OF quiet_path_calls(4)]

section \<open>Workspace\<close>

lemma quiet_optional_metadata [keeps_intros]: "keeps quiet (optional_metadata p)"
  unfolding optional_metadata_def
  by (rule keepsI) (auto split: prod.splits result.splits dest: keepsD [OF quiet_sys_read])

lemma quiet_collect_root_file [keeps_intros]: "keeps quiet (collect_root_file ws n files)"
  unfolding collect_root_file_def Let_def by (intro keeps_intros)

lemma quiet_collect_files [keeps_intros]: "keeps quiet (collect_files k ws d files)"
proof (induction k arbitrary: d files)
  case 0
  show ?case unfolding collect_files.simps by (intro keeps_intros)
next
  case (Suc k)
  show ?case unfolding collect_files.simps collect_entry_def Let_def by (intro keeps_intros Suc.IH)
qed

lemma quiet_collect_directory [keeps_intros]: "keeps quiet (collect_directory ws n files)"
  unfolding collect_directory_def Let_def by (intro keeps_intros)

lemma quiet_hash_file [keeps_intros]: "keeps quiet (hash_file ws p h)"
  unfolding hash_file_def by (intro keeps_intros)

lemma quiet_fingerprint [keeps_intros]: "keeps quiet (compute_workspace_fingerprint X ws)"
  unfolding compute_workspace_fingerprint_def by (intro keeps_intros)

lemma quiet_copy_directory [keeps_intros]: "keeps quiet (copy_directory k ws s d)"
proof (induction k arbitrary: s d)
  case 0
  show ?case unfolding copy_directory.simps by (intro keeps_intros)
next
  case (Suc k)
  show ?case unfolding copy_directory.simps copy_entry_def Let_def by (intro keeps_intros Suc.IH)
qed

lemma quiet_copy_workspace_inputs [keeps_intros]: "keeps quiet (copy_workspace_inputs ws s)"
  unfolding copy_workspace_inputs_def copy_root_file_def copy_source_directory_def Let_def
  by (intro keeps_intros)

section \<open>Workspace files, repositories, the sandbox\<close>

lemma quiet_resolve_existing_path [keeps_intros]: "keeps quiet (resolve_existing_path fc p)"
  unfolding resolve_existing_path_def by (intro keeps_intros)

lemma quiet_sys_is_file: "sys_is_file p w = (b, w') \<Longrightarrow> quiet w w'"
  by (auto simp: sys_is_file_def split: prod.splits result.splits dest: keepsD [OF quiet_sys_read])

lemma quiet_resolve_write_target [keeps_intros]: "keeps quiet (resolve_write_target fc p)"
  unfolding resolve_write_target_def
proof (intro keeps_intros, goal_cases)
  case (1 candidate root canonical)
  show ?case
    by (rule keepsI) (auto split: prod.splits if_splits dest: quiet_sys_is_file)
qed

lemma quiet_revalidate_write_target [keeps_intros]: "keeps quiet (revalidate_write_target fc p)"
  unfolding revalidate_write_target_def Let_def
  by (rule keepsI)
    (auto elim!: and_then_cases with_err_cases
      split: option.splits if_splits prod.splits result.splits
      dest!: keepsD [OF quiet_sys_read] intro: quiet_trans)

lemma quiet_capture_write_target_state [keeps_intros]:
  "keeps quiet (capture_write_target_state X fc p)"
proof -
  have "keeps quiet (\<lambda>w. case sys_read f w of
             (Err e, w1) \<Rightarrow> if e = NotFound then (Ok Missing, w1) else (Err (InspectTarget e), w1)
           | (Ok metadata, w1) \<Rightarrow>
               if is_symlink metadata then (Err TargetIsSymlink, w1)
               else if \<not> is_file metadata then (Err TargetNotRegular, w1)
               else and_then (with_err OpenTarget (sys_read g))
                   (\<lambda>file. and_then (with_err ReadTarget (sys_read (file_bytes file)))
                        (\<lambda>bytes. ret (Existing (sha256_hex X bytes)))) w1)" for f g
    by (intro keeps_intros)
  then show ?thesis
    unfolding capture_write_target_state_def Let_def by (intro keeps_intros)
qed

lemma quiet_read_text_file [keeps_intros]: "keeps quiet (read_text_file fc p)"
  unfolding read_text_file_def Let_def by (intro keeps_intros)

lemma quiet_read_git_status [keeps_intros]: "keeps quiet (read_git_status X p)"
proof -
  have "keeps quiet (\<lambda>w. (r w, tick w))" for r :: "world \<Rightarrow> (git_repository, git_error) result"
    by (rule keepsI) auto
  then show ?thesis unfolding read_git_status_def Let_def by (intro keeps_intros)
qed

lemma quiet_execute_add [keeps_intros]: "keeps quiet (execute_add X c a)"
  unfolding execute_add_def by (rule keepsI) (metis run_addition_world snd_conv quiet_tick)

section \<open>The store\<close>

lemma quiet_save_closure [keeps_intros]: "keeps quiet (save_closure d t n s)"
  unfolding save_closure_def by (intro keeps_intros)

lemma quiet_persist [keeps_intros]: "keeps quiet (persist X J st)"
proof -
  have "keeps quiet (save_to_anchored_path_classified X J st p d)" for p d
    by (rule keepsI)
      (auto simp: save_to_anchored_path_classified_def Let_def
        split: result.splits option.splits if_splits prod.splits
        dest!: quiet_new_uuid keepsD [OF quiet_save_closure]
        intro: quiet_trans quiet_ignore_err keeps_intros)
  then show ?thesis
    unfolding persist_def by (auto split: option.splits intro: keeps_intros)
qed

lemma quiet_store_ops:
  "store_insert X J p (st, w) = (r1, (st', w')) \<Longrightarrow> quiet w w'"
  "store_claim X J k (st, w) = (r2, (st', w')) \<Longrightarrow> quiet w w'"
  "store_restore_claimed X J p (st, w) = (r3, (st', w')) \<Longrightarrow> quiet w w'"
  "store_consume_claimed X J k (st, w) = (r4, (st', w')) \<Longrightarrow> quiet w w'"
  unfolding store_insert_def store_claim_def store_restore_claimed_def store_consume_claimed_def Let_def
  by (auto split: if_splits option.splits prod.splits result.splits persistence_failure.splits
      dest: keepsD [OF quiet_persist])

section \<open>Operations with one effect\<close>

lemma replace_through_temporary_events:
  assumes "replace_through_temporary d t p m name content w = (r, w')"
  shows "adds (if r = Ok () then [EvReplaced name content] else []) w w'"
proof -
  let ?steps = "and_then (with_err CreateTemporary (sys_update (cd_create_new d t))) (\<lambda>i.
     and_then (case m of None \<Rightarrow> ret () | Some mode \<Rightarrow> with_err PreservePermissions (sys_chmod i mode)) (\<lambda>_.
     and_then (with_err WriteTemporary (sys_write_all i content)) (\<lambda>_.
     and_then (with_err SyncTemporary (sys_sync i)) (\<lambda>_.
     with_err ReplaceTarget (sys_update (cd_rename d t p))))))"
  have q: "keeps quiet ?steps" by (intro keeps_intros)
  have "replace_through_temporary d t p m name content =
      and_then ?steps (\<lambda>_ w. (Ok (), emit (EvReplaced name content) w))"
    by (simp add: replace_through_temporary_def and_then_assoc)
  then have "and_then ?steps (\<lambda>_ w. (Ok (), emit (EvReplaced name content) w)) w = (r, w')"
    using assms by simp
  then show ?thesis
    by (rule and_then_cases)
      (auto simp: adds_Nil dest!: keepsD [OF q] intro: adds_quiet adds_emit)
qed

lemma write_text_file_events:
  assumes "write_text_file X fc name content w = (r, w')"
  shows "adds (if r = Ok () then [EvReplaced name content] else []) w w'"
  using assms unfolding write_text_file_def Let_def
  by (auto simp: adds_Nil elim!: and_then_cases
      split: if_splits option.splits prod.splits result.splits
      dest!: quiet_new_uuid replace_through_temporary_events keepsD [OF quiet_sys_read]
        keepsD [OF quiet_revalidate_write_target])
    (auto simp: quiet_def adds_def same_env_def)

lemma quiet_build_client [keeps_intros]: "keeps quiet (build_client_for_destination X c d)"
proof -
  have "keeps quiet (resolve_safe_outbound_addresses X h p)" for h p
    unfolding resolve_safe_outbound_addresses_def
    by (rule keepsI) (auto split: result.splits if_splits prod.splits option.splits)
  then show ?thesis unfolding build_client_for_destination_def Let_def by (intro keeps_intros)
qed

definition http_event :: "http_method \<Rightarrow> validated_http_url \<Rightarrow> string option \<Rightarrow> event" where
  "http_event m d body = EvHttp m (url_text (as_url d)) (case m of Get \<Rightarrow> None | Post \<Rightarrow> body)"

lemma execute_with_client_events:
  assumes "execute_with_client X c client m d body w = (r, w')"
  shows "adds [http_event m d body] w w'"
  using assms unfolding execute_with_client_def Let_def http_event_def
  by (auto split: prod.splits result.splits dest!: quiet_instant_now)
    (auto simp: adds_def quiet_def same_env_def emit_def tick_def)

lemma http_execute_events:
  assumes "http_execute X c m d body w = (r, w')"
  shows "(\<exists>e. r = Err e) \<and> quiet w w' \<or> adds [http_event m d body] w w'"
  using assms unfolding http_execute_def
  by (auto elim!: and_then_cases split: if_splits
      dest!: keepsD [OF quiet_build_client] execute_with_client_events intro: adds_quiet)

lemma quiet_create_capture_file [keeps_intros]: "keeps quiet (create_capture_file X label)"
proof (rule keepsI)
  fix w r w'
  assume "create_capture_file X label w = (r, w')"
  then show "quiet w w'"
    unfolding create_capture_file_def Let_def
    by (auto split: prod.splits elim!: and_then_cases with_err_cases
        dest!: quiet_new_uuid keepsD [OF quiet_path_calls(2)] intro: quiet_trans)
qed

lemma quiet_read_capture_file [keeps_intros]: "keeps quiet (read_capture_file p m)"
  unfolding read_capture_file_def by (intro keeps_intros)

lemma quiet_remove_capture_file [keeps_intros]: "keeps quiet (remove_capture_file p)"
  unfolding remove_capture_file_def
  by (rule keepsI) (auto split: prod.splits result.splits if_splits dest: keepsD [OF quiet_path_calls(3)])

lemmas quiet_cleanup_capture [simp] = quiet_cleanup [OF quiet_remove_capture_file]

lemma quiet_poll_loop: "poll_loop timeout child started round w = (r, w') \<Longrightarrow> quiet w w'"
proof (induction timeout child started round w arbitrary: r w' rule: poll_loop.induct)
  case (1 timeout child started round w)
  obtain now w1 where now: "instant_now w = (now, w1)" by fastforce
  then have q: "quiet w w1" by (rule quiet_instant_now)
  show ?case
  proof (cases "ch_poll child round = Ok None \<and> \<not> timeout \<le> now - started")
    case True
    then have "poll_loop timeout child started (Suc round) (sleep poll_interval w1) = (r, w')"
      using "1.prems" now by (subst (asm) poll_loop.simps) simp
    then have "quiet (sleep poll_interval w1) w'"
      using "1.IH" [OF _ _ now [symmetric]] True by simp
    then show ?thesis using q quiet_sleep quiet_trans by blast
  next
    case False
    then show ?thesis
      using "1.prems" now q
      by (subst (asm) poll_loop.simps) (auto split: result.splits option.splits)
  qed
qed

lemma quiet_collect_output [keeps_intros]: "keeps quiet (collect_output c p q s t started)"
  unfolding collect_output_def
  by (rule keepsI)
    (auto split: prod.splits exit_status.splits elim!: and_then_cases
      dest!: keepsD [OF quiet_read_capture_file] keepsD [OF quiet_remove_capture_file] quiet_instant_now,
      auto simp: quiet_def same_env_def)

lemma quiet_supervise: "supervise c child p q i j started w = (r, w') \<Longrightarrow> quiet w w'"
proof -
  assume run: "supervise c child p q i j started w = (r, w')"
  let ?w1 = "w\<lparr>w_fs := fs_append j (ch_stderr child) (fs_append i (ch_stdout child) (w_fs w))\<rparr>"
  have first: "quiet w ?w1" by (simp add: quiet_def same_env_def)
  obtain s t w2 where loop: "poll_loop (cc_timeout c) child started 0 ?w1 = ((s, t), w2)"
    by (metis surj_pair)
  have "quiet ?w1 w2" using loop by (rule quiet_poll_loop)
  with first have q: "quiet w w2" by (rule quiet_trans)
  from run loop show "quiet w w'"
    unfolding supervise_def Let_def
    by (cases s)
      (auto simp: q elim!: and_then_cases dest!: keepsD [OF quiet_collect_output] intro: quiet_trans [OF q])
qed

lemma run_in_snapshot_events:
  assumes "run_in_snapshot X c snapshot fp started w = (r, w')"
  shows "(\<exists>e. r = Err e) \<and> quiet w w' \<or> adds [EvCargo fp] w w'"
proof -
  have spawned: "adds [EvCargo fp] w w'"
    if "quiet w v" "supervise c child p q i j started (emit (EvCargo fp) (tick v)) = (r, w')"
    for v child p q i j
  proof -
    have "adds [EvCargo fp] w (emit (EvCargo fp) (tick v))"
      by (rule adds_quiet [OF quiet_trans [OF that(1) quiet_tick] adds_emit])
    then show ?thesis using quiet_supervise [OF that(2)] by (rule quiet_adds)
  qed
  let ?fingerprint = "with_err FingerprintSnapshot (compute_workspace_fingerprint X snapshot)"
  have qf: "keeps quiet ?fingerprint" by (intro keeps_intros)
  note qc = keepsD [OF quiet_create_capture_file]
  from assms [unfolded run_in_snapshot_def] show ?thesis
  proof (cases rule: and_then_cases)
    case (1 e)
    then show ?thesis using keepsD [OF qf] by blast
  next
    case (2 fp' w1)
    have q1: "quiet w w1" using 2(1) by (rule keepsD [OF qf])
    show ?thesis
    proof (cases "fp' = fp")
      case False
      then show ?thesis using 2(2) q1 by auto
    next
      case True
      note rest = 2(2) [unfolded True simp_thms if_False]
      then show ?thesis
      proof (cases rule: and_then_cases)
        case (1 e)
        then show ?thesis using q1 qc quiet_trans by blast
      next
        case (2 out w2)
        have q2: "quiet w w2" using qc [OF 2(1)] by (rule quiet_trans [OF q1])
        obtain s w3 where err: "create_capture_file X ''stderr'' w2 = (s, w3)" by fastforce
        have q3: "quiet w w3" using qc [OF err] by (rule quiet_trans [OF q2])
        have q4: "quiet w (tick w3)" using q3 quiet_tick by (rule quiet_trans)
        show ?thesis
          using 2(2) err q3 q4 spawned [OF q3]
          by (cases s) (auto split: prod.splits result.splits)
      qed
    qed
  qed
qed

lemma quiet_create_snapshot [keeps_intros]: "keeps quiet (create_snapshot X ws)"
  unfolding create_snapshot_def Let_def
  by (rule keepsI)
    (auto split: prod.splits result.splits elim!: with_err_cases
      dest!: quiet_new_uuid keepsD [OF quiet_path_calls(1)] keepsD [OF quiet_copy_workspace_inputs]
        keepsD [OF quiet_with_err [OF quiet_path_calls(1)]],
      auto simp: quiet_def same_env_def)

lemma cargo_run_events:
  assumes "cargo_run X c ws fp w = (r, w')"
  shows "(\<exists>e. r = Err e) \<and> quiet w w' \<or> adds [EvCargo fp] w w'"
proof -
  obtain started w1 where i: "instant_now w = (started, w1)" by fastforce
  note q1 = quiet_instant_now [OF i]
  obtain s w2 where create: "with_err CargoWorkspace (create_snapshot X ws) w1 = (s, w2)" by fastforce
  have "quiet w1 w2" using create by (rule keepsD [OF quiet_with_err [OF quiet_create_snapshot]])
  with q1 have q2: "quiet w w2" by (rule quiet_trans)
  show ?thesis
  proof (cases s)
    case (Err e)
    then show ?thesis using assms i create q2 by (auto simp: cargo_run_def)
  next
    case (Ok snapshot)
    obtain q w3 where run: "run_in_snapshot X c snapshot fp started w2 = (q, w3)" by fastforce
    then have "r = q" "w' = drop_snapshot snapshot w3"
      using assms i create Ok by (auto simp: cargo_run_def)
    then show ?thesis
      using run_in_snapshot_events [OF run] q2
      by (auto simp: drop_snapshot_def intro: quiet_trans adds_quiet)
  qed
qed

section \<open>Calls that only look\<close>

definition same_fs :: "world \<Rightarrow> world \<Rightarrow> bool" where
  "same_fs w w' \<longleftrightarrow> w_fs w' = w_fs w"

lemma same_fs_refl: "reflp same_fs" "transp same_fs"
  by (auto simp: reflp_def transp_def same_fs_def)

lemmas same_fs_shapes [keeps_intros] =
  keeps_shapes [where R = same_fs] keeps_const [OF same_fs_refl(1)] keeps_match [OF same_fs_refl(2)]
  keeps_pure [OF same_fs_refl(1)] keeps_and_then [OF same_fs_refl(2)] keeps_with_err [where R = same_fs]

lemma same_fs_sys_read [keeps_intros]: "keeps same_fs (sys_read f)"
  by (rule keepsI) (simp add: same_fs_def sys_read_fs)

lemma same_fs_resolve [keeps_intros]: "keeps same_fs (resolve_existing_path fc p)"
  unfolding resolve_existing_path_def by (intro keeps_intros)

lemma same_fs_revalidate_write [keeps_intros]: "keeps same_fs (revalidate_write_target fc p)"
  unfolding revalidate_write_target_def Let_def
  by (rule keepsI)
    (auto simp: same_fs_def elim!: and_then_cases with_err_cases
      split: option.splits if_splits prod.splits result.splits dest!: sys_read_fs)

section \<open>What a started build was checked against\<close>

lemma run_in_snapshot_hashed:
  assumes "run_in_snapshot X config snapshot fingerprint started w = (r, w')" and "w_trace w' \<noteq> w_trace w"
  shows "\<exists>w1. compute_workspace_fingerprint X snapshot w = (Ok fingerprint, w1)"
proof -
  let ?hash = "with_err FingerprintSnapshot (compute_workspace_fingerprint X snapshot)"
  have quiet: "keeps quiet ?hash" by (intro keeps_intros)
  from assms(1) [unfolded run_in_snapshot_def] show ?thesis
  proof (cases rule: and_then_cases)
    case (1 e)
    then show ?thesis using keepsD [OF quiet 1(1)] assms(2) by (simp add: quiet_def)
  next
    case (2 found w1)
    then show ?thesis
      using keepsD [OF quiet 2(1)] assms(2)
      by (cases "found = fingerprint") (auto simp: quiet_def with_err_eq_Ok)
  qed
qed

end
