(* ===== verification/Safety.thy ===== *)
theory Safety
  imports Quiet
begin

text \<open>
  What the handlers do to the trace of effects.  Every effect a handler causes comes after an audit
  record of its own request that is already on the device; the tool handler never causes an effect
  that needs a human decision.
\<close>

section \<open>Guarded runs\<close>

fun effect :: "event \<Rightarrow> bool" where
  "effect (EvAudit r) = False"
| "effect EvAuditSynced = False"
| "effect (EvReplaced p c) = True"
| "effect (EvCargo f) = True"
| "effect (EvHttp m u b) = True"

text \<open>A record of this kind is in the run before position \<open>k\<close>, synced.\<close>

definition synced_before :: "(audit_record \<Rightarrow> bool) \<Rightarrow> event list \<Rightarrow> nat \<Rightarrow> bool" where
  "synced_before P es k \<longleftrightarrow>
     (\<exists>j r. Suc j < k \<and> Suc j < length es \<and> es ! j = EvAudit r \<and> P r \<and> es ! Suc j = EvAuditSynced)"

definition guarded :: "(audit_record \<Rightarrow> bool) \<Rightarrow> event list \<Rightarrow> bool" where
  "guarded P es \<longleftrightarrow> (\<forall>k<length es. effect (es ! k) \<longrightarrow> synced_before P es k)"

lemma guarded_quiet: "(\<And>e. e \<in> set es \<Longrightarrow> \<not> effect e) \<Longrightarrow> guarded P es"
  by (auto simp: guarded_def)

lemma synced_before_append:
  "synced_before P a k \<Longrightarrow> synced_before P (a @ b) k"
  unfolding synced_before_def by (fastforce simp: nth_append)

lemma synced_before_mono: "synced_before P es k \<Longrightarrow> k \<le> l \<Longrightarrow> synced_before P es l"
  unfolding synced_before_def by (meson order.strict_trans2)

lemma guarded_append:
  assumes "guarded P a" and "\<And>e. e \<in> set b \<Longrightarrow> \<not> effect e"
  shows "guarded P (a @ b)"
  unfolding guarded_def
proof (intro allI impI)
  fix k assume k: "k < length (a @ b)" "effect ((a @ b) ! k)"
  then have "k < length a" using assms(2) by (auto simp: nth_append split: if_splits)
  then show "synced_before P (a @ b) k"
    using assms(1) k by (intro synced_before_append) (simp add: guarded_def nth_append)
qed

lemma guarded_armed:
  assumes "guarded P a" and "synced_before P a (length a)"
  shows "guarded P (a @ b)"
  unfolding guarded_def
proof (intro allI impI)
  fix k assume k: "k < length (a @ b)" "effect ((a @ b) ! k)"
  show "synced_before P (a @ b) k"
  proof (cases "k < length a")
    case True
    then show ?thesis
      using assms(1) k by (intro synced_before_append) (simp add: guarded_def nth_append)
  next
    case False
    then show ?thesis
      using assms(2) False by (intro synced_before_mono [OF synced_before_append]) auto
  qed
qed

lemma synced_pair: "P r \<Longrightarrow> synced_before P (a @ [EvAudit r, EvAuditSynced] @ b) (length (a @ [EvAudit r, EvAuditSynced] @ b))"
  unfolding synced_before_def
  by (rule exI [where x = "length a"], rule exI [where x = r]) (simp add: nth_append)

lemma guarded_by:
  assumes "P r" and "\<And>e. e \<in> set a \<Longrightarrow> \<not> effect e"
  shows "guarded P (a @ EvAudit r # EvAuditSynced # b)"
proof -
  have "guarded P ((a @ [EvAudit r, EvAuditSynced]) @ b)"
  proof (rule guarded_armed)
    show "guarded P (a @ [EvAudit r, EvAuditSynced])"
      using assms(2) by (intro guarded_quiet) auto
    show "synced_before P (a @ [EvAudit r, EvAuditSynced]) (length (a @ [EvAudit r, EvAuditSynced]))"
      using synced_pair [of P r a "[]"] assms(1) by simp
  qed
  then show ?thesis by simp
qed

section \<open>Handlers\<close>

text \<open>The parts of the state that only the store operations change.\<close>

definition same_shell :: "gateway_state \<Rightarrow> gateway_state \<Rightarrow> bool" where
  "same_shell gs gs' \<longleftrightarrow>
     gs_store gs' = gs_store gs \<and> gs_store_poisoned gs' = gs_store_poisoned gs \<and>
     gs_audit_poisoned gs' = gs_audit_poisoned gs"

definition emits :: "event list \<Rightarrow> gateway_state \<Rightarrow> gateway_state \<Rightarrow> bool" where
  "emits es gs gs' \<longleftrightarrow> adds es (gs_world gs) (gs_world gs')"

lemma same_shell_refl [simp]: "same_shell gs gs"
  by (simp add: same_shell_def)

lemma same_shell_trans: "same_shell a b \<Longrightarrow> same_shell b c \<Longrightarrow> same_shell a c"
  by (simp add: same_shell_def)

lemma emits_Nil_refl [simp]: "emits [] gs gs"
  by (simp add: emits_def adds_Nil)

lemma emits_trans: "emits a gs gs1 \<Longrightarrow> emits b gs1 gs2 \<Longrightarrow> emits (a @ b) gs gs2"
  by (auto simp: emits_def intro: adds_trans)

lemma on_world_runs:
  assumes "on_world m gs = (r, gs')"
  obtains w' where "m (gs_world gs) = (r, w')" and "gs' = gs\<lparr>gs_world := w'\<rparr>"
  using assms by (auto simp: on_world_def split: prod.splits)

lemma on_world_shell: "on_world m gs = (r, gs') \<Longrightarrow> same_shell gs gs'"
  by (auto elim!: on_world_runs simp: same_shell_def)

lemma on_world_quiet: "keeps quiet m \<Longrightarrow> on_world m gs = (r, gs') \<Longrightarrow> emits [] gs gs'"
  by (auto elim!: on_world_runs simp: emits_def adds_Nil dest: keepsD)

lemma audit_record_for_runs:
  assumes "audit_record_for u message d p stage out gs = (r, gs')"
  shows "emits [] gs gs'" and "same_shell gs gs'"
    and "r = Ok rec \<Longrightarrow> ar_request_id rec = u \<and> ar_phase rec = stage \<and> ar_decision rec = d \<and>
           ar_reason rec = p \<and> ar_message rec = message \<and> ar_execution_outcome rec = out"
proof -
  obtain w' where w': "(case new_audit_record u message d p stage out (gs_world gs) of
      (record, w') \<Rightarrow> (ok_or (AuditRecordFailed stage) record, w')) = (r, w')"
    and gs': "gs' = gs\<lparr>gs_world := w'\<rparr>"
    using assms unfolding audit_record_for_def by (rule on_world_runs)
  show "emits [] gs gs'"
    using w' gs' by (auto simp: emits_def adds_Nil split: prod.splits dest: quiet_new_audit_record)
  show "same_shell gs gs'" using gs' by (simp add: same_shell_def)
  show "ar_request_id rec = u \<and> ar_phase rec = stage \<and> ar_decision rec = d \<and>
      ar_reason rec = p \<and> ar_message rec = message \<and> ar_execution_outcome rec = out" if "r = Ok rec"
    using that w' by (auto simp: new_audit_record_def split: prod.splits option.splits)
qed

section \<open>The contract of an audit writer\<close>

text \<open>What the handlers are given to write with: it touches nothing but the audit log.\<close>

locale audit_writer =
  fixes writer :: "audit_record \<Rightarrow> (unit, audit_failure) handler"
  assumes writes: "writer r gs = (Ok u, gs') \<Longrightarrow> emits [EvAudit r, EvAuditSynced] gs gs'"
    and writes_shell: "writer r gs = (q, gs') \<Longrightarrow> same_shell gs gs'"
    and writes_part: "writer r gs = (q, gs') \<Longrightarrow>
      \<exists>es. es \<in> {[], [EvAudit r], [EvAudit r, EvAuditSynced]} \<and> emits es gs gs'"
begin

lemma writes_no_effect:
  assumes "writer r gs = (q, gs')"
  obtains es where "emits es gs gs'" and "\<forall>e\<in>set es. \<not> effect e"
  using writes_part [OF assms] by auto

text \<open>An operation run after the record of its own request is written.\<close>

lemma allowed_execution_runs:
  assumes "allowed_execution u message ev writer runner gs = (r, gs')"
    and runner: "\<And>q g g'. runner g = (q, g') \<Longrightarrow> \<exists>es. Q es \<and> emits es g g'"
    and none: "Q []"
  shows "\<exists>pre es. emits (pre @ es) gs gs' \<and> Q es \<and> (\<forall>e\<in>set pre. \<not> effect e) \<and>
    (es = [] \<or> (\<exists>rec. pre = [EvAudit rec, EvAuditSynced] \<and> ar_request_id rec = u \<and>
       ar_phase rec = PreExecution \<and> ar_decision rec = decision ev))"
  using assms(1) unfolding allowed_execution_def
proof (cases rule: and_then_cases)
  case (1 e)
  then show ?thesis
    using none audit_record_for_runs(1) by (intro exI [where x = "[]"]) auto
next
  case (2 rec gs1)
  note rec = audit_record_for_runs(1) [OF 2(1)] audit_record_for_runs(3) [OF 2(1) refl]
  from 2(2) show ?thesis
  proof (cases rule: and_then_cases)
    case (1 e)
    then obtain e' where "writer rec gs1 = (Err e', gs')"
      by (auto elim!: with_err_cases)
    then obtain es where "emits es gs1 gs'" "\<forall>e\<in>set es. \<not> effect e"
      by (rule writes_no_effect)
    then show ?thesis
      using emits_trans [OF rec(1)] none by (intro exI [where x = es] exI [where x = "[]"]) auto
  next
    case (2 v gs2)
    then have written: "emits [EvAudit rec, EvAuditSynced] gs gs2"
      using emits_trans [OF rec(1) writes] by (auto simp: with_err_eq_Ok)
    obtain q gs3 where run: "runner gs2 = (q, gs3)" by fastforce
    then obtain es where es: "Q es" "emits es gs2 gs3" using runner [OF run] by blast
    have "gs' = gs3" using 2(2) run by (auto split: result.splits)
    then have "emits ([EvAudit rec, EvAuditSynced] @ es) gs gs'"
      using emits_trans [OF written es(2)] by simp
    then show ?thesis
      using es(1) rec(2)
      by (rule_tac x = "[EvAudit rec, EvAuditSynced]" in exI, rule_tac x = es in exI) simp
  qed
qed

text \<open>The shape of a run with one operation in it.\<close>

lemma execute_message_runs:
  assumes "execute_message_with_audit_id X u message ev writer runner gs = (r, gs')"
    and runner: "\<And>q g g'. runner g = (q, g') \<Longrightarrow> \<exists>es. Q es \<and> emits es g g'"
    and none: "Q []"
  shows "\<exists>pre es post. emits (pre @ es @ post) gs gs' \<and> Q es \<and>
    (\<forall>e\<in>set (pre @ post). \<not> effect e) \<and>
    (es = [] \<or> (\<exists>rec. pre = [EvAudit rec, EvAuditSynced] \<and> ar_request_id rec = u \<and>
       ar_phase rec = PreExecution \<and> ar_decision rec = decision ev \<and> decision ev = Allow))"
  using assms(1) unfolding execute_message_with_audit_id_def
proof (cases rule: and_then_cases)
  case (1 e)
  then show ?thesis
    using none by (rule_tac x = "[]" in exI, rule_tac x = "[]" in exI, rule_tac x = "[]" in exI) simp
next
  case (2 v gs0)
  then have gs0: "gs0 = gs" by simp
  let ?arm = "case decision ev of Allow \<Rightarrow> allowed_execution u message ev writer runner
      | Review \<Rightarrow> ret (''held_for_review'', False, None, NotExecuted)
      | Block \<Rightarrow> ret (''blocked'', False, None, NotExecuted)"
  have arm: "\<exists>pre es. emits (pre @ es) gs g \<and> Q es \<and> (\<forall>e\<in>set pre. \<not> effect e) \<and>
    (es = [] \<or> (\<exists>rec. pre = [EvAudit rec, EvAuditSynced] \<and> ar_request_id rec = u \<and>
       ar_phase rec = PreExecution \<and> ar_decision rec = decision ev \<and> decision ev = Allow))"
    if "?arm gs = (q, g)" for q g
  proof (cases "decision ev")
    case Allow
    then have arm: "allowed_execution u message ev writer runner gs = (q, g)" using that by simp
    show ?thesis
      using allowed_execution_runs [OF arm, of Q] runner none Allow by auto
  qed (use that none in \<open>auto intro: exI [where x = "[]"]\<close>)
  from 2(2) [unfolded gs0] show ?thesis
  proof (cases rule: and_then_cases)
    case (1 e)
    from arm [OF 1(1)] obtain pre es where "emits (pre @ es) gs gs'" "Q es"
      "\<forall>e\<in>set pre. \<not> effect e" "es = [] \<or> (\<exists>rec. pre = [EvAudit rec, EvAuditSynced] \<and>
         ar_request_id rec = u \<and> ar_phase rec = PreExecution \<and> ar_decision rec = decision ev \<and> decision ev = Allow)"
      by blast
    then show ?thesis
      by (rule_tac x = pre in exI, rule_tac x = es in exI, rule_tac x = "[]" in exI) simp
  next
    case (2 out gs1)
    from arm [OF 2(1)] obtain pre es where pre: "emits (pre @ es) gs gs1" "Q es"
      "\<forall>e\<in>set pre. \<not> effect e" "es = [] \<or> (\<exists>rec. pre = [EvAudit rec, EvAuditSynced] \<and>
         ar_request_id rec = u \<and> ar_phase rec = PreExecution \<and> ar_decision rec = decision ev \<and> decision ev = Allow)"
      by blast
    obtain status executed res outcome where out: "out = (status, executed, res, outcome)"
      by (metis surj_pair)
    have "\<exists>post. emits post gs1 gs' \<and> (\<forall>e\<in>set post. \<not> effect e)"
      using 2(2) [unfolded out prod.case]
    proof (cases rule: and_then_cases)
      case (1 e)
      then show ?thesis using audit_record_for_runs(1) by (intro exI [where x = "[]"]) auto
    next
      case (2 rec gs2)
      obtain written gs3 where w: "writer rec gs2 = (written, gs3)" by fastforce
      obtain post where "emits post gs2 gs3" "\<forall>e\<in>set post. \<not> effect e"
        using writes_no_effect [OF w] .
      moreover have "gs' = gs3" using 2(2) w by (simp add: Let_def)
      ultimately show ?thesis
        using emits_trans [OF audit_record_for_runs(1) [OF 2(1)]] by fastforce
    qed
    then obtain post where "emits post gs1 gs'" "\<forall>e\<in>set post. \<not> effect e" by blast
    then show ?thesis
      using pre emits_trans [OF pre(1), of post gs']
      by (rule_tac x = pre in exI, rule_tac x = es in exI, rule_tac x = post in exI) auto
  qed
qed

lemma execute_reviewed_action_runs:
  assumes "execute_reviewed_action p writer operation gs = (r, gs')"
    and operation: "\<And>q g g'. operation g = (q, g') \<Longrightarrow> \<exists>es. Q es \<and> emits es g g'"
    and none: "Q []"
  shows "\<exists>pre es post. emits (pre @ es @ post) gs gs' \<and> Q es \<and>
    (\<forall>e\<in>set (pre @ post). \<not> effect e) \<and>
    (es = [] \<or> (\<exists>rec. pre = [EvAudit rec, EvAuditSynced] \<and> ar_request_id rec = pr_request_id p \<and>
       ar_phase rec = PreExecution \<and> ar_decision rec = Review))"
  using assms(1) unfolding execute_reviewed_action_def
proof (cases rule: and_then_cases)
  case (1 e)
  then show ?thesis
    using none by (rule_tac x = "[]" in exI, rule_tac x = "[]" in exI, rule_tac x = "[]" in exI) simp
next
  case (2 why gs0)
  then have gs0: "gs0 = gs" by simp
  from 2(2) [unfolded gs0] show ?thesis
  proof (cases rule: and_then_cases)
    case (1 e)
    then show ?thesis
      using none audit_record_for_runs(1)
      by (rule_tac x = "[]" in exI, rule_tac x = "[]" in exI, rule_tac x = "[]" in exI) auto
  next
    case (2 rec gs1)
    note rec = audit_record_for_runs(1) [OF 2(1)] audit_record_for_runs(3) [OF 2(1) refl]
    from 2(2) show ?thesis
    proof (cases rule: and_then_cases)
      case (1 e)
      then obtain e' where "writer rec gs1 = (Err e', gs')" by (auto elim!: with_err_cases)
      then obtain es where "emits es gs1 gs'" "\<forall>e\<in>set es. \<not> effect e" by (rule writes_no_effect)
      then show ?thesis
        using emits_trans [OF rec(1)] none
        by (rule_tac x = "[]" in exI, rule_tac x = "[]" in exI, rule_tac x = es in exI) fastforce
    next
      case (2 v gs2)
      then have written: "emits [EvAudit rec, EvAuditSynced] gs gs2"
        using emits_trans [OF rec(1) writes] by (auto simp: with_err_eq_Ok)
      obtain q gs3 where run: "operation gs2 = (q, gs3)" by fastforce
      then obtain es where es: "Q es" "emits es gs2 gs3" using operation [OF run] by blast
      have complete: "complete_reviewed_action p why writer q gs3 = (r, gs')"
        using 2(2) run by simp
      obtain c gs4 where c: "audit_record_for (pr_request_id p) (pr_purpose p) Review why Completion
          (operation_outcome q) gs3 = (c, gs4)" by fastforce
      have "\<exists>post. emits post gs3 gs' \<and> (\<forall>e\<in>set post. \<not> effect e)"
      proof (cases c)
        case (Err e)
        then show ?thesis
          using complete c audit_record_for_runs(1) [OF c]
          by (intro exI [where x = "[]"]) (simp add: complete_reviewed_action_def)
      next
        case (Ok completion)
        obtain written gs5 where w: "writer completion gs4 = (written, gs5)" by fastforce
        obtain post where "emits post gs4 gs5" "\<forall>e\<in>set post. \<not> effect e"
          using writes_no_effect [OF w] .
        moreover have "gs' = gs5"
          using complete c Ok w by (auto simp: complete_reviewed_action_def split: result.splits)
        ultimately show ?thesis using emits_trans [OF audit_record_for_runs(1) [OF c]] by fastforce
      qed
      then obtain post where "emits post gs3 gs'" "\<forall>e\<in>set post. \<not> effect e" by blast
      then show ?thesis
        using es(1) rec(2) emits_trans [OF written emits_trans [OF es(2)]]
        by (rule_tac x = "[EvAudit rec, EvAuditSynced]" in exI, rule_tac x = es in exI,
            rule_tac x = post in exI) auto
    qed
  qed
qed

text \<open>The three decisions of the operator are recorded through the same function.\<close>

lemma write_review_audit_runs:
  assumes "write_review_audit stage out p writer gs = (r, gs')"
  obtains rec where "r = Ok ()" and "emits [EvAudit rec, EvAuditSynced] gs gs'"
      and "ar_request_id rec = pr_request_id p" and "ar_phase rec = stage" and "ar_decision rec = Review"
      and "same_shell gs gs'"
  | es where "is_err r" and "emits es gs gs'" and "\<forall>e\<in>set es. \<not> effect e" and "same_shell gs gs'"
  using assms unfolding write_review_audit_def
proof (cases rule: and_then_cases)
  case (1 e)
  then show thesis using that(2) [of "[]"] by simp
next
  case (2 why gs0)
  then have gs0: "gs0 = gs" by simp
  from 2(2) [unfolded gs0] show thesis
  proof (cases rule: and_then_cases)
    case (1 e)
    then show thesis using that(2) [of "[]"] audit_record_for_runs(1,2) by auto
  next
    case (2 rec gs1)
    note rec = audit_record_for_runs(1,2) [OF 2(1)] audit_record_for_runs(3) [OF 2(1) refl]
    from 2(2) show thesis
    proof (cases rule: with_err_cases)
      case (1 u)
      then show thesis
        using that(1) [of rec] emits_trans [OF rec(1) writes [OF 1(1)]]
          same_shell_trans [OF rec(2) writes_shell [OF 1(1)]] rec(3) by auto
    next
      case (2 e)
      obtain es where "emits es gs1 gs'" "\<forall>e\<in>set es. \<not> effect e"
        using writes_no_effect [OF 2(1)] .
      then show thesis
        using that(2) [of es] emits_trans [OF rec(1)] 2
          same_shell_trans [OF rec(2) writes_shell [OF 2(1)]] by fastforce
    qed
  qed
qed

end

text \<open>A sink behind the audit mutex is such a writer.\<close>

sublocale audit_sink \<subseteq> handler: audit_writer "persist_audit_locked persist_record"
proof
  fix r gs q gs' and u :: unit
  show shell: "same_shell gs gs'" if "persist_audit_locked persist_record r gs = (q, gs')"
    using that by (auto simp: persist_audit_locked_def split: if_splits dest: on_world_shell)
  show "\<exists>es. es \<in> {[], [EvAudit r], [EvAudit r, EvAuditSynced]} \<and> emits es gs gs'"
    if "persist_audit_locked persist_record r gs = (q, gs')"
  proof (cases "gs_audit_poisoned gs")
    case True
    then show ?thesis
      using that by (intro exI [where x = "[]"]) (simp add: persist_audit_locked_def)
  next
    case False
    then have "on_world (with_err SinkFailed (persist_record r)) gs = (q, gs')"
      using that by (simp add: persist_audit_locked_def)
    then obtain w' where "with_err SinkFailed (persist_record r) (gs_world gs) = (q, w')"
      and "gs' = gs\<lparr>gs_world := w'\<rparr>"
      by (rule on_world_runs)
    moreover from this(1) obtain q' where "persist_record r (gs_world gs) = (q', w')"
      by (auto elim!: with_err_cases)
    then have "audit_progress r (gs_world gs) w'" by (rule persist_progress)
    then obtain es where "es \<in> {[], [EvAudit r], [EvAudit r, EvAuditSynced]}" "adds es (gs_world gs) w'"
      unfolding audit_progress_def adds_def by blast
    ultimately show ?thesis by (intro exI [where x = es]) (simp add: emits_def)
  qed
  show "emits [EvAudit r, EvAuditSynced] gs gs'"
    if "persist_audit_locked persist_record r gs = (Ok u, gs')"
  proof -
    from that obtain w' where "persist_record r (gs_world gs) = (Ok (), w')" "gs' = gs\<lparr>gs_world := w'\<rparr>"
      by (auto simp: persist_audit_locked_def with_err_eq_Ok split: if_splits elim!: on_world_runs)
    then show ?thesis using persist_ok by (auto simp: emits_def adds_def)
  qed
qed

section \<open>Handlers that only touch the store\<close>

lemma on_store_runs:
  assumes "on_store m gs = (r, gs')"
  obtains st' w' where "m (gs_store gs, gs_world gs) = (r, (st', w'))"
    and "gs' = gs\<lparr>gs_store := st', gs_world := w'\<rparr>"
  using assms by (auto simp: on_store_def split: prod.splits)

lemma store_handlers_emit_nothing:
  "locked e (with_err f (on_store (store_insert X J p))) gs = (r1, gs') \<Longrightarrow> emits [] gs gs'"
  "locked e (with_err f (on_store (store_claim X J k))) gs = (r2, gs') \<Longrightarrow> emits [] gs gs'"
  "restore_claimed_request X J p gs = (r3, gs') \<Longrightarrow> emits [] gs gs'"
  "consume_claimed_request X J k gs = (r4, gs') \<Longrightarrow> emits [] gs gs'"
  unfolding locked_def restore_claimed_request_def consume_claimed_request_def
  by (auto simp: emits_def adds_Nil split: if_splits elim!: with_err_cases on_store_runs
      dest: quiet_store_ops)

lemma restore_and_fail_runs:
  assumes "restore_and_fail X J p e gs = (r, gs')"
  shows "emits [] gs gs'" and "is_err r"
  using assms unfolding restore_and_fail_def
  by (auto elim!: and_then_cases with_err_cases dest: store_handlers_emit_nothing(3))

lemma restore_and_fail_not_Ok [simp]: "restore_and_fail X J p e gs \<noteq> (Ok x, gs')"
  using restore_and_fail_runs(2) [of X J p e gs "Ok x" gs'] by auto

lemma settle_claimed_emits: "settle_claimed X J p q gs = (r, gs') \<Longrightarrow> emits [] gs gs'"
  unfolding settle_claimed_def
  by (auto split: result.splits elim!: and_then_cases with_err_cases
      dest: store_handlers_emit_nothing(4) restore_and_fail_runs(1))

section \<open>The operations\<close>

lemma http_runner_of_emits:
  assumes "http_runner_of X c m d body gs = (r, gs')"
  shows "emits [] gs gs' \<or> emits [http_event m d body] gs gs'"
  using assms unfolding http_runner_of_def
  by (auto simp: emits_def adds_Nil elim!: on_world_runs with_err_cases dest!: http_execute_events)

text \<open>The only effect an allowed operation can have is a GET request.\<close>

definition get_only :: "event list \<Rightarrow> bool" where
  "get_only es \<longleftrightarrow> filter effect es = [] \<or> (\<exists>u. filter effect es = [EvHttp Get u None])"

definition at_most_get :: "event list \<Rightarrow> bool" where
  "at_most_get es \<longleftrightarrow> es = [] \<or> (\<exists>u. es = [EvHttp Get u None])"

lemma at_most_getI:
  "emits [] gs gs' \<or> emits [EvHttp Get u None] gs gs' \<Longrightarrow> \<exists>es. at_most_get es \<and> emits es gs gs'"
  unfolding at_most_get_def by blast

lemma run_allowed_operation_emits:
  assumes "run_allowed_operation X fc c (http_runner_of X c) request gs = (r, gs')"
  shows "\<exists>es. at_most_get es \<and> emits es gs gs'"
proof (cases request)
  case (HttpRequest a)
  show ?thesis
  proof (cases "http_method a")
    case Get
    have "\<exists>d. emits [] gs gs' \<or> emits [http_event Get d (http_body a)] gs gs'"
      using assms unfolding run_allowed_operation_def HttpRequest
      by (auto simp: Get elim!: and_then_cases dest: http_runner_of_emits)
    then obtain d where "emits [] gs gs' \<or> emits [http_event Get d (http_body a)] gs gs'" ..
    then show ?thesis
      by (intro at_most_getI [where u = "url_text (as_url d)"]) (simp add: http_event_def)
  next
    case Post
    then have "emits [] gs gs'" using assms by (simp add: run_allowed_operation_def HttpRequest)
    then show ?thesis by (intro at_most_getI disjI1)
  qed
next
  case (Add a)
  then have "emits [] gs gs'"
    using assms on_world_quiet [OF quiet_with_err [OF quiet_execute_add]]
    by (auto simp: run_allowed_operation_def elim!: and_then_cases)
  then show ?thesis by (intro at_most_getI disjI1)
next
  case (ReadFile a)
  then have "emits [] gs gs'"
    using assms on_world_quiet [OF quiet_with_err [OF quiet_read_text_file]]
    by (auto simp: run_allowed_operation_def elim!: and_then_cases)
  then show ?thesis by (intro at_most_getI disjI1)
next
  case GitStatus
  then have "emits [] gs gs'"
    using assms on_world_quiet [OF quiet_with_err [OF quiet_read_git_status]]
    by (auto simp: run_allowed_operation_def elim!: and_then_cases)
  then show ?thesis by (intro at_most_getI disjI1)
next
  case (WriteFile a)
  then have "emits [] gs gs'" using assms by (simp add: run_allowed_operation_def)
  then show ?thesis by (intro at_most_getI disjI1)
next
  case RunCargoTest
  then have "emits [] gs gs'" using assms by (simp add: run_allowed_operation_def)
  then show ?thesis by (intro at_most_getI disjI1)
qed

text \<open>The effect a reviewed request stands for.\<close>

inductive effect_of_review :: "pending_review \<Rightarrow> event \<Rightarrow> bool" where
  "pr_request p = WriteFile a \<Longrightarrow> effect_of_review p (EvReplaced (wf_path a) (wf_content a))"
| "pr_request p = RunCargoTest \<Longrightarrow> pr_workspace_fingerprint p = Some f \<Longrightarrow> effect_of_review p (EvCargo f)"
| "pr_request p = HttpRequest a \<Longrightarrow> http_method a = Post \<Longrightarrow> effect_of_review p (EvHttp Post u (http_body a))"

inductive_cases effect_of_reviewE: "effect_of_review p e"

inductive_simps effect_of_review_simps:
  "effect_of_review p (EvReplaced f c)"
  "effect_of_review p (EvCargo f)"
  "effect_of_review p (EvHttp m u b)"
  "effect_of_review p (EvAudit r)"
  "effect_of_review p EvAuditSynced"

definition at_most_effect :: "pending_review \<Rightarrow> event list \<Rightarrow> bool" where
  "at_most_effect p es \<longleftrightarrow> es = [] \<or> (\<exists>e. es = [e] \<and> effect_of_review p e)"

lemma at_most_effectI:
  "emits [] gs gs' \<or> emits [e] gs gs' \<and> effect_of_review p e \<Longrightarrow> \<exists>es. at_most_effect p es \<and> emits es gs gs'"
  unfolding at_most_effect_def by blast

lemma write_operation_emits:
  assumes "on_world (with_err FileFailed (write_text_file X fc (wf_path a) (wf_content a))) gs = (r, gs')"
    and "pr_request p = WriteFile a"
  shows "\<exists>es. at_most_effect p es \<and> emits es gs gs'"
proof -
  from assms(1) obtain w' q where "write_text_file X fc (wf_path a) (wf_content a) (gs_world gs) = (q, w')"
    and "gs' = gs\<lparr>gs_world := w'\<rparr>"
    by (auto elim!: on_world_runs with_err_cases)
  then have "adds (if q = Ok () then [EvReplaced (wf_path a) (wf_content a)] else [])
      (gs_world gs) (gs_world gs')"
    using write_text_file_events by simp
  then show ?thesis
    using assms(2)
    by (intro at_most_effectI [where e = "EvReplaced (wf_path a) (wf_content a)"])
      (auto simp: emits_def effect_of_review_simps split: if_splits)
qed

lemma cargo_operation_emits:
  assumes "execute_cargo_test_with_config X fc c f gs = (r, gs')"
    and "pr_request p = RunCargoTest" and "pr_workspace_fingerprint p = Some f"
  shows "\<exists>es. at_most_effect p es \<and> emits es gs gs'"
proof -
  have "emits [] gs gs' \<or> emits [EvCargo f] gs gs'"
    using assms(1) unfolding execute_cargo_test_with_config_def
    by (auto simp: emits_def adds_Nil split: if_splits elim!: and_then_cases on_world_runs with_err_cases
        dest!: cargo_run_events)
  then show ?thesis
    using assms(2,3) by (intro at_most_effectI [where e = "EvCargo f"]) (simp add: effect_of_review_simps)
qed

lemma http_post_emits:
  assumes "execute_http_post_with_config X c a gs = (r, gs')"
    and "pr_request p = HttpRequest a" and "http_method a = Post"
  shows "\<exists>es. at_most_effect p es \<and> emits es gs gs'"
proof -
  have "\<exists>d. emits [] gs gs' \<or> emits [http_event Post d (http_body a)] gs gs'"
    using assms(1) unfolding execute_http_post_with_config_def
    by (auto simp: emits_def adds_Nil split: if_splits
        elim!: and_then_cases on_world_runs with_err_cases dest!: http_execute_events)
  then obtain d where "emits [] gs gs' \<or> emits [http_event Post d (http_body a)] gs gs'" ..
  then show ?thesis
    using assms(2,3)
    by (intro at_most_effectI [where e = "http_event Post d (http_body a)"])
      (simp add: effect_of_review_simps http_event_def)
qed

section \<open>The handlers\<close>

definition new_events :: "gateway_state \<Rightarrow> gateway_state \<Rightarrow> event list" where
  "new_events gs gs' = drop (length (w_trace (gs_world gs))) (w_trace (gs_world gs'))"

lemma emits_new_events: "emits es gs gs' \<Longrightarrow> new_events gs gs' = es"
  by (simp add: emits_def adds_def new_events_def)

lemma emits_prefix: "emits es gs gs' \<Longrightarrow> prefix (w_trace (gs_world gs)) (w_trace (gs_world gs'))"
  by (simp add: emits_def adds_def)

text \<open>One operation between audit records: what is left of a run when the records are dropped.\<close>

lemma one_operation:
  assumes "\<forall>e\<in>set (pre @ post). \<not> effect e"
    and "es = [] \<or> (\<exists>rec. pre = a @ [EvAudit rec, EvAuditSynced] \<and> P rec)"
  shows "guarded P (pre @ es @ post)" and "filter effect (pre @ es @ post) = filter effect es"
proof -
  show "filter effect (pre @ es @ post) = filter effect es"
    using assms(1) by (auto simp: filter_empty_conv)
  show "guarded P (pre @ es @ post)"
  proof (cases "es = []")
    case True
    then show ?thesis using assms(1) by (intro guarded_quiet) auto
  next
    case False
    then obtain rec where "pre = a @ [EvAudit rec, EvAuditSynced]" "P rec" using assms(2) by blast
    then show ?thesis
      using guarded_by [of P rec a "es @ post"] assms(1) by auto
  qed
qed

definition agent_record :: "audit_record \<Rightarrow> bool" where
  "agent_record r \<longleftrightarrow> ar_phase r = PreExecution \<and> ar_decision r = Allow"

definition decision_record :: "audit_phase \<Rightarrow> uuid \<Rightarrow> audit_record \<Rightarrow> bool" where
  "decision_record stage u r \<longleftrightarrow>
     ar_phase r = stage \<and> ar_request_id r = u \<and> ar_decision r = Review"

definition anchored_gateway ::
  "externals \<Rightarrow> file_system_capability \<Rightarrow> gateway_config \<Rightarrow> anchored_audit_log \<Rightarrow> zyguor_gateway" where
  "anchored_gateway X fc c log =
     \<lparr>zg_filesystem = fc, zg_config = c, zg_audit = anchored_persist X log\<rparr>"

lemma anchored_gateway_simps [simp]:
  "zg_filesystem (anchored_gateway X fc c log) = fc"
  "zg_config (anchored_gateway X fc c log) = c"
  "zg_audit (anchored_gateway X fc c log) = anchored_persist X log"
  by (simp_all add: anchored_gateway_def)

lemma quiet_evaluate:
  "evaluate_request_with_config X request fc c w = (ev, w') \<Longrightarrow> quiet w w'"
  unfolding evaluate_request_with_config_def Let_def
  by (auto split: execution_request.splits if_splits http_method.splits prod.splits result.splits
      dest: keepsD [OF quiet_resolve_existing_path] keepsD [OF quiet_resolve_write_target])

lemma hold_for_review_emits:
  assumes "hold_for_review X J fc u request purpose gs = (r, gs')"
  shows "emits [] gs gs'"
proof -
  have build: "emits [] gs g" if "build_pending_review X fc u request purpose gs = (q, g)" for q g
    using that on_world_quiet [OF quiet_with_err [OF quiet_fingerprint]]
      on_world_quiet [OF quiet_with_err [OF quiet_capture_write_target_state]]
    unfolding build_pending_review_def
    by (cases request) (auto elim!: and_then_cases)
  from assms [unfolded hold_for_review_def] show ?thesis
  proof (cases rule: and_then_cases)
    case (1 e)
    then show ?thesis by (simp add: build)
  next
    case (2 p gs1)
    then show ?thesis
      using emits_trans [OF build [OF 2(1)] store_handlers_emit_nothing(1) [OF 2(2)]] by simp
  qed
qed

lemma tool_runs:
  assumes "execute_request_with_config X J (anchored_gateway X fc c log) params gs = (r, gs')"
  shows "\<exists>es. emits es gs gs' \<and> get_only es \<and> guarded agent_record es"
proof -
  let ?goal = "\<lambda>g. \<exists>es. emits es g gs' \<and> get_only es \<and> guarded agent_record es"
  have quiet_goal: "?goal gs" if "emits [] gs g" "?goal g" for g
    using that emits_trans by fastforce
  have none: "?goal gs" if "emits [] gs gs'"
    using that by (intro exI [where x = "[]"]) (simp add: get_only_def guarded_def)
  from assms [unfolded execute_request_with_config_def execute_request_with_http_runner_def]
  show ?thesis
  proof (cases rule: and_then_cases)
    case (1 e)
    then show ?thesis using none by simp
  next
    case (2 request gs0)
    then have gs0: "gs0 = gs" by simp
    obtain ev w1 where ev: "evaluate_request_with_config X request fc c (gs_world gs) = (ev, w1)"
      by fastforce
    obtain u w2 where u: "new_uuid w1 = (u, w2)" by fastforce
    let ?gs1 = "gs\<lparr>gs_world := w2\<rparr>"
    have start: "emits [] gs ?gs1"
      using quiet_trans [OF quiet_evaluate [OF ev] quiet_new_uuid [OF u]] by (simp add: emits_def adds_Nil)
    let ?hold = "if decision ev = Review
           then hold_for_review X J fc u request (ep_purpose params) else ret ()"
    let ?run = "execute_message_with_audit_id X u (ep_purpose params) ev
          (persist_audit_locked (anchored_persist X log))
          (run_allowed_operation X fc c (http_runner_of X c) request)"
    have "and_then ?hold (\<lambda>_. ?run) ?gs1 = (r, gs')"
      using 2(2) ev u by (simp add: gs0 cong: if_cong)
    then show ?thesis
    proof (cases rule: and_then_cases)
      case (1 e)
      then have "emits [] ?gs1 gs'"
        by (auto split: if_splits dest: hold_for_review_emits)
      then show ?thesis using none emits_trans [OF start] by fastforce
    next
      case (2 v gs2)
      have held: "emits [] ?gs1 gs2"
        using 2(1) by (auto split: if_splits dest: hold_for_review_emits)
      have "\<exists>pre es post. emits (pre @ es @ post) gs2 gs' \<and> at_most_get es \<and>
        (\<forall>e\<in>set (pre @ post). \<not> effect e) \<and>
        (es = [] \<or> (\<exists>rec. pre = [EvAudit rec, EvAuditSynced] \<and> ar_request_id rec = u \<and>
           ar_phase rec = PreExecution \<and> ar_decision rec = decision ev \<and> decision ev = Allow))"
        using 2(2) by (rule anchored.handler.execute_message_runs)
          (auto simp: at_most_get_def dest: run_allowed_operation_emits [unfolded at_most_get_def])
      then obtain pre es post where shape: "emits (pre @ es @ post) gs2 gs'" "at_most_get es"
        "\<forall>e\<in>set (pre @ post). \<not> effect e"
        "es = [] \<or> (\<exists>rec. pre = [] @ [EvAudit rec, EvAuditSynced] \<and> agent_record rec)"
        unfolding agent_record_def append_Nil by metis
      note parts = one_operation [OF shape(3,4)]
      have "?goal gs2"
        using shape(1,2) parts
        by (intro exI [where x = "pre @ es @ post"]) (auto simp: get_only_def at_most_get_def)
      moreover have "emits [] gs gs2" using emits_trans [OF start held] by simp
      ultimately show ?thesis by (intro quiet_goal)
    qed
  qed
qed

section \<open>The operator's commands\<close>

text \<open>The events of one reviewed operation, as the run of a claimed request leaves them.\<close>

definition reviewed_shape :: "pending_review \<Rightarrow> gateway_state \<Rightarrow> gateway_state \<Rightarrow> bool" where
  "reviewed_shape p gs gs' \<longleftrightarrow>
     (\<exists>pre es post. emits (pre @ es @ post) gs gs' \<and> at_most_effect p es \<and>
        (\<forall>e\<in>set (pre @ post). \<not> effect e) \<and>
        (es = [] \<or> (\<exists>rec. pre = [EvAudit rec, EvAuditSynced] \<and> ar_request_id rec = pr_request_id p \<and>
           ar_phase rec = PreExecution \<and> ar_decision rec = Review)))"

lemma reviewed_shape_quiet: "emits [] gs gs' \<Longrightarrow> reviewed_shape p gs gs'"
  unfolding reviewed_shape_def
  by (rule exI [where x = "[]"], rule exI [where x = "[]"], rule exI [where x = "[]"])
    (simp add: at_most_effect_def)

lemma reviewed_shape_then:
  assumes "reviewed_shape p gs gs1" and "emits [] gs1 gs2"
  shows "reviewed_shape p gs gs2"
proof -
  obtain pre es post where shape: "emits (pre @ es @ post) gs gs1" "at_most_effect p es"
    "\<forall>e\<in>set (pre @ post). \<not> effect e"
    "es = [] \<or> (\<exists>rec. pre = [EvAudit rec, EvAuditSynced] \<and> ar_request_id rec = pr_request_id p \<and>
       ar_phase rec = PreExecution \<and> ar_decision rec = Review)"
    using assms(1) unfolding reviewed_shape_def by blast
  then have "emits (pre @ es @ post) gs gs2"
    using emits_trans [OF shape(1) assms(2)] by simp
  with shape show ?thesis unfolding reviewed_shape_def by blast
qed

lemma reviewed_action_shape:
  assumes "execute_reviewed_action p (persist_audit_locked (anchored_persist X log)) operation gs = (r, gs')"
    and "\<And>q g g'. operation g = (q, g') \<Longrightarrow> \<exists>es. at_most_effect p es \<and> emits es g g'"
  shows "reviewed_shape p gs gs'"
  unfolding reviewed_shape_def
  using assms(1) by (rule anchored.handler.execute_reviewed_action_runs)
    (auto simp: at_most_effect_def dest: assms(2) [unfolded at_most_effect_def])

lemma execute_claimed_shape:
  assumes "execute_claimed_reviewed_action X J p (persist_audit_locked (anchored_persist X log)) operation gs = (r, gs')"
    and "\<And>q g g'. operation g = (q, g') \<Longrightarrow> \<exists>es. at_most_effect p es \<and> emits es g g'"
  shows "reviewed_shape p gs gs'"
proof -
  obtain q gs1 where run: "execute_reviewed_action p (persist_audit_locked (anchored_persist X log)) operation gs = (q, gs1)"
    by fastforce
  then have "settle_claimed X J p q gs1 = (r, gs')"
    using assms(1) by (simp add: execute_claimed_reviewed_action_def)
  then show ?thesis
    by (intro reviewed_shape_then [OF reviewed_action_shape [OF run assms(2)] settle_claimed_emits])
qed

lemma execute_claimed_write_alt:
  "execute_claimed_write X J p writer operation =
     execute_claimed_reviewed_action X J p writer (and_then operation (\<lambda>_. ret (OperationSuccess None)))"
  by (rule ext) (simp add: execute_claimed_write_def execute_claimed_reviewed_action_def
      execute_approved_write_def)

lemma execute_approved_shape:
  assumes "execute_approved X J (anchored_gateway X fc c log) (execute_http_post_with_config X c) u p gs = (r, gs')"
  shows "reviewed_shape p gs gs'"
proof (cases "pr_request p")
  case (WriteFile a)
  let ?op = "on_world (with_err FileFailed (write_text_file X fc (wf_path a) (wf_content a)))"
  have op: "\<exists>es. at_most_effect p es \<and> emits es g g'"
    if "and_then ?op (\<lambda>_. ret (OperationSuccess None)) g = (q, g')" for q g g'
    using that write_operation_emits [OF _ WriteFile] by (auto elim!: and_then_cases)
  have "approve_write X J (anchored_gateway X fc c log) u p a gs = (r, gs')"
    using assms by (simp add: execute_approved_def WriteFile)
  then show ?thesis
    unfolding approve_write_def execute_claimed_write_alt
    by (auto elim!: and_then_cases dest!: execute_claimed_shape [OF _ op])
next
  case RunCargoTest
  then have "approve_cargo X J (anchored_gateway X fc c log) u p gs = (r, gs')"
    using assms by (simp add: execute_approved_def)
  then show ?thesis
    unfolding approve_cargo_def
    by (auto elim!: and_then_cases intro: reviewed_shape_quiet
        dest!: execute_claimed_shape [OF _ cargo_operation_emits [OF _ RunCargoTest]])
next
  case (HttpRequest a)
  show ?thesis
  proof (cases "http_method a")
    case Post
    then have "approve_http X J (anchored_gateway X fc c log) (execute_http_post_with_config X c) u p a gs = (r, gs')"
      using assms by (simp add: execute_approved_def HttpRequest)
    then show ?thesis
      unfolding approve_http_def
      by (auto elim!: and_then_cases dest!: execute_claimed_shape [OF _ http_post_emits [OF _ HttpRequest Post]])
  next
    case Get
    then show ?thesis
      using assms by (auto simp: execute_approved_def HttpRequest intro: reviewed_shape_quiet)
  qed
qed (use assms in \<open>auto simp: execute_approved_def intro: reviewed_shape_quiet\<close>)

lemma quiet_revalidate [keeps_intros]:
  "keeps quiet (revalidate_pending_request_with_config X p fc c)"
  unfolding revalidate_pending_request_with_config_def
  by (cases "pr_request p") (simp_all add: quiet_pure, (intro keeps_intros)+)

lemma claim_handler_Ok:
  assumes "locked e (with_err f (on_store (store_claim X J u))) gs = (Ok p, gs')"
    and "store_ok (gs_store gs)"
  shows "phase (gs_store gs) u = Pending p" and "pr_request_id p = u"
    and "phase (gs_store gs') = (phase (gs_store gs))(u := Claimed p)" and "store_ok (gs_store gs')"
proof -
  obtain st' w' where run: "store_claim X J u (gs_store gs, gs_world gs) = (Ok p, (st', w'))"
    and gs': "gs' = gs\<lparr>gs_store := st', gs_world := w'\<rparr>"
    using assms(1) by (auto simp: locked_def with_err_eq_Ok split: if_splits elim: on_store_runs)
  have good: "store_good (gs_store gs, gs_world gs)"
    using assms(2) by (simp add: store_good_def)
  note c = memory.clm_Ok [OF good run] memory.clm_law [OF good run]
  show "phase (gs_store gs) u = Pending p" "pr_request_id p = u"
    "phase (gs_store gs') = (phase (gs_store gs))(u := Claimed p)" "store_ok (gs_store gs')"
    using c by (simp_all add: store_view_def gs' store_good_def)
qed

definition approval_events :: "uuid \<Rightarrow> pending_review_store \<Rightarrow> event list \<Rightarrow> bool" where
  "approval_events u st es \<longleftrightarrow>
     filter effect es = [] \<or>
     (\<exists>p e. phase st u = Pending p \<and> effect_of_review p e \<and> filter effect es = [e])"

lemma approval_events_quiet:
  assumes "\<forall>e\<in>set es. \<not> effect e"
  shows "approval_events u st es \<and> guarded P es"
  using assms by (auto simp: approval_events_def filter_empty_conv intro: guarded_quiet)

text \<open>From the claim on: the approval record, then the operation.\<close>

lemma approve_claimed:
  assumes "and_then (audit_claimed_approval X J p (persist_audit_locked (anchored_persist X log)))
      (\<lambda>_. execute_approved X J (anchored_gateway X fc c log) (execute_http_post_with_config X c) u p) gs = (r, gs')"
    and "pr_request_id p = u"
  shows "\<exists>es. emits es gs gs' \<and> (filter effect es = [] \<or> (\<exists>e. effect_of_review p e \<and> filter effect es = [e])) \<and>
    guarded (decision_record Approval u) es \<and> guarded (decision_record PreExecution u) es"
proof -
  let ?goal = "\<exists>es. emits es gs gs' \<and> (filter effect es = [] \<or> (\<exists>e. effect_of_review p e \<and> filter effect es = [e])) \<and>
    guarded (decision_record Approval u) es \<and> guarded (decision_record PreExecution u) es"
  obtain q gs1 where audit: "write_approval_audit p (persist_audit_locked (anchored_persist X log)) gs = (q, gs1)"
    by fastforce
  show ?goal
    using audit unfolding write_approval_audit_def
  proof (cases rule: anchored.handler.write_review_audit_runs)
    case (2 es)
    then have "emits [] gs1 gs'"
      using assms(1) audit
      by (cases q) (auto simp: audit_claimed_approval_def elim!: and_then_cases
          dest: restore_and_fail_runs(1))
    then have "emits es gs gs'"
      using emits_trans [OF 2(2), of "[]"] by simp
    then show ?thesis
      using 2(3) by (intro exI [where x = es]) (auto simp: filter_empty_conv intro: guarded_quiet)
  next
    case (1 a)
    then have "execute_approved X J (anchored_gateway X fc c log) (execute_http_post_with_config X c) u p gs1 = (r, gs')"
      using assms(1) audit by (auto simp: audit_claimed_approval_def and_then_def)
    then have "reviewed_shape p gs1 gs'" by (rule execute_approved_shape)
    then obtain pre es post where shape: "emits (pre @ es @ post) gs1 gs'" "at_most_effect p es"
      "\<forall>e\<in>set (pre @ post). \<not> effect e"
      "es = [] \<or> (\<exists>rec. pre = [EvAudit rec, EvAuditSynced] \<and> ar_request_id rec = pr_request_id p \<and>
         ar_phase rec = PreExecution \<and> ar_decision rec = Review)"
      unfolding reviewed_shape_def by blast
    let ?app = "[EvAudit a, EvAuditSynced]"
    let ?all = "(?app @ pre) @ es @ post"
    have "\<forall>e\<in>set ((?app @ pre) @ post). \<not> effect e" using shape(3) by auto
    moreover have "es = [] \<or> (\<exists>rec. ?app @ pre = ?app @ [EvAudit rec, EvAuditSynced] \<and>
        decision_record PreExecution u rec)"
      using shape(4) assms(2) by (auto simp: decision_record_def)
    ultimately have parts: "guarded (decision_record PreExecution u) ?all" "filter effect ?all = filter effect es"
      by (rule one_operation)+
    have "guarded (decision_record Approval u) ?all"
      using guarded_by [of "decision_record Approval u" a "[]" "pre @ es @ post"] 1 assms(2)
      by (simp add: decision_record_def)
    moreover have "emits ?all gs gs'" using emits_trans [OF 1(2) shape(1)] by simp
    moreover have "filter effect es = [] \<or> (\<exists>e. effect_of_review p e \<and> filter effect es = [e])"
    proof (cases "es = []")
      case False
      then obtain e where "es = [e]" "effect_of_review p e"
        using shape(2) by (auto simp: at_most_effect_def)
      then show ?thesis by (cases "effect e") auto
    qed simp
    ultimately show ?thesis using parts by metis
  qed
qed

lemma approve_runs:
  assumes "approve_command X J (anchored_gateway X fc c log) (execute_http_post_with_config X c) u gs = (r, gs')"
    and "store_ok (gs_store gs)"
  shows "\<exists>es. emits es gs gs' \<and> approval_events u (gs_store gs) es \<and>
    guarded (decision_record Approval u) es \<and> guarded (decision_record PreExecution u) es"
proof -
  let ?goal = "\<exists>es. emits es gs gs' \<and> approval_events u (gs_store gs) es \<and>
    guarded (decision_record Approval u) es \<and> guarded (decision_record PreExecution u) es"
  have none: ?goal if "emits es gs gs'" "\<forall>e\<in>set es. \<not> effect e" for es
    using that approval_events_quiet [OF that(2)] by blast
  note empty = none [of "[]", simplified]
  from assms(1) [unfolded approve_command_def] show ?goal
  proof (cases rule: and_then_cases)
    case (1 e)
    then have "gs' = gs" by (auto simp: inspect_pending_request_def locked_def split: if_splits)
    then show ?goal using empty by simp
  next
    case (2 pending gs0)
    then have gs0: "gs0 = gs" by (auto simp: inspect_pending_request_def locked_def split: if_splits)
    have quiet: "keeps quiet (revalidate_pending_request_with_config X pending fc c)"
      by (rule keeps_intros)
    from 2(2) [unfolded gs0 anchored_gateway_simps] show ?goal
    proof (cases rule: and_then_cases)
      case (1 e)
      then show ?goal using empty on_world_quiet [OF quiet] by blast
    next
      case (2 v gs1)
      have e1: "emits [] gs gs1" and s1: "gs_store gs1 = gs_store gs"
        using on_world_quiet [OF quiet 2(1)] on_world_shell [OF 2(1)] by (auto simp: same_shell_def)
      from 2(2) show ?goal
      proof (cases rule: and_then_cases)
        case (1 e)
        then show ?goal using empty emits_trans [OF e1 store_handlers_emit_nothing(2)] by fastforce
      next
        case (2 p gs2)
        have ok1: "store_ok (gs_store gs1)" using assms(2) s1 by simp
        note p = claim_handler_Ok(1,2) [OF 2(1) ok1]
        have e2: "emits [] gs gs2" using emits_trans [OF e1 store_handlers_emit_nothing(2) [OF 2(1)]] by simp
        obtain es where es: "emits es gs2 gs'"
          "filter effect es = [] \<or> (\<exists>e. effect_of_review p e \<and> filter effect es = [e])"
          "guarded (decision_record Approval u) es" "guarded (decision_record PreExecution u) es"
          using approve_claimed [OF 2(2) p(2)] by blast
        have "approval_events u (gs_store gs) es"
          using es(2) p(1) s1 by (auto simp: approval_events_def)
        moreover have "emits es gs gs'" using emits_trans [OF e2 es(1)] by simp
        ultimately show ?goal using es(3,4) by blast
      qed
    qed
  qed
qed

end
