(* ===== verification/System.thy ===== *)
theory System
  imports Safety
begin

text \<open>
  The gateway as a whole: what survives of the store across the handlers, what a request leaves
  behind once it had its effect, and the runs in which calls of the tool, connections of the
  operator and changes of the environment follow each other in any order.
\<close>

section \<open>The store across handlers\<close>

definition sound :: "gateway_state \<Rightarrow> gateway_state \<Rightarrow> bool" where
  "sound gs gs' \<longleftrightarrow> (store_ok (gs_store gs) \<longrightarrow> store_ok (gs_store gs'))"

lemma sound_refl [simp]: "sound gs gs"
  by (simp add: sound_def)

lemma sound_reflp: "reflp sound"
  by (simp add: reflp_def)

lemma sound_transp: "transp sound"
  by (simp add: transp_def sound_def)

lemma same_shell_sound: "same_shell gs gs' \<Longrightarrow> sound gs gs'"
  by (simp add: same_shell_def sound_def)

lemmas sound_shapes [keeps_intros] =
  keeps_shapes [where R = sound] keeps_const [OF sound_reflp] keeps_match [OF sound_transp]
  keeps_bind_run [OF sound_transp] keeps_pure [OF sound_reflp] keeps_and_then [OF sound_transp]
  keeps_with_err [where R = sound]

lemma sound_on_world [keeps_intros]: "keeps sound (on_world m)"
  by (rule keepsI) (blast dest: on_world_shell same_shell_sound)

lemma sound_audit_record_for [keeps_intros]: "keeps sound (audit_record_for u m d p s out)"
  unfolding audit_record_for_def by (rule keeps_intros)

lemma sound_persist_audit [keeps_intros]: "keeps sound (persist_audit_locked sink r)"
  by (rule keepsI) (auto simp: persist_audit_locked_def split: if_splits dest: keepsD [OF sound_on_world])

lemma sound_on_store:
  assumes "\<And>st w r st' w'. m (st, w) = (r, (st', w')) \<Longrightarrow> store_ok st \<Longrightarrow> store_ok st'"
  shows "keeps sound (on_store m)"
  using assms by (intro keepsI) (auto simp: sound_def elim!: on_store_runs)

lemma sound_store_moves [keeps_intros]:
  "keeps sound (on_store (store_claim X J k))"
  "keeps sound (on_store (store_restore_claimed X J p))"
  "keeps sound (on_store (store_consume_claimed X J k))"
proof -
  have good: "store_good (st, w) \<longleftrightarrow> store_ok st" for st and w :: world by (simp add: store_good_def)
  show "keeps sound (on_store (store_claim X J k))"
    by (rule sound_on_store) (drule memory.clm_law [OF good [THEN iffD2], rotated], simp_all add: good)
  show "keeps sound (on_store (store_restore_claimed X J p))"
    by (rule sound_on_store) (drule memory.rst_law [OF good [THEN iffD2], rotated], simp_all add: good)
  show "keeps sound (on_store (store_consume_claimed X J k))"
    by (rule sound_on_store) (drule memory.con_law [OF good [THEN iffD2], rotated], simp_all add: good)
qed

lemma sound_locked [keeps_intros]: "keeps sound m \<Longrightarrow> keeps sound (locked e m)"
  by (rule keepsI) (auto simp: locked_def split: if_splits dest: keepsD)

lemma sound_inspect [keeps_intros]: "keeps sound (\<lambda>gs. (f gs, gs))"
  by (rule keepsI) simp

lemma sound_restore_and_fail [keeps_intros]: "keeps sound (restore_and_fail X J p e)"
  unfolding restore_and_fail_def restore_claimed_request_def by (intro keeps_intros)

lemma sound_consume [keeps_intros]: "keeps sound (consume_claimed_request X J u)"
  unfolding consume_claimed_request_def by (intro keeps_intros)

lemma sound_review_audit [keeps_intros]:
  "keeps sound (write_review_audit stage out p (persist_audit_locked sink))"
  unfolding write_review_audit_def by (intro keeps_intros)

lemma sound_decision_audits [keeps_intros]:
  "keeps sound (audit_claimed_approval X J p (persist_audit_locked sink))"
  "keeps sound (audit_claimed_rejection X J p (persist_audit_locked sink))"
  unfolding audit_claimed_approval_def audit_claimed_rejection_def write_approval_audit_def
    write_rejection_audit_def
  by (rule keepsI,
      auto split: prod.splits result.splits elim!: and_then_cases with_err_cases
        dest!: keepsD [OF sound_review_audit] keepsD [OF sound_restore_and_fail] keepsD [OF sound_consume],
      auto simp: sound_def)+

lemma sound_acknowledge [keeps_intros]: "keeps sound (acknowledge_command X J g u)"
proof -
  have "keeps sound (\<lambda>gs. case consume_claimed_request X J u gs of
       (Ok a, gs1) \<Rightarrow> (Ok (ClaimedAcknowledged a), gs1)
     | (Err (NotCommitted e), gs1) \<Rightarrow> (Err (ReconciliationNotConsumed e), gs1)
     | (Err (DurabilityUncertain e), gs1) \<Rightarrow> (Ok (AcknowledgementUncertain u e), gs1))"
    by (rule keepsI)
      (auto split: prod.splits result.splits consume_claimed_failure.splits dest!: keepsD [OF sound_consume])
  then show ?thesis
    unfolding acknowledge_command_def write_reconciliation_audit_def
    by (intro keeps_and_then [OF sound_transp] sound_locked sound_inspect sound_review_audit)
qed

lemma sound_settle [keeps_intros]: "keeps sound (settle_claimed X J p q)"
  unfolding settle_claimed_def by (intro keeps_intros)

lemma sound_complete [keeps_intros]:
  "keeps sound (complete_reviewed_action p why (persist_audit_locked sink) q)"
  unfolding complete_reviewed_action_def
  by (rule keepsI)
    (auto split: prod.splits result.splits
      dest!: keepsD [OF sound_audit_record_for] keepsD [OF sound_persist_audit], auto simp: sound_def)

lemma sound_reviewed_action [keeps_intros]:
  "keeps sound operation \<Longrightarrow> keeps sound (execute_reviewed_action p (persist_audit_locked sink) operation)"
  unfolding execute_reviewed_action_def by (intro keeps_intros)

lemma sound_claimed_action [keeps_intros]:
  "keeps sound operation \<Longrightarrow>
   keeps sound (execute_claimed_reviewed_action X J p (persist_audit_locked sink) operation)"
  unfolding execute_claimed_reviewed_action_def by (intro keeps_intros)

lemma sound_operations [keeps_intros]:
  "keeps sound (execute_cargo_test_with_config X fc c f)"
  "keeps sound (execute_http_post_with_config X c a)"
  unfolding execute_cargo_test_with_config_def execute_http_post_with_config_def
  by (intro keeps_intros)+

lemma sound_execute_approved [keeps_intros]:
  "(\<And>a. keeps sound (post a)) \<Longrightarrow> keeps sound (execute_approved X J g post u p)"
  unfolding execute_approved_def approve_write_def approve_cargo_def approve_http_def
    execute_claimed_write_alt
  by (cases "pr_request p"; simp only: execution_request.case) (intro keeps_intros; assumption?)+

lemma sound_admin [keeps_intros]: "keeps sound (handle_admin_command_with_config X J g command)"
  unfolding handle_admin_command_with_config_def handle_admin_command_with_http_runner_def
    approve_command_def inspect_pending_request_def reject_command_def reject_pending_request_def
  by (cases command) (simp_all, (intro keeps_intros)+)

section \<open>What a command of the operator leaves\<close>

lemma admin_approve [simp]:
  "handle_admin_command_with_config X J g (Approve u) =
     approve_command X J g (execute_http_post_with_config X (zg_config g)) u"
  by (simp add: handle_admin_command_with_config_def handle_admin_command_with_http_runner_def)

lemma admin_reject [simp]: "handle_admin_command_with_config X J g (Reject u) = reject_command X J g u"
  by (simp add: handle_admin_command_with_config_def handle_admin_command_with_http_runner_def)

lemma admin_acknowledge [simp]:
  "handle_admin_command_with_config X J g (AcknowledgeClaimed u) = acknowledge_command X J g u"
  by (simp add: handle_admin_command_with_config_def handle_admin_command_with_http_runner_def)

text \<open>A run in which no effect happens.\<close>

definition harmless :: "gateway_state \<Rightarrow> gateway_state \<Rightarrow> bool" where
  "harmless gs gs' \<longleftrightarrow> (\<exists>es. emits es gs gs' \<and> (\<forall>e\<in>set es. \<not> effect e))"

lemma harmless_reflp: "reflp harmless"
  by (auto simp: reflp_def harmless_def intro: exI [where x = "[]"])

lemma harmless_trans: "harmless a b \<Longrightarrow> harmless b c \<Longrightarrow> harmless a c"
  unfolding harmless_def by (metis emits_trans set_append Un_iff)

lemma harmless_transp: "transp harmless"
  by (auto simp: transp_def intro: harmless_trans)

lemma harmless_emits: "emits [] gs gs' \<Longrightarrow> harmless gs gs'"
  unfolding harmless_def by (rule exI [where x = "[]"]) simp

lemmas harmless_shapes [keeps_intros] =
  keeps_shapes [where R = harmless] keeps_const [OF harmless_reflp] keeps_match [OF harmless_transp]
  keeps_bind_run [OF harmless_transp] keeps_pure [OF harmless_reflp] keeps_and_then [OF harmless_transp]
  keeps_with_err [where R = harmless]

lemma harmless_quiet [keeps_intros]: "keeps quiet m \<Longrightarrow> keeps harmless (on_world m)"
  by (rule keepsI) (blast dest: on_world_quiet intro: harmless_emits)

lemma harmless_store_calls [keeps_intros]:
  "keeps harmless (locked e (with_err f (on_store (store_claim X J k))))"
  "keeps harmless (restore_claimed_request X J p)"
  "keeps harmless (consume_claimed_request X J k)"
  by (rule keepsI, blast dest: store_handlers_emit_nothing intro: harmless_emits)+

lemma harmless_inspect [keeps_intros]: "keeps harmless (locked e (\<lambda>gs. (f gs, gs)))"
  by (rule keepsI) (auto simp: locked_def split: if_splits intro: reflpD [OF harmless_reflp])

lemma harmless_review_audit [keeps_intros]:
  "keeps harmless (write_review_audit stage out p (persist_audit_locked (anchored_persist X log)))"
proof (rule keepsI)
  fix gs r gs'
  assume "write_review_audit stage out p (persist_audit_locked (anchored_persist X log)) gs = (r, gs')"
  then show "harmless gs gs'"
  proof (cases rule: anchored.handler.write_review_audit_runs)
    case (1 a)
    then show ?thesis
      unfolding harmless_def by (intro exI [where x = "[EvAudit a, EvAuditSynced]"]) simp
  next
    case (2 es)
    then show ?thesis unfolding harmless_def by blast
  qed
qed

lemma harmless_restore_and_fail [keeps_intros]: "keeps harmless (restore_and_fail X J p e)"
  by (rule keepsI) (blast dest: restore_and_fail_runs(1) intro: harmless_emits)

lemma harmless_rejection [keeps_intros]:
  "keeps harmless (audit_claimed_rejection X J p (persist_audit_locked (anchored_persist X log)))"
proof -
  have "audit_claimed_rejection X J p w = (\<lambda>gs. case write_rejection_audit p w gs of
      (Ok _, gs1) \<Rightarrow> and_then (with_err RejectionNotConsumed (consume_claimed_request X J (pr_request_id p)))
        (\<lambda>_. ret ()) gs1
    | (Err e, gs1) \<Rightarrow> restore_and_fail X J p e gs1)" for w
    by (rule ext) (simp add: audit_claimed_rejection_def)
  then show ?thesis unfolding write_rejection_audit_def by simp (intro keeps_intros)
qed

lemma harmless_reject [keeps_intros]: "keeps harmless (reject_command X J (anchored_gateway X fc c log) u)"
  unfolding reject_command_def reject_pending_request_def anchored_gateway_simps by (intro keeps_intros)

lemma harmless_acknowledge [keeps_intros]:
  "keeps harmless (acknowledge_command X J (anchored_gateway X fc c log) u)"
proof -
  have "keeps harmless (\<lambda>gs. case consume_claimed_request X J u gs of
       (Ok a, gs1) \<Rightarrow> (Ok (ClaimedAcknowledged a), gs1)
     | (Err (NotCommitted e), gs1) \<Rightarrow> (Err (ReconciliationNotConsumed e), gs1)
     | (Err (DurabilityUncertain e), gs1) \<Rightarrow> (Ok (AcknowledgementUncertain u e), gs1))"
    by (rule keepsI)
      (auto split: prod.splits result.splits consume_claimed_failure.splits
        dest!: keepsD [OF harmless_store_calls(3)])
  then show ?thesis
    unfolding acknowledge_command_def write_reconciliation_audit_def anchored_gateway_simps
    by (intro keeps_and_then [OF harmless_transp] harmless_inspect harmless_review_audit)
qed

lemma harmless_new_events: "harmless gs gs' \<Longrightarrow> filter effect (new_events gs gs') = []"
  unfolding harmless_def by (auto simp: filter_empty_conv dest: emits_new_events)

text \<open>The reviewed operation itself leaves the store alone.\<close>

lemma same_shell_reflp: "reflp same_shell"
  by (simp add: reflp_def)

lemma same_shell_transp: "transp same_shell"
  by (auto simp: transp_def intro: same_shell_trans)

lemmas shell_shapes [keeps_intros] =
  keeps_shapes [where R = same_shell] keeps_const [OF same_shell_reflp] keeps_match [OF same_shell_transp]
  keeps_bind_run [OF same_shell_transp] keeps_pure [OF same_shell_reflp] keeps_and_then [OF same_shell_transp]
  keeps_with_err [where R = same_shell]

lemma shell_on_world [keeps_intros]: "keeps same_shell (on_world m)"
  by (rule keepsI) (blast dest: on_world_shell)

lemma shell_audit_record_for [keeps_intros]: "keeps same_shell (audit_record_for u m d p s out)"
  unfolding audit_record_for_def by (rule keeps_intros)

lemma shell_persist_audit [keeps_intros]: "keeps same_shell (persist_audit_locked sink r)"
  by (rule keepsI) (auto simp: persist_audit_locked_def split: if_splits dest: on_world_shell)

lemma shell_operations [keeps_intros]:
  "keeps same_shell (execute_cargo_test_with_config X fc c f)"
  "keeps same_shell (execute_http_post_with_config X c a)"
  unfolding execute_cargo_test_with_config_def execute_http_post_with_config_def
  by (intro keeps_intros)+

lemma shell_complete [keeps_intros]:
  "keeps same_shell (complete_reviewed_action p why (persist_audit_locked sink) q)"
  unfolding complete_reviewed_action_def
  by (rule keepsI)
    (auto split: prod.splits result.splits
      dest!: keepsD [OF shell_audit_record_for] keepsD [OF shell_persist_audit] intro: same_shell_trans)

lemma shell_reviewed_action:
  "keeps same_shell operation \<Longrightarrow>
   keeps same_shell (execute_reviewed_action p (persist_audit_locked sink) operation)"
  unfolding execute_reviewed_action_def by (intro keeps_intros)

lemma complete_not_Err [simp]: "complete_reviewed_action p why writer q gs \<noteq> (Err e, gs')"
  by (auto simp: complete_reviewed_action_def split: prod.splits result.splits)

lemma harmless_written:
  "persist_audit_locked (anchored_persist X log) r gs = (q, gs') \<Longrightarrow> harmless gs gs'"
  by (erule anchored.handler.writes_no_effect) (auto simp: harmless_def)

lemma reviewed_action_Err:
  assumes "execute_reviewed_action p (persist_audit_locked (anchored_persist X log)) operation gs = (Err e, gs')"
  shows "harmless gs gs'"
proof -
  note built = harmless_emits [OF audit_record_for_runs(1)]
  from assms show ?thesis
    unfolding execute_reviewed_action_def
    by (auto elim!: and_then_cases with_err_cases split: prod.splits
        dest: harmless_written intro: built harmless_trans [OF built] reflpD [OF harmless_reflp])
qed

lemma store_phase_cases:
  assumes "store_ok st" and "consume_claimed_request X J u gs = (r, gs')" and "gs_store gs = st"
    and "phase st u = Claimed p"
  shows "phase (gs_store gs') u \<noteq> Pending q"
proof (cases "gs_store_poisoned gs")
  case True
  then show ?thesis using assms by (auto simp: consume_claimed_request_def locked_def)
next
  case False
  then have "on_store (store_consume_claimed X J u) gs = (r, gs')"
    using assms(2) by (simp add: consume_claimed_request_def locked_def)
  then obtain st' w' where run: "store_consume_claimed X J u (st, gs_world gs) = (r, (st', w'))"
    and gs': "gs' = gs\<lparr>gs_store := st', gs_world := w'\<rparr>"
    using assms(3) by (auto elim: on_store_runs)
  have "store_good (st, gs_world gs)" using assms(1) by (simp add: store_good_def)
  from memory.con_law [OF this run] show ?thesis
    using assms(4) by (auto simp: gs' store_view_def moved_def move_id_def)
qed

text \<open>A claimed request that had its effect is consumed or stays claimed.\<close>

definition spent :: "uuid \<Rightarrow> pending_review_store \<Rightarrow> bool" where
  "spent u st \<longleftrightarrow> (\<forall>p. phase st u \<noteq> Pending p)"

lemma claimed_action_spent:
  assumes "execute_claimed_reviewed_action X J p (persist_audit_locked (anchored_persist X log)) operation gs = (r, gs')"
    and "keeps same_shell operation" and "store_ok (gs_store gs)"
    and "phase (gs_store gs) (pr_request_id p) = Claimed p"
  shows "harmless gs gs' \<or> spent (pr_request_id p) (gs_store gs')"
proof -
  obtain q gs1 where run: "execute_reviewed_action p (persist_audit_locked (anchored_persist X log)) operation gs = (q, gs1)"
    by fastforce
  then have settle: "settle_claimed X J p q gs1 = (r, gs')"
    using assms(1) by (simp add: execute_claimed_reviewed_action_def)
  have same: "gs_store gs1 = gs_store gs"
    using keepsD [OF shell_reviewed_action [OF assms(2)] run] by (simp add: same_shell_def)
  show ?thesis
  proof (cases q)
    case (Ok out)
    then obtain s where "consume_claimed_request X J (pr_request_id p) gs1 = (s, gs')"
      using settle by (auto simp: settle_claimed_def elim!: and_then_cases with_err_cases)
    from store_phase_cases [OF assms(3) this same assms(4)] show ?thesis by (simp add: spent_def)
  next
    case (Err e)
    then have "restore_and_fail X J p e gs1 = (r, gs')" using settle by (simp add: settle_claimed_def)
    then have "harmless gs1 gs'" by (blast dest: restore_and_fail_runs(1) intro: harmless_emits)
    then show ?thesis
      using reviewed_action_Err run Err harmless_trans by blast
  qed
qed

lemma execute_approved_spent:
  assumes "execute_approved X J (anchored_gateway X fc c log) (execute_http_post_with_config X c) u p gs = (r, gs')"
    and "store_ok (gs_store gs)" and "phase (gs_store gs) (pr_request_id p) = Claimed p"
  shows "harmless gs gs' \<or> spent (pr_request_id p) (gs_store gs')"
proof -
  let ?goal = "harmless gs gs' \<or> spent (pr_request_id p) (gs_store gs')"
  have refl: "harmless gs gs" by (rule reflpD [OF harmless_reflp])
  have runs: ?goal
    if "and_then (execute_claimed_reviewed_action X J p (persist_audit_locked (anchored_persist X log)) operation)
          (\<lambda>outcome. from_result (f outcome)) gs = (r, gs')" and "keeps same_shell operation" for operation f
    using that(1)
    by (auto elim!: and_then_cases dest!: claimed_action_spent [OF _ that(2) assms(2,3)])
  have writes: "keeps same_shell (and_then (on_world m) (\<lambda>_. ret (OperationSuccess None)))" for m
    by (intro keeps_intros)
  show ?thesis
  proof (cases "pr_request p")
    case (WriteFile a)
    then show ?thesis
      using assms(1)
      by (auto simp: execute_approved_def approve_write_def execute_claimed_write_alt
          intro!: runs [OF _ writes])
  next
    case RunCargoTest
    then have "approve_cargo X J (anchored_gateway X fc c log) u p gs = (r, gs')"
      using assms(1) by (simp add: execute_approved_def)
    then show ?thesis
      unfolding approve_cargo_def
    proof (cases rule: and_then_cases)
      case (2 f gs1)
      then show ?thesis by (intro runs [OF _ shell_operations(1)]) auto
    qed (use refl in simp)
  next
    case (HttpRequest a)
    then show ?thesis
      using assms(1) refl
      by (auto simp: execute_approved_def approve_http_def split: if_splits
          intro!: runs [OF _ shell_operations(2)])
  qed (use assms(1) refl in \<open>simp_all add: execute_approved_def\<close>)
qed

section \<open>An approval step by step\<close>

text \<open>
  An approval that does not get the request claims nothing, or claims it and says so as an error
  (when only the last sync of the claim failed); otherwise it goes on with the claimed request.
\<close>

definition claimed_from :: "uuid \<Rightarrow> pending_review_store \<Rightarrow> pending_review_store \<Rightarrow> bool" where
  "claimed_from u st st' \<longleftrightarrow>
     (\<exists>p. phase st u = Pending p \<and> pr_request_id p = u \<and> phase st' = (phase st)(u := Claimed p))"

lemma approve_cases [consumes 2, case_names refused claimed]:
  assumes "approve_command X J (anchored_gateway X fc c log) post u gs = (r, gs')"
    and "store_ok (gs_store gs)"
  obtains e where "r = Err e" and "emits [] gs gs'" 
      and "phase (gs_store gs') = phase (gs_store gs) \<or> claimed_from u (gs_store gs) (gs_store gs')"
  | p w1 gs2 where "phase (gs_store gs) u = Pending p" and "pr_request_id p = u"
      and "revalidate_pending_request_with_config X p fc c (gs_world gs) = (Ok (), w1)"
      and "emits [] gs gs2" and "store_ok (gs_store gs2)"
      and "phase (gs_store gs2) = (phase (gs_store gs))(u := Claimed p)"
      and "and_then (audit_claimed_approval X J p (persist_audit_locked (anchored_persist X log)))
             (\<lambda>_. execute_approved X J (anchored_gateway X fc c log) post u p) gs2 = (r, gs')"
  using assms(1) unfolding approve_command_def anchored_gateway_simps
proof (cases rule: and_then_cases)
  case (1 e)
  then have "gs' = gs" by (auto simp: inspect_pending_request_def locked_def split: if_splits)
  then show thesis using 1 that(1) by simp
next
  case (2 pending gs0)
  then have gs0: "gs0 = gs" and "store_get u (gs_store gs) = Some pending"
    by (auto simp: inspect_pending_request_def locked_def ok_or_def split: if_splits option.splits)
  then have pending: "phase (gs_store gs) u = Pending pending"
    using phase_cases(1) [OF assms(2)] by (simp add: store_get_def)
  let ?check = "revalidate_pending_request_with_config X pending fc c"
  have quiet: "keeps quiet ?check" by (rule keeps_intros)
  from 2(2) [unfolded gs0] show thesis
  proof (cases rule: and_then_cases)
    case (1 e)
    then show thesis
      using that(1) on_world_quiet [OF quiet 1(1)] on_world_shell [OF 1(1)] by (simp add: same_shell_def)
  next
    case (2 v gs1)
    obtain w1 where w1: "?check (gs_world gs) = (Ok (), w1)"
      using 2(1) by (auto elim: on_world_runs)
    have e1: "emits [] gs gs1" and s1: "gs_store gs1 = gs_store gs"
      using on_world_quiet [OF quiet 2(1)] on_world_shell [OF 2(1)] by (auto simp: same_shell_def)
    from 2(2) show thesis
    proof (cases rule: and_then_cases)
      case (1 e)
      have "phase (gs_store gs') = phase (gs_store gs1) \<or> claimed_from u (gs_store gs1) (gs_store gs')"
      proof (cases "gs_store_poisoned gs1")
        case True
        then show ?thesis using 1(1) by (simp add: locked_def)
      next
        case False
        then obtain e' st' w' where run: "store_claim X J u (gs_store gs1, gs_world gs1) = (Err e', (st', w'))"
          and gs': "gs' = gs1\<lparr>gs_store := st', gs_world := w'\<rparr>"
          using 1(1) by (auto simp: locked_def elim!: with_err_cases on_store_runs)
        have "store_good (gs_store gs1, gs_world gs1)" using assms(2) s1 by (simp add: store_good_def)
        from memory.clm_law [OF this run] show ?thesis
          by (auto simp: gs' store_view_def moved_def move_id_def claimed_from_def)
      qed
      then show thesis
        using that(1) 1 s1 emits_trans [OF e1 store_handlers_emit_nothing(2) [OF 1(1)]] by simp
    next
      case (2 p gs2)
      have ok1: "store_ok (gs_store gs1)" using assms(2) s1 by simp
      note p = claim_handler_Ok [OF 2(1) ok1]
      have "p = pending" using p(1) pending s1 by simp
      then show thesis
        using that(2) [of p w1 gs2] p w1 s1 2(2)
          emits_trans [OF e1 store_handlers_emit_nothing(2) [OF 2(1)]] by simp
    qed
  qed
qed

section \<open>What an approval is checked against\<close>

definition as_reviewed ::
  "externals \<Rightarrow> file_system_capability \<Rightarrow> gateway_config \<Rightarrow> pending_review \<Rightarrow> fsys \<Rightarrow> bool" where
  "as_reviewed X fc c p fs \<longleftrightarrow>
     (case pr_request p of
        WriteFile a \<Rightarrow> \<exists>s w w'. pr_write_target_state p = Some s \<and> w_fs w = fs \<and>
          capture_write_target_state X fc (wf_path a) w = (Ok s, w')
      | RunCargoTest \<Rightarrow> \<exists>f w w'. pr_workspace_fingerprint p = Some f \<and> w_fs w = fs \<and>
          compute_workspace_fingerprint X (fc_workspace_root fc) w = (Ok f, w')
      | HttpRequest a \<Rightarrow> http_method a = Post \<and>
          (\<exists>d. validate_http_destination (x_url_parse X) (http_url a) (hp_allowed_hosts (gc_http c)) = Ok d)
      | _ \<Rightarrow> False)"

lemma revalidate_as_reviewed:
  assumes "revalidate_pending_request_with_config X p fc c w = (Ok u, w1)"
  shows "as_reviewed X fc c p (w_fs w)"
proof (cases "pr_request p")
  case (WriteFile a)
  then obtain s w0 w2 where "pr_write_target_state p = Some s"
      and "revalidate_write_target fc (wf_path a) w = (Ok (), w0)"
      and "capture_write_target_state X fc (wf_path a) w0 = (Ok s, w2)"
    using assms unfolding revalidate_pending_request_with_config_def
    by (auto elim!: and_then_OkE simp: with_err_eq_Ok ok_or_def split: option.splits if_splits)
  moreover have "w_fs w0 = w_fs w"
    using keepsD [OF same_fs_revalidate_write calculation(2)] by (simp add: same_fs_def)
  ultimately show ?thesis unfolding as_reviewed_def WriteFile by auto
next
  case RunCargoTest
  then obtain f p0 w0 w2 where "pr_workspace_fingerprint p = Some f"
      and "resolve_existing_path fc ''Cargo.toml'' w = (Ok p0, w0)"
      and "compute_workspace_fingerprint X (fc_workspace_root fc) w0 = (Ok f, w2)"
    using assms unfolding revalidate_pending_request_with_config_def
    by (auto elim!: and_then_OkE simp: with_err_eq_Ok ok_or_def split: option.splits if_splits)
  moreover have "w_fs w0 = w_fs w"
    using keepsD [OF same_fs_resolve calculation(2)] by (simp add: same_fs_def)
  ultimately show ?thesis unfolding as_reviewed_def RunCargoTest by auto
next
  case (HttpRequest a)
  then show ?thesis
    using assms unfolding revalidate_pending_request_with_config_def as_reviewed_def
    by (cases "validate_http_destination (x_url_parse X) (http_url a) (hp_allowed_hosts (gc_http c))")
      (auto split: if_splits)
qed (use assms in \<open>simp_all add: revalidate_pending_request_with_config_def\<close>)

text \<open>The facts about one approval that had an effect, together.\<close>

lemma approve_with_effect:
  assumes "approve_command X J (anchored_gateway X fc c log) (execute_http_post_with_config X c) u gs = (r, gs')"
    and "store_ok (gs_store gs)" and "filter effect (new_events gs gs') \<noteq> []"
  obtains p where "phase (gs_store gs) u = Pending p" and "as_reviewed X fc c p (w_fs (gs_world gs))"
    and "spent u (gs_store gs')"
  using assms(1,2)
proof (cases rule: approve_cases)
  case (refused e)
  then show thesis using assms(3) emits_new_events [of "[]" gs gs'] by simp
next
  case (claimed p w1 gs2)
  have "\<not> harmless gs2 gs'"
    using harmless_trans [OF harmless_emits [OF claimed(4)]] harmless_new_events assms(3) by blast
  moreover have "harmless gs2 gs' \<or> spent u (gs_store gs')"
  proof -
    obtain q gs3 where audit: "write_approval_audit p (persist_audit_locked (anchored_persist X log)) gs2 = (q, gs3)"
      by fastforce
    have quiet: "harmless gs2 gs3" and shell: "same_shell gs2 gs3"
      using keepsD [OF harmless_review_audit audit [unfolded write_approval_audit_def]]
        anchored.handler.write_review_audit_runs [OF audit [unfolded write_approval_audit_def]] by blast+
    show ?thesis
    proof (cases q)
      case (Err e)
      then obtain s :: "(unit, gateway_error) result" where "restore_and_fail X J p e gs3 = (s, gs')"
        using claimed(7) audit by (auto simp: audit_claimed_approval_def elim!: and_then_cases)
      then have "harmless gs3 gs'"
        using restore_and_fail_runs(1) harmless_emits by blast
      then show ?thesis using quiet harmless_trans by blast
    next
      case (Ok v)
      then have run: "execute_approved X J (anchored_gateway X fc c log) (execute_http_post_with_config X c) u p gs3
          = (r, gs')"
        using claimed(7) audit by (auto simp: audit_claimed_approval_def and_then_def)
      have "harmless gs3 gs' \<or> spent (pr_request_id p) (gs_store gs')"
        using run by (rule execute_approved_spent)
          (use shell claimed(2,5,6) in \<open>simp_all add: same_shell_def\<close>)
      then show ?thesis using quiet claimed(2) harmless_trans by auto
    qed
  qed
  ultimately show thesis
    using that claimed(1) revalidate_as_reviewed [OF claimed(3)] by blast
qed

section \<open>What a call of the tool leaves in the store\<close>

lemma evaluate_decision:
  assumes "policy_ok (gc_policy c)" and "evaluate_request_with_config X request fc c w = (ev, w')"
  shows "decision ev = Review \<Longrightarrow> is_reviewable request"
    and "is_reviewable request \<Longrightarrow> decision ev \<noteq> Allow"
proof -
  note rules = evaluate_request_with_config_def evaluate_operation_with_config_def policy_ok_def
    block_out_of_scope_def Let_def
  show "decision ev = Review \<Longrightarrow> is_reviewable request"
    using assms
    by (cases request)
      (auto simp: rules split: prod.splits result.splits if_splits http_method.splits)
  show "is_reviewable request \<Longrightarrow> decision ev \<noteq> Allow"
    using assms
    by (cases request)
      (auto simp: rules split: prod.splits result.splits if_splits http_method.splits)
qed

text \<open>The state a request is held with, as its approval will check it.\<close>

lemma build_pending_Ok:
  assumes "build_pending_review X fc u request purpose gs = (Ok p, gs')" and "is_reviewable request"
  shows "canonical p" and "pr_request_id p = u" and "pr_request p = request" and "pr_purpose p = purpose"
    and "same_shell gs gs'"
proof -
  note forms = build_pending_review_def canonical_new review_constructors
  have "canonical p \<and> pr_request_id p = u \<and> pr_request p = request \<and> pr_purpose p = purpose \<and> same_shell gs gs'"
  proof (cases request)
    case (WriteFile a)
    then show ?thesis
      using assms canonical_new(1) by (auto simp: forms elim!: and_then_OkE dest: on_world_shell)
  next
    case RunCargoTest
    then show ?thesis
      using assms canonical_new(2) by (auto simp: forms elim!: and_then_OkE dest: on_world_shell)
  next
    case (HttpRequest a)
    then show ?thesis
      using assms canonical_new(3) by (auto simp: forms)
  qed (use assms in simp_all)
  then show "canonical p" "pr_request_id p = u" "pr_request p = request" "pr_purpose p = purpose"
    "same_shell gs gs'" by simp_all
qed

lemma shell_build_pending: "keeps same_shell (build_pending_review X fc u request purpose)"
  unfolding build_pending_review_def
  by (cases request; simp only: execution_request.case) (intro keeps_intros)+

lemma hold_for_review_store:
  assumes "hold_for_review X J fc u request purpose gs = (r, gs')" and "is_reviewable request"
    and "store_ok (gs_store gs)" and "\<And>q. phase (gs_store gs) u \<noteq> Claimed q"
  shows "store_ok (gs_store gs')"
    and "r = Ok v \<Longrightarrow> \<exists>p. pr_request p = request \<and> pr_purpose p = purpose \<and>
      phase (gs_store gs) u = Absent \<and> phase (gs_store gs') = (phase (gs_store gs))(u := Pending p)"
proof -
  have "store_ok (gs_store gs') \<and> (r = Ok v \<longrightarrow> (\<exists>p. pr_request p = request \<and> pr_purpose p = purpose \<and>
      phase (gs_store gs) u = Absent \<and> phase (gs_store gs') = (phase (gs_store gs))(u := Pending p)))"
    using assms(1) unfolding hold_for_review_def
  proof (cases rule: and_then_cases)
    case (1 e)
    then show ?thesis
      using keepsD [OF shell_build_pending] assms(3) by (auto simp: same_shell_def)
  next
    case (2 p gs1)
    note p = build_pending_Ok [OF 2(1) assms(2)]
    show ?thesis
    proof (cases "gs_store_poisoned gs1")
      case True
      then show ?thesis using 2(2) p(5) assms(3) by (auto simp: locked_def same_shell_def)
    next
      case False
      then obtain q st' w' where run: "store_insert X J p (gs_store gs1, gs_world gs1) = (q, (st', w'))"
        and gs': "gs' = gs1\<lparr>gs_store := st', gs_world := w'\<rparr>" and q: "r = Ok v \<longrightarrow> q = Ok ()"
        using 2(2) by (auto simp: locked_def elim!: with_err_cases on_store_runs)
      have good: "store_good (gs_store gs1, gs_world gs1)"
        using assms(3) p(5) by (simp add: store_good_def same_shell_def)
      have free: "store_view (gs_store gs1, gs_world gs1) (pr_request_id p) \<noteq> Claimed x" for x
        using assms(4) p by (simp add: store_view_def same_shell_def)
      from memory.ins_law [OF good p(1) free run] show ?thesis
        using q p by (auto simp: gs' store_good_def store_view_def moved_def move_id_def same_shell_def)
    qed
  qed
  then show "store_ok (gs_store gs')"
    and "r = Ok v \<Longrightarrow> \<exists>p. pr_request p = request \<and> pr_purpose p = purpose \<and>
      phase (gs_store gs) u = Absent \<and> phase (gs_store gs') = (phase (gs_store gs))(u := Pending p)"
    by blast+
qed

lemma shell_allowed_operation [keeps_intros]:
  "keeps same_shell (run_allowed_operation X fc c (http_runner_of X c) request)"
proof -
  have http: "keeps same_shell (http_runner_of X c m d b)" for m d b
    unfolding http_runner_of_def by (rule keeps_intros)
  show ?thesis
  proof (cases request)
    case (HttpRequest a)
    then show ?thesis
      unfolding run_allowed_operation_def
      by (cases "http_method a"; simp only: execution_request.case http_method.case) (intro keeps_intros http)+
  qed (unfold run_allowed_operation_def, simp_all only: execution_request.case, (intro keeps_intros)+)
qed

lemma shell_execute_message:
  assumes "keeps same_shell runner"
  shows "keeps same_shell (execute_message_with_audit_id X u m ev (persist_audit_locked sink) runner)"
proof -
  have completed: "keeps same_shell (\<lambda>gs. case persist_audit_locked sink rec gs of
      (written, gs1) \<Rightarrow> (f written, gs1))" for rec and f :: "_ \<Rightarrow> ('b, 'c) result"
    by (rule keepsI) (auto split: prod.splits dest: keepsD [OF shell_persist_audit])
  have allowed: "keeps same_shell (allowed_execution u m ev (persist_audit_locked sink) runner)"
    unfolding allowed_execution_def by (intro keeps_intros assms)
  show ?thesis
    unfolding execute_message_with_audit_id_def Let_def
    by (intro keeps_intros completed; (cases "decision ev"; simp only: policy_decision.case;
          intro keeps_intros allowed)?)
qed

text \<open>A message whose decision is not \<open>Allow\<close> runs nothing.\<close>

lemma unallowed_message_harmless:
  assumes "execute_message_with_audit_id X u m ev (persist_audit_locked (anchored_persist X log))
      (run_allowed_operation X fc c (http_runner_of X c) request) gs = (r, gs')"
    and "decision ev \<noteq> Allow"
  shows "harmless gs gs'"
proof -
  have "\<exists>pre es post. emits (pre @ es @ post) gs gs' \<and> at_most_get es \<and>
    (\<forall>e\<in>set (pre @ post). \<not> effect e) \<and>
    (es = [] \<or> (\<exists>rec. pre = [EvAudit rec, EvAuditSynced] \<and> ar_request_id rec = u \<and>
       ar_phase rec = PreExecution \<and> ar_decision rec = decision ev \<and> decision ev = Allow))"
    using assms(1) by (rule anchored.handler.execute_message_runs)
      (auto simp: at_most_get_def dest: run_allowed_operation_emits [unfolded at_most_get_def])
  then obtain pre post where "emits (pre @ [] @ post) gs gs'" "\<forall>e\<in>set (pre @ post). \<not> effect e"
    using assms(2) by metis
  then show ?thesis unfolding harmless_def by (intro exI [where x = "pre @ post"]) simp
qed

text \<open>The identifier a call draws for its request, if it gets that far.\<close>

definition drawn_id :: "externals \<Rightarrow> zyguor_gateway \<Rightarrow> execute_params \<Rightarrow> gateway_state \<Rightarrow> uuid" where
  "drawn_id X g params gs =
     (case build_execution_request params of
        Ok request \<Rightarrow>
          fst (new_uuid (snd (evaluate_request_with_config X request (zg_filesystem g) (zg_config g) (gs_world gs))))
      | Err _ \<Rightarrow> 0)"

text \<open>A call that is answered built its request, held it when the policy said so, and ran the rest.\<close>

lemma tool_cases [consumes 1, case_names unbuilt unheld answered]:
  assumes "execute_request_with_config X J (anchored_gateway X fc c log) params gs = (r, gs')"
  obtains e where "r = Err e" and "gs' = gs" and "build_execution_request params = Err e"
  | request ev w1 u w2 e where "build_execution_request params = Ok request"
      and "evaluate_request_with_config X request fc c (gs_world gs) = (ev, w1)"
      and "new_uuid w1 = (u, w2)" and "u = drawn_id X (anchored_gateway X fc c log) params gs"
      and "decision ev = Review" and "r = Err e"
      and "hold_for_review X J fc u request (ep_purpose params) (gs\<lparr>gs_world := w2\<rparr>) = (Err e, gs')"
  | request ev w1 u w2 gs2 where "build_execution_request params = Ok request"
      and "evaluate_request_with_config X request fc c (gs_world gs) = (ev, w1)"
      and "new_uuid w1 = (u, w2)" and "u = drawn_id X (anchored_gateway X fc c log) params gs"
      and "if decision ev = Review
           then hold_for_review X J fc u request (ep_purpose params) (gs\<lparr>gs_world := w2\<rparr>) = (Ok (), gs2)
           else gs2 = gs\<lparr>gs_world := w2\<rparr>"
      and "execute_message_with_audit_id X u (ep_purpose params) ev
             (persist_audit_locked (anchored_persist X log))
             (run_allowed_operation X fc c (http_runner_of X c) request) gs2 = (r, gs')"
  using assms unfolding execute_request_with_config_def execute_request_with_http_runner_def
    anchored_gateway_simps
proof (cases rule: and_then_cases)
  case (1 e)
  then show thesis using that(1) by simp
next
  case (2 request gs0)
  then have gs0: "gs0 = gs" and built: "build_execution_request params = Ok request" by simp_all
  obtain ev w1 where ev: "evaluate_request_with_config X request fc c (gs_world gs) = (ev, w1)" by fastforce
  obtain u w2 where u: "new_uuid w1 = (u, w2)" by fastforce
  have id: "u = drawn_id X (anchored_gateway X fc c log) params gs"
    by (simp add: drawn_id_def built ev u)
  let ?run = "execute_message_with_audit_id X u (ep_purpose params) ev
          (persist_audit_locked (anchored_persist X log))
          (run_allowed_operation X fc c (http_runner_of X c) request)"
  let ?hold = "if decision ev = Review
           then hold_for_review X J fc u request (ep_purpose params) else ret ()"
  have "and_then ?hold (\<lambda>_. ?run) (gs\<lparr>gs_world := w2\<rparr>) = (r, gs')"
    using 2(2) ev u by (simp add: gs0 cong: if_cong)
  then show thesis
  proof (cases rule: and_then_cases)
    case (1 e)
    then show thesis using that(2) [OF built ev u id] by (auto split: if_splits)
  next
    case (2 v gs2)
    then show thesis using that(3) [OF built ev u id] by (auto split: if_splits)
  qed
qed

lemma tool_store_ok:
  assumes "execute_request_with_config X J (anchored_gateway X fc c log) params gs = (r, gs')"
    and "policy_ok (gc_policy c)" and "store_ok (gs_store gs)"
    and "\<And>p. phase (gs_store gs) (drawn_id X (anchored_gateway X fc c log) params gs) \<noteq> Claimed p"
  shows "store_ok (gs_store gs')"
  using assms(1)
proof (cases rule: tool_cases)
  case (unbuilt e)
  then show ?thesis using assms(3) by simp
next
  case (unheld request ev w1 u w2 e)
  note reviewable = evaluate_decision(1) [OF assms(2) unheld(2,5)]
  show ?thesis
    by (rule hold_for_review_store(1) [OF unheld(7) reviewable]) (use assms(3,4) unheld(4) in simp_all)
next
  case (answered request ev w1 u w2 gs2)
  have "store_ok (gs_store gs2)"
  proof (cases "decision ev = Review")
    case True
    note reviewable = evaluate_decision(1) [OF assms(2) answered(2) True]
    have "hold_for_review X J fc u request (ep_purpose params) (gs\<lparr>gs_world := w2\<rparr>) = (Ok (), gs2)"
      using answered(5) True by simp
    then show ?thesis
      by (rule hold_for_review_store(1) [OF _ reviewable]) (use assms(3,4) answered(4) in simp_all)
  next
    case False
    then show ?thesis using answered(5) assms(3) by simp
  qed
  then show ?thesis
    using keepsD [OF shell_execute_message [OF shell_allowed_operation] answered(6)]
    by (simp add: same_shell_def)
qed

section \<open>Runs\<close>

text \<open>
  What can happen to a running gateway: a call of the tool, a connection to the admin socket, and
  anything the environment does to the world and the mutexes in between, except to the trace, which
  only records what the gateway did.  The identifiers of \<open>Uuid::new_v4\<close> do not collide with a
  claimed request.
\<close>

inductive gateway_step ::
  "externals \<Rightarrow> store_json \<Rightarrow> error_texts \<Rightarrow> zyguor_gateway \<Rightarrow> gateway_state \<Rightarrow> gateway_state \<Rightarrow> bool"
  for X J T g
where
  Tool: "(\<And>p. phase (gs_store gs) (drawn_id X g params gs) \<noteq> Claimed p) \<Longrightarrow>
     execute X J g params gs = (response, gs') \<Longrightarrow> gateway_step X J T g gs gs'"
| Operator: "handle_admin_connection X J T g stream gs = (outcome, gs') \<Longrightarrow> gateway_step X J T g gs gs'"
| Environment: "w_trace w' = w_trace (gs_world gs) \<Longrightarrow>
     gateway_step X J T g gs
       (gs\<lparr>gs_store_poisoned := a, gs_audit_poisoned := b, gs_world := w'\<rparr>)"

inductive gateway_run ::
  "externals \<Rightarrow> store_json \<Rightarrow> (string \<Rightarrow> (gateway_config_file, string) result) \<Rightarrow> error_texts
   \<Rightarrow> zyguor_gateway \<Rightarrow> gateway_state \<Rightarrow> bool"
  for X J toml T
where
  Start: "start_gateway X J toml w = (Ok rg, w') \<Longrightarrow> w_trace w = [] \<Longrightarrow>
     gateway_run X J toml T (rg_gateway rg) (rg_state rg)"
| Next: "gateway_run X J toml T g gs \<Longrightarrow> gateway_step X J T g gs gs' \<Longrightarrow>
     gateway_run X J toml T g gs'"

text \<open>A connection is a command of the operator or leaves everything as it is.\<close>

lemma connection_cases:
  assumes "handle_admin_connection X J T g stream gs = (outcome, gs')"
  obtains "gs' = gs"
  | command r where "verify_admin_peer X stream = Ok ()"
      and "handle_admin_command_with_config X J g command gs = (r, gs')"
  using assms unfolding handle_admin_connection_def
  by (auto split: result.splits if_splits prod.splits)

section \<open>Where a run starts\<close>

lemma of_persisted_canonical: "of_persisted q = Ok p \<Longrightarrow> canonical p"
  by (auto simp: of_persisted_def canonical_new split: persisted_review_operation.splits)

lemma load_reviews_ok: "load_reviews qs st = Ok st' \<Longrightarrow> store_ok st \<Longrightarrow> store_ok st'"
proof (induction qs arbitrary: st)
  case (Cons q qs)
  then obtain p where p: "of_persisted q = Ok p" and free: "map_of (reviews st) (pr_request_id p) = None"
      "map_of (claimed_reviews st) (pr_request_id p) = None"
    and rest: "load_reviews qs (case pp_status q of
        PendingStatus \<Rightarrow> st\<lparr>reviews := hm_insert (pr_request_id p) p (reviews st)\<rparr>
      | ClaimedStatus \<Rightarrow> st\<lparr>claimed_reviews := hm_insert (pr_request_id p) p (claimed_reviews st)\<rparr>) = Ok st'"
    by (auto simp: Let_def split: if_splits elim!: bind_result_OkE)
  have "store_ok (case pp_status q of
        PendingStatus \<Rightarrow> st\<lparr>reviews := hm_insert (pr_request_id p) p (reviews st)\<rparr>
      | ClaimedStatus \<Rightarrow> st\<lparr>claimed_reviews := hm_insert (pr_request_id p) p (claimed_reviews st)\<rparr>)"
    using Cons.prems(2) of_persisted_canonical [OF p] free
    by (auto simp: store_ok_def keyed_insert split: persisted_review_status.splits)
  with rest show ?case by (rule Cons.IH)
qed simp

lemma from_serialized_ok: "from_serialized_state J text = Ok st \<Longrightarrow> store_ok st"
  by (auto simp: from_serialized_state_def split: result.splits if_splits
      intro: load_reviews_ok [OF _ store_ok_new])

lemma store_ok_anchored [simp]:
  "store_ok (st\<lparr>persistence_path := p, persistence_parent := d\<rparr>) \<longleftrightarrow> store_ok st"
  by (simp add: store_ok_def)

lemma load_validated_ok: "load_from_validated_path J path d i w = (Ok st, w') \<Longrightarrow> store_ok st"
  unfolding load_from_validated_path_def load_from_path_with_parent_identity_def read_state_file_def
  by (auto elim!: and_then_OkE split: option.splits if_splits prod.splits result.splits)
    (erule from_serialized_ok)

lemma quiet_resolve_config [keeps_intros]: "keeps quiet (resolve_gateway_config toml host_parse p)"
  unfolding resolve_gateway_config_def load_gateway_config_from_path_def by (intro keeps_intros)

lemma quiet_operational [keeps_intros]: "keeps quiet (operational_file X root name)"
proof -
  have checks: "keeps quiet (check_operational_file p)" "keeps quiet (resolve_operational_file p)" for p
    unfolding check_operational_file_def resolve_operational_file_def
    by (rule keepsI, auto split: prod.splits result.splits if_splits dest: keepsD [OF quiet_sys_read])+
  show ?thesis
    unfolding operational_file_def validate_operational_state_path_def Let_def
    by (intro keeps_intros checks)
qed

lemma quiet_read_state_file [keeps_intros]: "keeps quiet (read_state_file J d n)"
proof (rule keepsI)
  fix w r w'
  assume run: "read_state_file J d n w = (r, w')"
  obtain q w1 where opened: "sys_read (fs_open_at False d n) w = (q, w1)" by fastforce
  have first: "quiet w w1" using opened by (rule keepsD [OF quiet_sys_read])
  show "quiet w w'"
  proof (cases q)
    case (Err e)
    then show ?thesis using run opened first by (auto simp: read_state_file_def split: if_splits)
  next
    case (Ok i)
    let ?rest = "and_then (with_err InspectState (sys_fd_metadata i)) (\<lambda>metadata.
        if \<not> is_file metadata then fail StateNotRegular
        else and_then (with_err ReadState (sys_read (file_bytes i))) (\<lambda>bytes.
          case from_utf8 bytes of None \<Rightarrow> fail (ReadState InvalidData)
          | Some contents \<Rightarrow> from_result (from_serialized_state J contents)))"
    have "keeps quiet ?rest" unfolding sys_fd_metadata_def by (intro keeps_intros)
    moreover have "?rest w1 = (r, w')" using run opened Ok by (simp add: read_state_file_def)
    ultimately show ?thesis using first by (blast dest: keepsD intro: quiet_trans)
  qed
qed

lemma quiet_load [keeps_intros]: "keeps quiet (load_from_validated_path J p d i)"
  unfolding load_from_validated_path_def load_from_path_with_parent_identity_def sys_fd_metadata_def
  by (intro keeps_intros)

lemma quiet_from_validated [keeps_intros]: "keeps quiet (from_validated_path p d i)"
  unfolding from_validated_path_def sys_fd_metadata_def by (intro keeps_intros)

lemma quiet_try_new [keeps_intros]: "keeps quiet (try_new X p)"
  unfolding try_new_def by (intro keeps_intros)

lemma quiet_open_gateway [keeps_intros]: "keeps quiet (open_gateway X J c root)"
  unfolding open_gateway_def by (intro keeps_intros)

lemma quiet_listener [keeps_intros]: "keeps quiet (create_managed_admin_listener p)"
proof -
  have guard: "keeps quiet (new_socket_guard p)"
    unfolding new_socket_guard_def by (intro keeps_intros)
  have create: "keeps quiet (create_admin_listener p)"
  proof -
    have bind: "keeps quiet (and_then (with_err BindSocket (sys_bind_socket p))
        (\<lambda>_. with_err SecureSocket (sys_set_permissions p mode_owner_only)))"
      by (intro keeps_intros)
    then show ?thesis
      unfolding create_admin_listener_def sys_exists_def
      by (intro keepsI)
        (auto split: prod.splits if_splits dest: keepsD [OF quiet_sys_read] keepsD [OF bind] intro: quiet_trans)
  qed
  have managed: "keeps quiet (\<lambda>w. case new_socket_guard p w of
       (Ok guard, w1) \<Rightarrow> (Ok guard, w1)
     | (Err error, w1) \<Rightarrow>
         (case sys_remove_file p w1 of
            (Ok _, w2) \<Rightarrow> (Err error, w2)
          | (Err cleanup_error, w2) \<Rightarrow>
              (if cleanup_error = NotFound then (Err error, w2)
               else (Err (CleanUpSocket error cleanup_error), w2))))"
    by (rule keepsI)
      (auto split: prod.splits result.splits if_splits
        dest!: keepsD [OF guard] keepsD [OF quiet_path_calls(3)] intro: quiet_trans)
  show ?thesis
    unfolding create_managed_admin_listener_def
    by (intro keeps_intros create managed)
qed

lemma resolve_config_valid:
  assumes "resolve_gateway_config toml host_parse p w = (Ok c, w')"
  shows "validate_gateway_config host_parse c = Ok ()"
proof -
  have parsed: "validate_gateway_config host_parse c = Ok ()"
    if "parse_gateway_config_toml toml host_parse input = Ok c" for input
    using that by (auto simp: parse_gateway_config_toml_def Let_def elim!: bind_result_OkE)
  show ?thesis
    using assms unfolding resolve_gateway_config_def load_gateway_config_from_path_def
    by (auto split: option.splits elim!: and_then_OkE bind_result_OkE intro: parsed)
qed

lemma open_gateway_Ok:
  assumes "open_gateway X J c root w = (Ok (g, st), w')"
  obtains fc log where "g = anchored_gateway X fc c log" and "store_ok st" and "fc_workspace_root fc = root"
  using assms unfolding open_gateway_def
  by (auto elim!: and_then_OkE simp: with_err_eq_Ok anchored_gateway_def try_new_def)
    (metis load_validated_ok)

lemma start_gateway_Ok:
  assumes "start_gateway X J toml w = (Ok rg, w')"
  obtains fc c log where "rg_gateway rg = anchored_gateway X fc c log"
    and "validate_gateway_config (x_host_parse X) c = Ok ()"
    and "store_ok (gs_store (rg_state rg))" and "quiet w (gs_world (rg_state rg))"
proof -
  from assms obtain root socket config c w1 guard w2 where
    c: "with_err ConfigFailed (resolve_gateway_config toml (x_host_parse X) config) w = (Ok c, w1)"
    and guard: "with_err SocketFailed (create_managed_admin_listener socket) w1 = (Ok guard, w2)"
    and opened: "(case open_gateway X J c root w2 of
        (Err error, w1) \<Rightarrow> (Err error, drop_socket_guard guard w1)
      | (Ok (gateway, store), w1) \<Rightarrow>
         (Ok \<lparr>rg_gateway = gateway,
              rg_state = \<lparr>gs_store = store, gs_store_poisoned = False, gs_audit_poisoned = False,
                          gs_world = w1\<rparr>,
              rg_guard = guard, rg_warned_claimed = claimed_count store\<rparr>, w1)) = (Ok rg, w')"
    unfolding start_gateway_def by (auto elim!: and_then_OkE)
  from opened obtain g st w3 where run: "open_gateway X J c root w2 = (Ok (g, st), w3)"
    and rg: "rg_gateway rg = g" "gs_store (rg_state rg) = st" "gs_world (rg_state rg) = w3"
    by (auto split: prod.splits result.splits)
  have "quiet w w3"
    using keepsD [OF quiet_with_err [OF quiet_resolve_config] c]
      keepsD [OF quiet_with_err [OF quiet_listener] guard] keepsD [OF quiet_open_gateway run]
    by (blast intro: quiet_trans)
  moreover have "validate_gateway_config (x_host_parse X) c = Ok ()"
    using c by (auto simp: with_err_eq_Ok intro: resolve_config_valid)
  ultimately show thesis
    using open_gateway_Ok [OF run] that rg by metis
qed

section \<open>Invariants of runs\<close>

text \<open>Every effect except a GET request needs the operator.\<close>

fun needs_approval :: "event \<Rightarrow> bool" where
  "needs_approval (EvReplaced p c) = True"
| "needs_approval (EvCargo f) = True"
| "needs_approval (EvHttp m u b) = (m = Post \<or> b \<noteq> None)"
| "needs_approval (EvAudit r) = False"
| "needs_approval EvAuditSynced = False"

fun is_approval :: "event \<Rightarrow> bool" where
  "is_approval (EvAudit r) = (ar_phase r = Approval \<and> ar_decision r = Review)"
| "is_approval _ = False"

definition approved_before :: "event list \<Rightarrow> nat \<Rightarrow> bool" where
  "approved_before es k \<longleftrightarrow>
     (\<exists>u. synced_before (decision_record Approval u) es k \<and> synced_before (decision_record PreExecution u) es k)"

definition answered :: "event list \<Rightarrow> bool" where
  "answered es \<longleftrightarrow>
     (\<forall>k<length es. needs_approval (es ! k) \<longrightarrow> approved_before es k) \<and>
     guarded (\<lambda>r. ar_phase r = PreExecution) es \<and>
     length (filter needs_approval es) \<le> length (filter is_approval es)"

lemma needs_approval_effect: "needs_approval e \<Longrightarrow> effect e"
  by (cases e) auto

lemma synced_before_shift: "synced_before P b k \<Longrightarrow> synced_before P (a @ b) (length a + k)"
proof -
  assume "synced_before P b k"
  then obtain j r where j: "Suc j < k" "Suc j < length b" "b ! j = EvAudit r" "P r" "b ! Suc j = EvAuditSynced"
    unfolding synced_before_def by blast
  then have "(a @ b) ! (length a + j) = EvAudit r" "(a @ b) ! Suc (length a + j) = EvAuditSynced"
    by (simp_all add: nth_append)
  with j show ?thesis
    unfolding synced_before_def by (intro exI [where x = "length a + j"] exI [where x = r]) simp
qed

lemma synced_before_weaken: "synced_before P es k \<Longrightarrow> (\<And>r. P r \<Longrightarrow> Q r) \<Longrightarrow> synced_before Q es k"
  unfolding synced_before_def by blast

lemma guarded_weaken: "guarded P es \<Longrightarrow> (\<And>r. P r \<Longrightarrow> Q r) \<Longrightarrow> guarded Q es"
  unfolding guarded_def by (blast intro: synced_before_weaken)

text \<open>Facts about positions of a trace carry over to a longer one.\<close>

lemma positions_append:
  assumes "\<forall>k<length a. P (a ! k) \<longrightarrow> Q a k" and "\<forall>k<length b. P (b ! k) \<longrightarrow> Q b k"
    and "\<And>k. Q a k \<Longrightarrow> Q (a @ b) k" and "\<And>k. Q b k \<Longrightarrow> Q (a @ b) (length a + k)"
  shows "\<forall>k<length (a @ b). P ((a @ b) ! k) \<longrightarrow> Q (a @ b) k"
proof (intro allI impI)
  fix k assume k: "k < length (a @ b)" "P ((a @ b) ! k)"
  show "Q (a @ b) k"
  proof (cases "k < length a")
    case True
    then show ?thesis using k assms(1,3) by (simp add: nth_append)
  next
    case False
    then have "Q b (k - length a)" using k assms(2) by (simp add: nth_append)
    from assms(4) [OF this] False show ?thesis by simp
  qed
qed

lemma answered_append:
  assumes "answered a" and "answered b"
  shows "answered (a @ b)"
proof -
  have "\<forall>k<length (a @ b). needs_approval ((a @ b) ! k) \<longrightarrow> approved_before (a @ b) k"
    using assms unfolding answered_def
    by (intro positions_append) (auto simp: approved_before_def intro: synced_before_append synced_before_shift)
  moreover have "guarded (\<lambda>r. ar_phase r = PreExecution) (a @ b)"
    using assms unfolding answered_def guarded_def
    by (intro positions_append) (auto intro: synced_before_append synced_before_shift)
  ultimately show ?thesis using assms by (simp add: answered_def)
qed

lemma answered_harmless: "\<forall>e\<in>set es. \<not> effect e \<Longrightarrow> answered es"
proof -
  assume none: "\<forall>e\<in>set es. \<not> effect e"
  then have "\<forall>e\<in>set es. \<not> needs_approval e" by (blast dest: needs_approval_effect)
  moreover from this have "filter needs_approval es = []" by (simp add: filter_empty_conv)
  ultimately show "answered es"
    using none by (auto simp: answered_def intro: guarded_quiet)
qed

lemma answered_tool:
  assumes "get_only es" and "guarded agent_record es"
  shows "answered es"
proof -
  have "\<not> needs_approval e" if "e \<in> set es" for e
  proof
    assume "needs_approval e"
    moreover have "e \<in> set (filter effect es)" using calculation that needs_approval_effect by simp
    ultimately show False
      using assms(1) unfolding get_only_def by (elim disjE exE) (simp_all del: set_filter)
  qed
  moreover from this have "filter needs_approval es = []" by (simp add: filter_empty_conv)
  ultimately show ?thesis
    using guarded_weaken [OF assms(2), of "\<lambda>r. ar_phase r = PreExecution"]
    by (auto simp: answered_def agent_record_def)
qed

lemma answered_approval:
  assumes "approval_events u st es" and "guarded (decision_record Approval u) es"
    and "guarded (decision_record PreExecution u) es"
  shows "answered es"
proof -
  have "approved_before es k" if "k < length es" "needs_approval (es ! k)" for k
    using assms(2,3) that needs_approval_effect unfolding approved_before_def guarded_def by blast
  moreover have "guarded (\<lambda>r. ar_phase r = PreExecution) es"
    using assms(3) by (rule guarded_weaken) (simp add: decision_record_def)
  moreover have "length (filter needs_approval es) \<le> length (filter is_approval es)"
  proof (cases "filter needs_approval es")
    case (Cons e rest)
    then have "e \<in> set (filter needs_approval es)" by simp
    then have "e \<in> set es" "needs_approval e" by simp_all
    then obtain k where k: "k < length es" "effect (es ! k)"
      using needs_approval_effect by (metis in_set_conv_nth)
    then obtain j r where "j < length es" "es ! j = EvAudit r" "decision_record Approval u r"
      using assms(2) unfolding guarded_def synced_before_def by (metis Suc_lessD)
    then have "es ! j \<in> set (filter is_approval es)" using nth_mem [of j es] by (simp add: decision_record_def)
    then have "1 \<le> length (filter is_approval es)" by (cases "filter is_approval es") auto
    moreover have "length (filter needs_approval es) \<le> length (filter effect es)"
      using needs_approval_effect by (induction es) auto
    moreover have "length (filter effect es) \<le> 1"
      using assms(1) by (auto simp: approval_events_def)
    ultimately show ?thesis by linarith
  qed simp
  ultimately show ?thesis by (simp add: answered_def)
qed

text \<open>What every handler adds to the trace is answered for.\<close>

lemma admin_answered:
  assumes "handle_admin_command_with_config X J (anchored_gateway X fc c log) command gs = (r, gs')"
    and "store_ok (gs_store gs)"
  shows "\<exists>es. emits es gs gs' \<and> answered es"
proof (cases command)
  case (Approve u)
  then show ?thesis
    using assms(1) approve_runs [OF _ assms(2)] answered_approval by (metis admin_approve anchored_gateway_simps(2))
next
  case (Reject u)
  then have "harmless gs gs'" using assms(1) keepsD [OF harmless_reject] by simp
  then show ?thesis unfolding harmless_def using answered_harmless by blast
next
  case (AcknowledgeClaimed u)
  then have "harmless gs gs'" using assms(1) keepsD [OF harmless_acknowledge] by simp
  then show ?thesis unfolding harmless_def using answered_harmless by blast
qed

definition run_ok :: "externals \<Rightarrow> zyguor_gateway \<Rightarrow> gateway_state \<Rightarrow> bool" where
  "run_ok X g gs \<longleftrightarrow>
     (\<exists>fc c log. g = anchored_gateway X fc c log \<and> validate_gateway_config (x_host_parse X) c = Ok ()) \<and>
     store_ok (gs_store gs) \<and> answered (w_trace (gs_world gs))"

lemma run_ok_emits:
  assumes "run_ok X g gs" and "\<exists>es. emits es gs gs' \<and> answered es" and "store_ok (gs_store gs')"
  shows "run_ok X g gs'"
  using assms answered_append by (auto simp: run_ok_def emits_def adds_def)

lemma step_run_ok:
  assumes "gateway_step X J T g gs gs'" and "run_ok X g gs"
  shows "run_ok X g gs'"
proof -
  obtain fc c log where g: "g = anchored_gateway X fc c log"
    and valid: "validate_gateway_config (x_host_parse X) c = Ok ()" and ok: "store_ok (gs_store gs)"
    using assms(2) unfolding run_ok_def by blast
  from assms(1) show ?thesis
  proof (cases rule: gateway_step.cases)
    case (Tool params response)
    obtain r where run: "execute_request_with_config X J (anchored_gateway X fc c log) params gs = (r, gs')"
      using Tool(2) unfolding execute_def g by (auto split: prod.splits result.splits)
    have "store_ok (gs_store gs')"
      using run validate_gateway_config_Ok(2) [OF valid] ok by (rule tool_store_ok) (use Tool(1) g in simp)
    then show ?thesis
      using assms(2) tool_runs [OF run] answered_tool by (blast intro: run_ok_emits)
  next
    case (Operator stream outcome)
    then show ?thesis
    proof (cases rule: connection_cases)
      case 1
      then show ?thesis using assms(2) by simp
    next
      case (2 command r)
      have "store_ok (gs_store gs')"
        using keepsD [OF sound_admin 2(2)] ok by (simp add: sound_def)
      moreover have "\<exists>es. emits es gs gs' \<and> answered es"
        using 2(2) ok unfolding g by (rule admin_answered)
      ultimately show ?thesis using assms(2) by (blast intro: run_ok_emits)
    qed
  next
    case (Environment w' a b)
    then show ?thesis using assms(2) by (simp add: run_ok_def)
  qed
qed

lemma run_invariant: "gateway_run X J toml T g gs \<Longrightarrow> run_ok X g gs"
proof (induction rule: gateway_run.induct)
  case (Start w rg w')
  from Start(1) obtain fc c log where "rg_gateway rg = anchored_gateway X fc c log"
    and "validate_gateway_config (x_host_parse X) c = Ok ()"
    and "store_ok (gs_store (rg_state rg))" and "quiet w (gs_world (rg_state rg))"
    by (rule start_gateway_Ok)
  then show ?case
    using Start(2) answered_harmless [of "[]"] by (auto simp: run_ok_def quiet_def)
next
  case (Next g gs gs')
  then show ?case by (blast intro: step_run_ok)
qed

end
