(* ===== verification/Answers.thy ===== *)
theory Answers
  imports System
begin

text \<open>
  What the two sides are told: the answer of the tool to the agent and the line for the operator,
  against what happened to the store and to the trace.
\<close>

section \<open>The answer of the tool\<close>

text \<open>The status of an answer whose completion record was persisted.\<close>

fun plain_status :: "policy_decision \<Rightarrow> execution_outcome \<Rightarrow> string" where
  "plain_status Allow Success = ''executed''"
| "plain_status Allow _ = ''execution_failed''"
| "plain_status Review _ = ''held_for_review''"
| "plain_status Block _ = ''blocked''"

text \<open>An answer that says of itself what it should.\<close>

definition consistent_answer :: "gateway_response \<Rightarrow> bool" where
  "consistent_answer a \<longleftrightarrow>
     (gw_executed a \<longleftrightarrow> gw_execution_outcome a = Success) \<and>
     (gw_executed a \<longleftrightarrow> gw_result a \<noteq> None) \<and>
     (if gw_decision a = Allow then gw_execution_outcome a \<in> {Success, Failed}
      else gw_execution_outcome a = NotExecuted)"

text \<open>The last line of the audit log is the completion record of this answer.\<close>

definition completion_of :: "gateway_response \<Rightarrow> audit_record \<Rightarrow> bool" where
  "completion_of a rec \<longleftrightarrow>
     ar_phase rec = Completion \<and> ar_request_id rec = gw_request_id a \<and> ar_decision rec = gw_decision a \<and>
     ar_reason rec = gw_reason a \<and> ar_execution_outcome rec = gw_execution_outcome a"

context audit_writer
begin

lemma arm_outcome:
  assumes "(case decision ev of
      Allow \<Rightarrow> allowed_execution u message ev writer runner
    | Review \<Rightarrow> ret (''held_for_review'', False, None, NotExecuted)
    | Block \<Rightarrow> ret (''blocked'', False, None, NotExecuted)) gs = (Ok (status, executed, res, outcome), gs')"
  shows "status = plain_status (decision ev) outcome" and "executed \<longleftrightarrow> outcome = Success"
    and "executed \<longleftrightarrow> res \<noteq> None"
    and "if decision ev = Allow then outcome \<in> {Success, Failed} else outcome = NotExecuted"
  using assms by (cases "decision ev"; auto simp: allowed_execution_def elim!: and_then_OkE split: prod.splits result.splits)+

lemma message_answer:
  assumes "execute_message_with_audit_id X u message ev writer runner gs = (Ok text, gs')"
    and runner: "\<And>q g g'. runner g = (q, g') \<Longrightarrow> \<exists>es. emits es g g'"
  obtains a es where "x_response_json X a = Ok text" and "consistent_answer a"
    and "gw_request_id a = u" and "gw_decision a = decision ev" and "gw_reason a = reason ev"
    and "emits es gs gs'"
    and "(\<exists>pre rec. es = pre @ [EvAudit rec, EvAuditSynced] \<and> completion_of a rec \<and>
            gw_status a = plain_status (gw_decision a) (gw_execution_outcome a)) \<or>
         gw_status a = status_after_audit_failure (gw_execution_outcome a)
                         (plain_status (gw_decision a) (gw_execution_outcome a))"
proof -
  let ?arm = "case decision ev of
      Allow \<Rightarrow> allowed_execution u message ev writer runner
    | Review \<Rightarrow> ret (''held_for_review'', False, None, NotExecuted)
    | Block \<Rightarrow> ret (''blocked'', False, None, NotExecuted)"
  from assms(1) obtain status executed res outcome gs1 rec gs2 where
    arm: "?arm gs = (Ok (status, executed, res, outcome), gs1)"
    and made: "audit_record_for u message (decision ev) (reason ev) Completion outcome gs1 = (Ok rec, gs2)"
    and rest: "(case writer rec gs2 of (written, gs3) \<Rightarrow>
        (map_err ResponseNotSerialized (x_response_json X
          \<lparr>gw_request_id = ar_request_id rec,
           gw_status = (if is_err written then status_after_audit_failure outcome status else status),
           gw_decision = decision ev, gw_reason = reason ev, gw_executed = executed, gw_result = res,
           gw_execution_outcome = outcome\<rparr>), gs3)) = (Ok text, gs')"
    unfolding execute_message_with_audit_id_def Let_def
    by (auto elim!: and_then_OkE split: prod.splits)
  obtain written where w: "writer rec gs2 = (written, gs')"
    using rest by (auto split: prod.splits)
  let ?a = "\<lparr>gw_request_id = ar_request_id rec,
           gw_status = (if is_err written then status_after_audit_failure outcome status else status),
           gw_decision = decision ev, gw_reason = reason ev, gw_executed = executed, gw_result = res,
           gw_execution_outcome = outcome\<rparr>"
  note facts = arm_outcome [OF arm] audit_record_for_runs(3) [OF made refl]
  obtain pre where pre: "emits pre gs gs1"
  proof (cases "decision ev")
    case Allow
    then have "allowed_execution u message ev writer runner gs = (Ok (status, executed, res, outcome), gs1)"
      using arm by simp
    from allowed_execution_runs [OF this, of "\<lambda>_. True"] runner that show thesis by auto
  qed (use arm that [of "[]"] in auto)
  have before: "emits pre gs gs2" using emits_trans [OF pre audit_record_for_runs(1) [OF made]] by simp
  have json: "x_response_json X ?a = Ok text" using rest w by auto
  have a: "consistent_answer ?a" "gw_request_id ?a = u"
    using facts by (auto simp: consistent_answer_def split: if_splits)
  show thesis
  proof (cases written)
    case (Ok v)
    then have "emits (pre @ [EvAudit rec, EvAuditSynced]) gs gs'"
      using emits_trans [OF before] writes w by simp
    then show thesis
      using that [OF json a] facts Ok by (simp add: completion_of_def)
  next
    case (Err e)
    obtain es where es: "emits es gs2 gs'" using writes_no_effect [OF w] by blast
    then show thesis
      using that [OF json a] facts Err emits_trans [OF before es] by simp
  qed
qed

end

text \<open>Nothing is emitted before a request is held, and holding it emits nothing.\<close>

lemma held_quiet:
  assumes "evaluate_request_with_config X request fc c (gs_world gs) = (ev, w1)" and "new_uuid w1 = (u, w2)"
    and "if decision ev = Review
         then hold_for_review X J fc u request purpose (gs\<lparr>gs_world := w2\<rparr>) = (Ok (), gs2)
         else gs2 = gs\<lparr>gs_world := w2\<rparr>"
  shows "emits [] gs gs2"
proof -
  have first: "emits [] gs (gs\<lparr>gs_world := w2\<rparr>)"
    using quiet_trans [OF quiet_evaluate [OF assms(1)] quiet_new_uuid [OF assms(2)]]
    by (simp add: emits_def adds_Nil)
  have "emits [] (gs\<lparr>gs_world := w2\<rparr>) gs2"
    using assms(3) by (auto split: if_splits dest: hold_for_review_emits)
  then show ?thesis using emits_trans [OF first] by fastforce
qed

text \<open>A purpose that is refused ends the call where it is checked: after the request was held.\<close>

lemma hold_for_review_Err:
  assumes "hold_for_review X J fc u request purpose gs = (Err e, gs')"
  shows "e \<noteq> MessageEmpty" and "e \<noteq> MessageTooLong"
  using assms unfolding hold_for_review_def build_pending_review_def
  by (auto simp: locked_def on_world_def elim!: and_then_ErrE with_err_cases and_then_OkE
      split: execution_request.splits prod.splits if_splits)

lemma message_refused:
  assumes "execute_message_with_audit_id X u message ev writer runner gs = (Err e, gs')"
    and "e = MessageEmpty \<or> e = MessageTooLong"
  shows "gs' = gs"
proof -
  have "\<not> (\<exists>g. allowed_execution u message ev writer runner gs = (Err e, g))"
    using assms(2) unfolding allowed_execution_def audit_record_for_def
    by (auto simp: on_world_def ok_or_def elim!: and_then_ErrE with_err_cases
        split: prod.splits result.splits option.splits)
  moreover have "audit_record_for u message d r p q g \<noteq> (Err e, g')" for d r p q g g'
    using assms(2) by (auto simp: audit_record_for_def on_world_def ok_or_def split: prod.splits option.splits)
  ultimately show ?thesis
    using assms unfolding execute_message_with_audit_id_def Let_def
    by (auto elim!: and_then_ErrE simp: map_err_eq_Err split: prod.splits policy_decision.splits)
qed

section \<open>The outcome of an approval\<close>

text \<open>A reviewed operation whose completion was recorded: what it left, in this order.\<close>

context audit_writer
begin

lemma reviewed_action_Ok:
  assumes "execute_reviewed_action p writer operation gs = (Ok out, gs')"
    and "\<nexists>o1 e r. out = ReviewedAuditFailed o1 e r"
    and operation: "\<And>q g g'. operation g = (q, g') \<Longrightarrow> same_shell g g'"
  obtains before q gs1 gs2 after where "emits [EvAudit before, EvAuditSynced] gs gs1"
    and "decision_record PreExecution (pr_request_id p) before"
    and "operation gs1 = (q, gs2)" and "out = reviewed_outcome q"
    and "emits [EvAudit after, EvAuditSynced] gs2 gs'"
    and "decision_record Completion (pr_request_id p) after" and "ar_execution_outcome after = operation_outcome q"
    and "same_shell gs gs'"
proof -
  from assms(1) obtain why before g0 gs1 where
    pre: "audit_record_for (pr_request_id p) (pr_purpose p) Review why PreExecution NotExecuted gs = (Ok before, g0)"
    and w: "writer before g0 = (Ok (), gs1)"
    and rest: "(case operation gs1 of (q, gs2) \<Rightarrow> complete_reviewed_action p why writer q gs2) = (Ok out, gs')"
    unfolding execute_reviewed_action_def
    by (auto simp: with_err_eq_Ok elim!: and_then_OkE)
  obtain q gs2 where op: "operation gs1 = (q, gs2)" by fastforce
  obtain after g3 where post: "audit_record_for (pr_request_id p) (pr_purpose p) Review why Completion
      (operation_outcome q) gs2 = (Ok after, g3)" and w2: "writer after g3 = (Ok (), gs')" and out: "out = reviewed_outcome q"
    using rest op assms(2) unfolding complete_reviewed_action_def
    by (auto split: prod.splits result.splits)
  have "same_shell gs gs'"
    using audit_record_for_runs(2) [OF pre] writes_shell [OF w] operation [OF op]
      audit_record_for_runs(2) [OF post] writes_shell [OF w2] by (metis same_shell_trans)
  then show thesis
    using that [OF emits_trans [OF audit_record_for_runs(1) [OF pre] writes [OF w], simplified] _ op out
        emits_trans [OF audit_record_for_runs(1) [OF post] writes [OF w2], simplified]]
      audit_record_for_runs(3) [OF pre refl] audit_record_for_runs(3) [OF post refl]
    by (simp add: decision_record_def)
qed

end

lemma consume_handler_Ok:
  assumes "consume_claimed_request X J u gs = (Ok x, gs')" and "store_ok (gs_store gs)"
  shows "phase (gs_store gs) u = Claimed x" and "pr_request_id x = u"
    and "phase (gs_store gs') = (phase (gs_store gs))(u := Absent)" and "emits [] gs gs'"
proof -
  from assms(1) obtain st' w' where run: "store_consume_claimed X J u (gs_store gs, gs_world gs) = (Ok x, (st', w'))"
    and gs': "gs' = gs\<lparr>gs_store := st', gs_world := w'\<rparr>"
    by (auto simp: consume_claimed_request_def locked_def split: if_splits elim!: on_store_runs)
  have "store_good (gs_store gs, gs_world gs)" using assms(2) by (simp add: store_good_def)
  from memory.con_Ok [OF this run] show "phase (gs_store gs) u = Claimed x" "pr_request_id x = u"
    "phase (gs_store gs') = (phase (gs_store gs))(u := Absent)"
    by (simp_all add: store_view_def gs')
  show "emits [] gs gs'" using assms(1) by (rule store_handlers_emit_nothing(4))
qed

text \<open>An approval that reports a finished write did exactly what it should, in this order.\<close>

lemma approved_write_runs:
  assumes "approve_command X J (anchored_gateway X fc c log) post u gs = (Ok (Approved v), gs')"
    and "store_ok (gs_store gs)"
  obtains p a ra rb rc where "v = u" and "phase (gs_store gs) u = Pending p" and "pr_request p = WriteFile a"
    and "emits [EvAudit ra, EvAuditSynced, EvAudit rb, EvAuditSynced,
      EvReplaced (wf_path a) (wf_content a), EvAudit rc, EvAuditSynced] gs gs'"
    and "decision_record Approval u ra" and "decision_record PreExecution u rb"
    and "decision_record Completion u rc" and "ar_execution_outcome rc = Success"
    and "phase (gs_store gs') = (phase (gs_store gs))(u := Absent)"
  using assms
proof (cases rule: approve_cases)
  case (claimed p w1 gs2)
  let ?sink = "persist_audit_locked (anchored_persist X log)"
  from claimed(7) obtain v0 gs3 where approval: "audit_claimed_approval X J p ?sink gs2 = (Ok v0, gs3)"
    and run: "execute_approved X J (anchored_gateway X fc c log) post u p gs3 = (Ok (Approved v), gs')"
    by (rule and_then_OkE)
  obtain q where q: "write_review_audit Approval NotExecuted p ?sink gs2 = (q, gs3)" "q = Ok ()"
    using approval by (auto simp: audit_claimed_approval_def write_approval_audit_def split: prod.splits result.splits)
  obtain ra where ra: "emits [EvAudit ra, EvAuditSynced] gs2 gs3" "decision_record Approval u ra" "same_shell gs2 gs3"
    using q by (cases rule: anchored.handler.write_review_audit_runs) (auto simp: decision_record_def claimed(2))
  from run obtain a where request: "pr_request p = WriteFile a"
    and wrote: "approve_write X J (anchored_gateway X fc c log) u p a gs3 = (Ok (Approved v), gs')"
    unfolding execute_approved_def
    by (auto simp: approve_cargo_def approve_http_def elim!: and_then_OkE cargo_approval_outcome.elims
        http_approval_outcome.elims split: execution_request.splits if_splits)
  let ?operation = "and_then (on_world (with_err FileFailed (write_text_file X fc (wf_path a) (wf_content a))))
    (\<lambda>_. ret (OperationSuccess None))"
  from wrote obtain gs4 where acted: "execute_reviewed_action p ?sink ?operation gs3 = (Ok ReviewedSuccess, gs4)"
    and consumed: "\<exists>x. consume_claimed_request X J (pr_request_id p) gs4 = (Ok x, gs')" and v: "v = u"
    unfolding approve_write_def execute_claimed_write_def execute_approved_write_def settle_claimed_def
    by (auto simp: with_err_eq_Ok elim!: and_then_OkE write_approval_outcome.elims split: prod.splits result.splits)
  have no_failure: "\<nexists>o1 e r. ReviewedSuccess = ReviewedAuditFailed o1 e r" by simp
  have shell: "same_shell g g'" if "?operation g = (z, g')" for z g g'
    using that by (auto elim!: and_then_cases dest: on_world_shell)
  obtain rb z gs5 gs6 rc where acts: "emits [EvAudit rb, EvAuditSynced] gs3 gs5" "decision_record PreExecution u rb"
    "?operation gs5 = (z, gs6)" "ReviewedSuccess = reviewed_outcome z" "emits [EvAudit rc, EvAuditSynced] gs6 gs4"
    "decision_record Completion u rc" "ar_execution_outcome rc = operation_outcome z" "same_shell gs3 gs4"
    by (rule anchored.handler.reviewed_action_Ok [OF acted no_failure shell, unfolded claimed(2)]) blast
  have z: "z = Ok (OperationSuccess None)"
    using acts(4) by (cases z rule: reviewed_outcome.cases) auto
  have replaced: "emits [EvReplaced (wf_path a) (wf_content a)] gs5 gs6"
    using acts(3) unfolding z
    by (auto simp: with_err_eq_Ok emits_def elim!: and_then_OkE on_world_runs dest!: write_text_file_events)
  have ok4: "store_ok (gs_store gs4)" "phase (gs_store gs4) = (phase (gs_store gs))(u := Claimed p)"
    using claimed(5,6) ra(3) acts(8) by (simp_all add: same_shell_def)
  obtain x where "consume_claimed_request X J u gs4 = (Ok x, gs')" using consumed claimed(2) by auto
  note gone = consume_handler_Ok(3,4) [OF this ok4(1)]
  have "emits ([] @ [EvAudit ra, EvAuditSynced] @ [EvAudit rb, EvAuditSynced] @
      [EvReplaced (wf_path a) (wf_content a)] @ [EvAudit rc, EvAuditSynced] @ []) gs gs'"
    using claimed(4) ra(1) acts(1) replaced acts(5) gone(2) by (intro emits_trans) assumption+
  then show thesis
    using that [OF v claimed(1) request] ra(2) acts(2,6,7) z gone(1) ok4(2) by simp
qed simp

section \<open>The line for the operator\<close>

text \<open>A command that did what it was asked for, with a result that can be rendered.\<close>

fun succeeded :: "externals \<Rightarrow> admin_outcome \<Rightarrow> bool" where
  "succeeded X (Approved u) = True"
| "succeeded X (Rejected p) = True"
| "succeeded X (ClaimedAcknowledged p) = True"
| "succeeded X (CargoTestCompleted u r) = (\<not> is_err (x_cargo_json X r))"
| "succeeded X (HttpPostCompleted u r) = (\<not> is_err (x_http_json X r))"
| "succeeded X _ = False"

definition outcome_id :: "admin_outcome \<Rightarrow> uuid" where
  "outcome_id outcome =
     (case outcome of
        Approved u \<Rightarrow> u | Rejected p \<Rightarrow> pr_request_id p | ClaimedAcknowledged p \<Rightarrow> pr_request_id p
      | AcknowledgementUncertain u e \<Rightarrow> u | WriteFailed u e \<Rightarrow> u | CargoTestCompleted u r \<Rightarrow> u
      | CargoTestFailed u r \<Rightarrow> u | CompletionAuditFailed u out e r \<Rightarrow> u
      | CargoTestExecutionFailed u e \<Rightarrow> u | HttpPostCompleted u r \<Rightarrow> u | HttpPostFailed u r \<Rightarrow> u
      | HttpPostExecutionFailed u e \<Rightarrow> u)"

end
