(* ===== verification/Handlers.thy ===== *)
theory Handlers
  imports Tasks Answers
begin

text \<open>
  The handlers of \<open>main.rs\<close> as tasks.  The tool method and the connections of the operator run in
  different threads and share the store, the audit log and the world.  A section is what no other
  handler can interrupt or what only its own handler can see: a use of the store under its mutex, a
  record written under the audit mutex, the creation of a record, and each of the calls that look at
  the world or perform the operation (the calls of the system inside one such call are not
  interleaved with other handlers' sections).  Each task, run alone, is the handler of
  \<open>Gateway\<close> or \<open>Admin\<close>.
\<close>

type_synonym ('a, 'e) thread = "(gateway_state, ('a, 'e) result) task"

section \<open>The tool\<close>

definition record_and_persist ::
  "zyguor_gateway \<Rightarrow> uuid \<Rightarrow> string \<Rightarrow> policy_decision \<Rightarrow> policy_reason \<Rightarrow> audit_phase \<Rightarrow> execution_outcome
   \<Rightarrow> (unit, gateway_error) thread" where
  "record_and_persist g request_id message d r stage outcome =
     and_then_task (atomically (audit_record_for request_id message d r stage outcome)) (\<lambda>record.
     atomically (with_err (AuditPersistFailed stage) (persist_audit_locked (zg_audit g) record)))"

definition allowed_execution_task ::
  "zyguor_gateway \<Rightarrow> uuid \<Rightarrow> string \<Rightarrow> policy_evaluation \<Rightarrow> (execution_result, operation_error) handler
   \<Rightarrow> (string \<times> bool \<times> execution_result option \<times> execution_outcome, gateway_error) thread" where
  "allowed_execution_task g request_id message evaluation sandbox_runner =
     and_then_task (record_and_persist g request_id message (decision evaluation) (reason evaluation)
                      PreExecution NotExecuted) (\<lambda>_.
     bind_task (atomically sandbox_runner) (\<lambda>r.
     case r of
       Ok result \<Rightarrow> Done (Ok (''executed'', True, Some result, Success))
     | Err _ \<Rightarrow> Done (Ok (''execution_failed'', False, None, Failed))))"

text \<open>The completion record and the answer.\<close>

definition answer_task ::
  "externals \<Rightarrow> zyguor_gateway \<Rightarrow> uuid \<Rightarrow> string \<Rightarrow> policy_evaluation
   \<Rightarrow> string \<times> bool \<times> execution_result option \<times> execution_outcome \<Rightarrow> (string, gateway_error) thread"
where
  "answer_task X g request_id message evaluation = (\<lambda>(status, executed, result, execution_outcome).
     and_then_task (atomically (audit_record_for request_id message (decision evaluation)
                      (reason evaluation) Completion execution_outcome)) (\<lambda>audit_record.
     bind_task (atomically (persist_audit_locked (zg_audit g) audit_record)) (\<lambda>written.
       let status1 = (if is_err written then status_after_audit_failure execution_outcome status
                      else status);
           response = \<lparr>gw_request_id = ar_request_id audit_record, gw_status = status1,
             gw_decision = decision evaluation, gw_reason = reason evaluation,
             gw_executed = executed, gw_result = result, gw_execution_outcome = execution_outcome\<rparr>
       in Done (map_err ResponseNotSerialized (x_response_json X response)))))"

definition execute_message_task ::
  "externals \<Rightarrow> zyguor_gateway \<Rightarrow> uuid \<Rightarrow> string \<Rightarrow> policy_evaluation
   \<Rightarrow> (execution_result, operation_error) handler \<Rightarrow> (string, gateway_error) thread" where
  "execute_message_task X g request_id message evaluation sandbox_runner =
     and_then_task (Done (validate_message message)) (\<lambda>_.
     and_then_task
       (case decision evaluation of
          Allow \<Rightarrow> allowed_execution_task g request_id message evaluation sandbox_runner
        | Review \<Rightarrow> Done (Ok (''held_for_review'', False, None, NotExecuted))
        | Block \<Rightarrow> Done (Ok (''blocked'', False, None, NotExecuted)))
       (answer_task X g request_id message evaluation))"

definition hold_for_review_task ::
  "externals \<Rightarrow> store_json \<Rightarrow> file_system_capability \<Rightarrow> uuid \<Rightarrow> execution_request \<Rightarrow> string
   \<Rightarrow> (unit, gateway_error) thread" where
  "hold_for_review_task X J filesystem request_id request purpose =
     and_then_task (atomically (build_pending_review X filesystem request_id request purpose)) (\<lambda>pending.
     atomically (locked (StoreFailed StoreLockPoisoned)
       (with_err StoreFailed (on_store (store_insert X J pending)))))"

text \<open>Evaluating a request and drawing an identifier, as actions that cannot fail.\<close>

definition evaluate_section ::
  "externals \<Rightarrow> zyguor_gateway \<Rightarrow> execution_request \<Rightarrow> (policy_evaluation, gateway_error) handler" where
  "evaluate_section X g request =
     on_world (\<lambda>w. case evaluate_request_with_config X request (zg_filesystem g) (zg_config g) w of
       (evaluation, w1) \<Rightarrow> (Ok evaluation, w1))"

definition draw_section :: "(uuid, gateway_error) handler" where
  "draw_section = on_world (\<lambda>w. case new_uuid w of (u, w1) \<Rightarrow> (Ok u, w1))"

definition execute_task ::
  "externals \<Rightarrow> store_json \<Rightarrow> zyguor_gateway \<Rightarrow> execute_params \<Rightarrow> (string, gateway_error) thread" where
  "execute_task X J g params =
     and_then_task (Done (build_execution_request params)) (\<lambda>request.
     and_then_task (atomically (evaluate_section X g request)) (\<lambda>evaluation.
     and_then_task (atomically draw_section) (\<lambda>request_id.
     and_then_task
       (if decision evaluation = Review
        then hold_for_review_task X J (zg_filesystem g) request_id request (ep_purpose params)
        else Done (Ok ())) (\<lambda>_.
     execute_message_task X g request_id (ep_purpose params) evaluation
       (run_allowed_operation X (zg_filesystem g) (zg_config g) (http_runner_of X (zg_config g)) request)))))"

section \<open>The operator\<close>

definition write_review_audit_task ::
  "zyguor_gateway \<Rightarrow> audit_phase \<Rightarrow> execution_outcome \<Rightarrow> pending_review \<Rightarrow> (unit, gateway_error) thread"
where
  "write_review_audit_task g stage outcome pending =
     and_then_task (Done (review_reason_for_request (pr_request pending))) (\<lambda>r.
     record_and_persist g (pr_request_id pending) (pr_purpose pending) Review r stage outcome)"

definition audit_claimed_rejection_task ::
  "externals \<Rightarrow> store_json \<Rightarrow> zyguor_gateway \<Rightarrow> pending_review \<Rightarrow> (unit, gateway_error) thread" where
  "audit_claimed_rejection_task X J g claimed =
     bind_task (write_review_audit_task g Rejection NotExecuted claimed) (\<lambda>r.
     case r of
       Err audit_error \<Rightarrow> atomically (restore_and_fail X J claimed audit_error)
     | Ok _ \<Rightarrow>
         and_then_task (atomically (with_err RejectionNotConsumed
           (consume_claimed_request X J (pr_request_id claimed)))) (\<lambda>_. Done (Ok ())))"

definition audit_claimed_approval_task ::
  "externals \<Rightarrow> store_json \<Rightarrow> zyguor_gateway \<Rightarrow> pending_review \<Rightarrow> (unit, gateway_error) thread" where
  "audit_claimed_approval_task X J g claimed =
     bind_task (write_review_audit_task g Approval NotExecuted claimed) (\<lambda>r.
     case r of
       Err audit_error \<Rightarrow> atomically (restore_and_fail X J claimed audit_error)
     | Ok _ \<Rightarrow> Done (Ok ()))"

definition complete_reviewed_task ::
  "zyguor_gateway \<Rightarrow> pending_review \<Rightarrow> policy_reason \<Rightarrow> (reviewed_operation_result, operation_error) result
   \<Rightarrow> (reviewed_execution_outcome, gateway_error) thread" where
  "complete_reviewed_task g pending r execution_result =
     bind_task (atomically (audit_record_for (pr_request_id pending) (pr_purpose pending) Review r
                  Completion (operation_outcome execution_result))) (\<lambda>record.
     case record of
       Err error \<Rightarrow>
         Done (Ok (ReviewedAuditFailed (operation_outcome execution_result) error
                     (preserved_result execution_result)))
     | Ok completion_record \<Rightarrow>
         bind_task (atomically (persist_audit_locked (zg_audit g) completion_record)) (\<lambda>written.
         case written of
           Err error \<Rightarrow>
             Done (Ok (ReviewedAuditFailed (operation_outcome execution_result)
                         (AuditPersistFailed Completion error) (preserved_result execution_result)))
         | Ok _ \<Rightarrow> Done (Ok (reviewed_outcome execution_result))))"

definition execute_reviewed_task ::
  "zyguor_gateway \<Rightarrow> pending_review \<Rightarrow> (reviewed_operation_result, operation_error) handler
   \<Rightarrow> (reviewed_execution_outcome, gateway_error) thread" where
  "execute_reviewed_task g pending operation =
     and_then_task (Done (review_reason_for_request (pr_request pending))) (\<lambda>r.
     and_then_task (record_and_persist g (pr_request_id pending) (pr_purpose pending) Review r
                      PreExecution NotExecuted) (\<lambda>_.
     bind_task (atomically operation) (\<lambda>execution_result.
     complete_reviewed_task g pending r execution_result)))"

definition execute_claimed_task ::
  "externals \<Rightarrow> store_json \<Rightarrow> zyguor_gateway \<Rightarrow> pending_review
   \<Rightarrow> (reviewed_operation_result, operation_error) handler
   \<Rightarrow> (reviewed_execution_outcome, gateway_error) thread" where
  "execute_claimed_task X J g claimed operation =
     bind_task (execute_reviewed_task g claimed operation) (\<lambda>executed.
     atomically (settle_claimed X J claimed executed))"

definition finish_approval ::
  "(uuid \<Rightarrow> reviewed_execution_outcome \<Rightarrow> (admin_outcome, gateway_error) result) \<Rightarrow> uuid
   \<Rightarrow> (reviewed_execution_outcome, gateway_error) thread \<Rightarrow> (admin_outcome, gateway_error) thread" where
  "finish_approval f request_id t = and_then_task t (\<lambda>outcome. Done (f request_id outcome))"

definition execute_approved_task ::
  "externals \<Rightarrow> store_json \<Rightarrow> zyguor_gateway \<Rightarrow> uuid \<Rightarrow> pending_review
   \<Rightarrow> (admin_outcome, gateway_error) thread" where
  "execute_approved_task X J g request_id claimed =
     (case pr_request claimed of
        WriteFile arguments \<Rightarrow>
          finish_approval write_approval_outcome request_id
            (execute_claimed_task X J g claimed
              (and_then (on_world (with_err FileFailed
                 (write_text_file X (zg_filesystem g) (wf_path arguments) (wf_content arguments))))
                 (\<lambda>_. ret (OperationSuccess None))))
      | RunCargoTest \<Rightarrow>
          and_then_task (Done (ok_or MissingReviewFingerprint (pr_workspace_fingerprint claimed)))
            (\<lambda>expected_fingerprint.
          finish_approval cargo_approval_outcome request_id
            (execute_claimed_task X J g claimed
              (execute_cargo_test_with_config X (zg_filesystem g) (zg_config g) expected_fingerprint)))
      | HttpRequest arguments \<Rightarrow>
          (if http_method arguments = Post
           then finish_approval http_approval_outcome request_id
                  (execute_claimed_task X J g claimed
                    (execute_http_post_with_config X (zg_config g) arguments))
           else Done (Err NotApprovable))
      | _ \<Rightarrow> Done (Err NotApprovable))"

definition claim_section :: "externals \<Rightarrow> store_json \<Rightarrow> uuid \<Rightarrow> (pending_review, gateway_error) handler" where
  "claim_section X J request_id =
     locked (StoreFailed StoreLockPoisoned) (with_err StoreFailed (on_store (store_claim X J request_id)))"

definition approve_task ::
  "externals \<Rightarrow> store_json \<Rightarrow> zyguor_gateway \<Rightarrow> uuid \<Rightarrow> (admin_outcome, gateway_error) thread" where
  "approve_task X J g request_id =
     and_then_task (atomically (inspect_pending_request request_id)) (\<lambda>pending.
     and_then_task (atomically (on_world
       (revalidate_pending_request_with_config X pending (zg_filesystem g) (zg_config g)))) (\<lambda>_.
     and_then_task (atomically (claim_section X J request_id)) (\<lambda>claimed.
     and_then_task (audit_claimed_approval_task X J g claimed) (\<lambda>_.
     execute_approved_task X J g request_id claimed))))"

definition reject_task ::
  "externals \<Rightarrow> store_json \<Rightarrow> zyguor_gateway \<Rightarrow> uuid \<Rightarrow> (admin_outcome, gateway_error) thread" where
  "reject_task X J g request_id =
     and_then_task (atomically (reject_pending_request X J request_id)) (\<lambda>pending.
     and_then_task (audit_claimed_rejection_task X J g pending) (\<lambda>_.
     Done (Ok (Rejected pending))))"

definition get_claimed_section :: "uuid \<Rightarrow> (pending_review, gateway_error) handler" where
  "get_claimed_section request_id =
     locked (StoreFailed StoreLockPoisoned)
       (\<lambda>gs. (ok_or ClaimedReviewNotFound (store_get_claimed request_id (gs_store gs)), gs))"

definition acknowledge_task ::
  "externals \<Rightarrow> store_json \<Rightarrow> zyguor_gateway \<Rightarrow> uuid \<Rightarrow> (admin_outcome, gateway_error) thread" where
  "acknowledge_task X J g request_id =
     and_then_task (atomically (get_claimed_section request_id)) (\<lambda>claimed.
     and_then_task (write_review_audit_task g Reconciliation Unknown claimed) (\<lambda>_.
     bind_task (atomically (consume_claimed_request X J request_id)) (\<lambda>r.
     case r of
       Ok acknowledged \<Rightarrow> Done (Ok (ClaimedAcknowledged acknowledged))
     | Err (NotCommitted error) \<Rightarrow> Done (Err (ReconciliationNotConsumed error))
     | Err (DurabilityUncertain error) \<Rightarrow> Done (Ok (AcknowledgementUncertain request_id error)))))"

definition command_task ::
  "externals \<Rightarrow> store_json \<Rightarrow> zyguor_gateway \<Rightarrow> admin_command \<Rightarrow> (admin_outcome, gateway_error) thread" where
  "command_task X J g command =
     (case command of
        Approve request_id \<Rightarrow> approve_task X J g request_id
      | Reject request_id \<Rightarrow> reject_task X J g request_id
      | AcknowledgeClaimed request_id \<Rightarrow> acknowledge_task X J g request_id)"

text \<open>A connection: what it answers before any command runs, or the command it runs.\<close>

definition connection_task ::
  "externals \<Rightarrow> store_json \<Rightarrow> error_texts \<Rightarrow> zyguor_gateway \<Rightarrow> admin_stream
   \<Rightarrow> (gateway_state, (admin_outcome, connection_error) result \<times> string option) task" where
  "connection_task X J T g stream =
     (case verify_admin_peer X stream of
        Err e \<Rightarrow> Done (Err e, None)
      | Ok _ \<Rightarrow>
          (case read_line stream (MAX_ADMIN_COMMAND_LENGTH + 1) of
             Err e \<Rightarrow> Done (Err (ReadCommand e), None)
           | Ok input \<Rightarrow>
               if length input = 0 then Done (Err ClosedWithoutCommand, None)
               else if length input > MAX_ADMIN_COMMAND_LENGTH
               then Done (respond stream (error_response T) (format_admin_outcome_response X T)
                            (Err CommandTooLong))
               else
                 (case parse_admin_command X input of
                    Err e \<Rightarrow>
                      Done (respond stream (error_response T) (format_admin_outcome_response X T)
                              (Err (BadCommand e)))
                  | Ok command \<Rightarrow>
                      bind_task (command_task X J g command) (\<lambda>r.
                        Done (respond stream (error_response T) (format_admin_outcome_response X T)
                                (map_err CommandFailed r))))))"

section \<open>Alone, a task is its handler\<close>

lemma run_task_split:
  "run_task (case r of Ok x \<Rightarrow> a x | Err e \<Rightarrow> b e) s =
     (case r of Ok x \<Rightarrow> run_task (a x) s | Err e \<Rightarrow> run_task (b e) s)"
  by (simp split: result.splits)

lemma from_result_eq: "from_result r = Pair r"
  by (rule ext) simp

lemma run_record_and_persist:
  "run_task (record_and_persist g u message d r stage outcome) =
     and_then (audit_record_for u message d r stage outcome) (\<lambda>record.
       with_err (AuditPersistFailed stage) (persist_audit_locked (zg_audit g) record))"
  by (simp add: record_and_persist_def)

lemma run_allowed_execution:
  "run_task (allowed_execution_task g u message ev runner) =
     allowed_execution u message ev (persist_audit_locked (zg_audit g)) runner"
  by (simp add: allowed_execution_task_def allowed_execution_def run_record_and_persist and_then_assoc
      run_task_split cong: result.case_cong)

lemma run_execute_message:
  "run_task (execute_message_task X g u message ev runner) =
     execute_message_with_audit_id X u message ev (persist_audit_locked (zg_audit g)) runner"
proof -
  have arm: "run_task (case decision ev of
        Allow \<Rightarrow> allowed_execution_task g u message ev runner
      | Review \<Rightarrow> Done (Ok (''held_for_review'', False, None, NotExecuted))
      | Block \<Rightarrow> Done (Ok (''blocked'', False, None, NotExecuted))) =
    (case decision ev of
        Allow \<Rightarrow> allowed_execution u message ev (persist_audit_locked (zg_audit g)) runner
      | Review \<Rightarrow> ret (''held_for_review'', False, None, NotExecuted)
      | Block \<Rightarrow> ret (''blocked'', False, None, NotExecuted))"
    by (intro ext) (simp add: run_allowed_execution split: policy_decision.splits)
  show ?thesis
    unfolding execute_message_task_def execute_message_with_audit_id_def answer_task_def run_and_then arm
    by (simp add: from_result_eq Let_def case_prod_unfold)
qed

lemma run_hold_for_review:
  "run_task (hold_for_review_task X J fc u request purpose) = hold_for_review X J fc u request purpose"
  by (simp add: hold_for_review_task_def hold_for_review_def)

lemma run_execute_task: "run_task (execute_task X J g params) = execute_request_with_config X J g params"
proof (rule ext)
  fix gs
  have hold: "run_task (if b then hold_for_review_task X J fc u request purpose else Done (Ok ())) =
      (if b then hold_for_review X J fc u request purpose else ret ())" for b fc u request purpose
    by (intro ext) (simp add: run_hold_for_review)
  show "run_task (execute_task X J g params) gs = execute_request_with_config X J g params gs"
  proof (cases "build_execution_request params")
    case (Err e)
    then show ?thesis
      by (simp add: execute_task_def execute_request_with_config_def execute_request_with_http_runner_def
          and_then_def)
  next
    case (Ok request)
    obtain ev w1 where ev: "evaluate_request_with_config X request (zg_filesystem g) (zg_config g) (gs_world gs)
      = (ev, w1)" by fastforce
    obtain u w2 where u: "new_uuid w1 = (u, w2)" by fastforce
    show ?thesis
      unfolding execute_task_def execute_request_with_config_def execute_request_with_http_runner_def
        run_and_then hold run_execute_message
      by (simp add: Ok ev u evaluate_section_def draw_section_def on_world_def cong: if_cong)
  qed
qed

lemma run_review_audit:
  "run_task (write_review_audit_task g stage out p) =
     write_review_audit stage out p (persist_audit_locked (zg_audit g))"
  by (simp add: write_review_audit_task_def write_review_audit_def from_result_eq run_record_and_persist)

lemma run_claimed_approval:
  "run_task (audit_claimed_approval_task X J g p) =
     audit_claimed_approval X J p (persist_audit_locked (zg_audit g))"
  by (intro ext) (simp add: audit_claimed_approval_task_def audit_claimed_approval_def write_approval_audit_def
      run_review_audit split: prod.splits result.splits)

lemma run_claimed_rejection:
  "run_task (audit_claimed_rejection_task X J g p) =
     audit_claimed_rejection X J p (persist_audit_locked (zg_audit g))"
  by (intro ext) (simp add: audit_claimed_rejection_task_def audit_claimed_rejection_def write_rejection_audit_def
      run_review_audit and_then_def split: prod.splits result.splits)

lemma run_complete_reviewed:
  "run_task (complete_reviewed_task g p r q) =
     complete_reviewed_action p r (persist_audit_locked (zg_audit g)) q"
  by (intro ext) (simp add: complete_reviewed_task_def complete_reviewed_action_def split: prod.splits result.splits)

lemma run_execute_reviewed:
  "run_task (execute_reviewed_task g p operation) =
     execute_reviewed_action p (persist_audit_locked (zg_audit g)) operation"
  by (simp add: execute_reviewed_task_def execute_reviewed_action_def from_result_eq
      run_record_and_persist and_then_assoc run_complete_reviewed)

lemma run_execute_claimed:
  "run_task (execute_claimed_task X J g p operation) =
     execute_claimed_reviewed_action X J p (persist_audit_locked (zg_audit g)) operation"
  by (intro ext) (simp add: execute_claimed_task_def execute_claimed_reviewed_action_def run_execute_reviewed)

lemma run_finish: "run_task (finish_approval f u t) = and_then (run_task t) (\<lambda>out. from_result (f u out))"
  by (simp add: finish_approval_def from_result_eq)

lemma run_execute_approved:
  "run_task (execute_approved_task X J g u p) =
     execute_approved X J g (execute_http_post_with_config X (zg_config g)) u p"
proof (cases "pr_request p")
  case (WriteFile a)
  then show ?thesis
    by (intro ext) (simp add: execute_approved_task_def execute_approved_def approve_write_def
        execute_claimed_write_def execute_approved_write_def execute_claimed_reviewed_action_def
        run_finish run_execute_claimed and_then_def split: prod.splits)
next
  case RunCargoTest
  then show ?thesis
    by (simp add: execute_approved_task_def execute_approved_def approve_cargo_def
        run_finish run_execute_claimed from_result_eq)
next
  case (HttpRequest a)
  then show ?thesis
    by (intro ext) (simp add: execute_approved_task_def execute_approved_def approve_http_def
        run_finish run_execute_claimed)
qed (intro ext, simp add: execute_approved_task_def execute_approved_def)+

lemma run_command_task: "run_task (command_task X J g command) = handle_admin_command_with_config X J g command"
proof (cases command)
  case (Approve u)
  then show ?thesis
    by (simp add: command_task_def approve_task_def approve_command_def claim_section_def
        run_claimed_approval run_execute_approved)
next
  case (Reject u)
  then show ?thesis
    by (intro ext) (simp add: command_task_def reject_task_def reject_command_def run_claimed_rejection from_result_eq
        and_then_def split: prod.splits result.splits)
next
  case (AcknowledgeClaimed u)
  then show ?thesis
    by (intro ext) (simp add: command_task_def acknowledge_task_def acknowledge_command_def get_claimed_section_def
        write_reconciliation_audit_def run_review_audit and_then_def
        split: prod.splits result.splits consume_claimed_failure.splits)
qed

lemma run_connection_task: "run_task (connection_task X J T g stream) = handle_admin_connection X J T g stream"
  by (intro ext) (simp add: connection_task_def handle_admin_connection_def run_command_task
      split: result.splits prod.splits)

end
