(* ===== verification/Interleaving.thy ===== *)
theory Interleaving
  imports Handlers
begin

text \<open>
  The contracts between the threads of the gateway.  A call of the tool is a \<open>bystander\<close> of the
  operator: it never performs what needs an approval, never touches a claimed request and never
  removes a pending one.  The operator's thread only \<open>extends\<close> what is there.  What a thread has
  contributed to the trace is its log, which the trace contains in this order; the locale
  \<open>contributor\<close> is a thread that keeps such a log and writes audit records.
\<close>

section \<open>What the threads may do to each other\<close>

abbreviation trace :: "gateway_state \<Rightarrow> event list" where
  "trace gs \<equiv> w_trace (gs_world gs)"

text \<open>
  Every request is stored under its own identifier and carries exactly what its kind needs; unlike
  \<open>store_ok\<close> this does not exclude an identifier that is both pending and claimed.
\<close>

definition well_typed :: "pending_review_store \<Rightarrow> bool" where
  "well_typed st \<longleftrightarrow> keyed (reviews st) \<and> keyed (claimed_reviews st)"

definition extends :: "gateway_state \<Rightarrow> gateway_state \<Rightarrow> bool" where
  "extends gs gs' \<longleftrightarrow>
     prefix (trace gs) (trace gs') \<and> (answered (trace gs) \<longrightarrow> answered (trace gs')) \<and>
     (well_typed (gs_store gs) \<longrightarrow> well_typed (gs_store gs'))"

definition bystander :: "gateway_state \<Rightarrow> gateway_state \<Rightarrow> bool" where
  "bystander gs gs' \<longleftrightarrow>
     extends gs gs' \<and> filter needs_approval (new_events gs gs') = [] \<and>
     claimed_reviews (gs_store gs') = claimed_reviews (gs_store gs) \<and>
     (\<forall>k p. map_of (reviews (gs_store gs)) k = Some p \<longrightarrow> map_of (reviews (gs_store gs')) k = Some p)"

lemma emits_trace: "emits es gs gs' \<Longrightarrow> trace gs' = trace gs @ es"
  by (simp add: emits_def adds_def)

lemma extends_refl [simp]: "extends gs gs"
  by (simp add: extends_def)

lemma extends_trans: "extends a b \<Longrightarrow> extends b c \<Longrightarrow> extends a c"
  unfolding extends_def by (blast intro: prefix_order.trans)

lemma new_events_eq: "trace gs' = trace gs @ es \<Longrightarrow> new_events gs gs' = es"
  by (simp add: new_events_def)

lemma extendsD:
  assumes "extends gs gs'"
  obtains es where "trace gs' = trace gs @ es" and "new_events gs gs' = es"
  using assms new_events_eq unfolding extends_def by (blast elim: prefixE)

lemma bystander_refl [simp]: "bystander gs gs"
  by (simp add: bystander_def new_events_def)

lemma bystander_extends: "bystander gs gs' \<Longrightarrow> extends gs gs'"
  by (simp add: bystander_def)

lemma bystander_trans:
  assumes "bystander a b" and "bystander b c"
  shows "bystander a c"
proof -
  obtain es where es: "trace b = trace a @ es" "new_events a b = es"
    using assms(1) by (auto simp: bystander_def elim: extendsD)
  obtain fs where fs: "trace c = trace b @ fs" "new_events b c = fs"
    using assms(2) by (auto simp: bystander_def elim: extendsD)
  have "new_events a c = es @ fs"
    using es(1) fs(1) by (simp add: new_events_eq)
  then show ?thesis
    using assms es(2) fs(2) by (auto simp: bystander_def intro: extends_trans)
qed

text \<open>The two relations as interferences.\<close>

interpretation tool_others: interference extends
  by unfold_locales (simp, rule extends_trans)

interpretation operator_others: interference bystander
  by unfold_locales (simp, rule bystander_trans)

text \<open>Anything outside the gateway that leaves its trace and its store alone is a bystander.\<close>

lemma outside_bystander:
  "w_trace w' = trace gs \<Longrightarrow>
   bystander gs (gs\<lparr>gs_store_poisoned := a, gs_audit_poisoned := b, gs_world := w'\<rparr>)"
  by (simp add: bystander_def extends_def new_events_def)

section \<open>Sections\<close>

text \<open>A section that emits nothing that has an effect, and leaves the store as it is.\<close>

lemma answered_more: "answered t \<Longrightarrow> \<forall>e\<in>set es. \<not> effect e \<Longrightarrow> answered (t @ es)"
  using answered_append answered_harmless by blast

lemma extends_quiet:
  assumes "emits es gs gs'" and "\<forall>e\<in>set es. \<not> effect e"
    and "well_typed (gs_store gs) \<longrightarrow> well_typed (gs_store gs')"
  shows "extends gs gs'"
  using assms answered_more by (auto simp: extends_def emits_trace)

lemma bystander_quiet:
  assumes "emits es gs gs'" and "\<forall>e\<in>set es. \<not> effect e" and "same_shell gs gs'"
  shows "bystander gs gs'"
proof -
  have "\<forall>e\<in>set es. \<not> needs_approval e" using assms(2) by (blast dest: needs_approval_effect)
  then have "filter needs_approval es = []" by (simp add: filter_empty_conv)
  then show ?thesis
    using assms by (auto simp: bystander_def same_shell_def emits_new_events intro: extends_quiet)
qed

lemma quiet_section_bystander:
  "keeps quiet m \<Longrightarrow> on_world m gs = (r, gs') \<Longrightarrow> bystander gs gs'"
  by (rule bystander_quiet [OF on_world_quiet]) (auto intro: on_world_shell)

text \<open>The store operations keep every request under its identifier.\<close>

lemma well_typed_insert:
  "store_insert X J p (st, w) = (r, (st', w')) \<Longrightarrow> canonical p \<Longrightarrow> well_typed st \<Longrightarrow> well_typed st'"
  unfolding store_insert_def well_typed_def
  by (auto simp: Let_def intro!: keyed_insert keyed_remove split: if_splits prod.splits result.splits)

lemma well_typed_claim:
  assumes "store_claim X J k (st, w) = (r, (st', w'))" and "well_typed st"
  shows "well_typed st'"
proof (cases "map_of (reviews st) k")
  case (Some p)
  then have "pr_request_id p = k" "canonical p" using assms(2) keyed_entry by (auto simp: well_typed_def)
  then show ?thesis
    using assms Some unfolding store_claim_def well_typed_def
    by (auto simp: Let_def intro!: keyed_insert keyed_remove split: if_splits prod.splits result.splits)
qed (use assms in \<open>auto simp: store_claim_def split: if_splits\<close>)

lemma well_typed_restore:
  assumes "store_restore_claimed X J p (st, w) = (r, (st', w'))" and "well_typed st"
  shows "well_typed st'"
proof (cases "map_of (claimed_reviews st) (pr_request_id p)")
  case (Some q)
  then have "pr_request_id q = pr_request_id p" "canonical q" using assms(2) keyed_entry by (auto simp: well_typed_def)
  then show ?thesis
    using assms Some unfolding store_restore_claimed_def well_typed_def
    by (auto simp: Let_def intro!: keyed_insert keyed_remove split: if_splits prod.splits result.splits)
qed (use assms in \<open>auto simp: store_restore_claimed_def Let_def split: if_splits\<close>)

lemma well_typed_consume:
  assumes "store_consume_claimed X J k (st, w) = (r, (st', w'))" and "well_typed st"
  shows "well_typed st'"
proof (cases "map_of (claimed_reviews st) k")
  case (Some p)
  then have "pr_request_id p = k" "canonical p" using assms(2) keyed_entry by (auto simp: well_typed_def)
  then show ?thesis
    using assms Some unfolding store_consume_claimed_def well_typed_def
    by (auto simp: Let_def intro!: keyed_insert keyed_remove split: prod.splits result.splits persistence_failure.splits)
qed (use assms in \<open>auto simp: store_consume_claimed_def\<close>)

lemma insert_leaves:
  assumes "store_insert X J p (st, w) = (r, (st', w'))"
  shows "claimed_reviews st' = claimed_reviews st"
    and "map_of (reviews st) k = Some q \<Longrightarrow> map_of (reviews st') k = Some q"
  using assms unfolding store_insert_def
  by (auto simp: Let_def split: if_splits prod.splits result.splits)

text \<open>The sections that use the store.\<close>

lemma on_store_extends:
  assumes "\<And>st w r st' w'. m (st, w) = (r, (st', w')) \<Longrightarrow> quiet w w' \<and> (well_typed st \<longrightarrow> well_typed st')"
  shows "keeps extends (on_store m)"
proof (rule keepsI)
  fix gs r gs' assume "on_store m gs = (r, gs')"
  then obtain st' w' where "m (gs_store gs, gs_world gs) = (r, (st', w'))"
    and gs': "gs' = gs\<lparr>gs_store := st', gs_world := w'\<rparr>"
    by (rule on_store_runs)
  from assms [OF this(1)] show "extends gs gs'"
    by (auto simp: gs' extends_def quiet_def)
qed

lemma reflp_extends: "reflp extends" and transp_extends: "transp extends"
  by (auto simp: reflp_def transp_def intro: extends_trans)

lemmas extends_shapes [keeps_intros] =
  keeps_shapes [where R = extends] keeps_const [OF reflp_extends] keeps_match [OF transp_extends]
  keeps_bind_run [OF transp_extends] keeps_pure [OF reflp_extends] keeps_and_then [OF transp_extends]
  keeps_with_err [where R = extends]

lemma extends_locked [keeps_intros]: "keeps extends m \<Longrightarrow> keeps extends (locked e m)"
  unfolding keeps_def locked_def by simp

lemma extends_store_moves [keeps_intros]:
  "keeps extends (on_store (store_claim X J k))"
  "keeps extends (on_store (store_restore_claimed X J p))"
  "keeps extends (on_store (store_consume_claimed X J k))"
  by (auto intro!: on_store_extends dest: quiet_store_ops well_typed_claim well_typed_restore well_typed_consume)

lemma extends_claims [keeps_intros]:
  "keeps extends (claim_section X J k)"
  "keeps extends (reject_pending_request X J k)"
  "keeps extends (restore_claimed_request X J p)"
  "keeps extends (consume_claimed_request X J k)"
  "keeps extends (restore_and_fail X J p e)"
  "keeps extends (settle_claimed X J p q)"
  unfolding claim_section_def reject_pending_request_def restore_claimed_request_def
    consume_claimed_request_def restore_and_fail_def settle_claimed_def
  by (intro keeps_intros)+

lemma insert_section_bystander:
  assumes "canonical p"
  shows "keeps bystander (locked e (with_err f (on_store (store_insert X J p))))"
proof (rule keepsI)
  fix gs r gs' assume run: "locked e (with_err f (on_store (store_insert X J p))) gs = (r, gs')"
  show "bystander gs gs'"
  proof (cases "gs_store_poisoned gs")
    case True
    then show ?thesis using run by (simp add: locked_def)
  next
    case False
    then obtain q st' w' where ins: "store_insert X J p (gs_store gs, gs_world gs) = (q, (st', w'))"
      and gs': "gs' = gs\<lparr>gs_store := st', gs_world := w'\<rparr>"
      using run by (auto simp: locked_def elim!: with_err_cases on_store_runs)
    have "trace gs' = trace gs"
      using quiet_store_ops ins gs' by (fastforce simp: quiet_def)
    then show ?thesis
      using insert_leaves [OF ins] well_typed_insert [OF ins assms]
      by (simp add: bystander_def extends_def new_events_def gs')
  qed
qed

text \<open>What a claim that succeeded took.\<close>

lemma claim_section_took:
  assumes "claim_section X J u gs = (Ok p, gs')"
  shows "map_of (reviews (gs_store gs)) u = Some p"
  using assms unfolding claim_section_def
  by (auto simp: locked_def with_err_eq_Ok store_claim_def Let_def elim!: on_store_runs
      split: if_splits option.splits prod.splits result.splits)

lemma consume_request_gone:
  assumes "consume_claimed_request X J u gs = (Ok p, gs')"
  shows "map_of (claimed_reviews (gs_store gs')) u = None"
  using assms unfolding consume_claimed_request_def
  by (auto simp: locked_def store_consume_claimed_def Let_def elim!: on_store_runs
      split: if_splits option.splits prod.splits result.splits persistence_failure.splits)

section \<open>The log of a thread\<close>

text \<open>
  What a thread has added to the trace since \<open>gs0\<close>: the trace has these events in this order since
  then, a record the thread saw synced is synced there, and the whole trace is answered for.
\<close>

definition logged :: "gateway_state \<Rightarrow> event list \<Rightarrow> gateway_state \<Rightarrow> bool" where
  "logged gs0 own gs \<longleftrightarrow>
     prefix (trace gs0) (trace gs) \<and> subseq own (new_events gs0 gs) \<and> answered (trace gs) \<and>
     (\<forall>P. synced_before P own (length own) \<longrightarrow>
        synced_before P (new_events gs0 gs) (length (new_events gs0 gs)))"

lemma not_synced_Nil [simp]: "\<not> synced_before P [] k"
  by (simp add: synced_before_def)

lemma logged_start: "answered (trace gs) \<Longrightarrow> logged gs [] gs"
  by (simp add: logged_def)

lemma new_events_append:
  "prefix (trace gs0) (trace gs) \<Longrightarrow> trace gs' = trace gs @ es \<Longrightarrow> new_events gs0 gs' = new_events gs0 gs @ es"
  by (auto simp: new_events_def prefix_def)

lemma logged_synced:
  assumes "logged gs0 own gs" and "synced_before P own (length own)"
  shows "synced_before P (trace gs) (length (trace gs))"
proof -
  have "trace gs = trace gs0 @ new_events gs0 gs"
    using assms(1) by (auto simp: logged_def new_events_def prefix_def)
  then show ?thesis
    using assms synced_before_shift [of P "new_events gs0 gs" "length (new_events gs0 gs)" "trace gs0"]
    by (simp add: logged_def)
qed

lemma synced_end_append:
  assumes "synced_before P t (length t)"
  shows "synced_before P (t @ es) (length (t @ es))"
  by (rule synced_before_mono [OF synced_before_append [OF assms]]) (simp add: trans_le_add1)

lemma synced_last:
  "P r \<Longrightarrow> synced_before P (own @ [EvAudit r, EvAuditSynced]) (length (own @ [EvAudit r, EvAuditSynced]))"
  using synced_pair [of P r own "[]"] by simp

lemma logged_later:
  assumes "logged gs0 own gs" and "extends gs gs'"
  shows "logged gs0 own gs'"
proof -
  obtain es where es: "trace gs' = trace gs @ es" using assms(2) by (rule extendsD)
  have "new_events gs0 gs' = new_events gs0 gs @ es"
    using assms(1) es by (simp add: logged_def new_events_append)
  moreover from this have "synced_before P (new_events gs0 gs) (length (new_events gs0 gs)) \<Longrightarrow>
      synced_before P (new_events gs0 gs') (length (new_events gs0 gs'))" for P
    by (simp only: synced_end_append)
  ultimately show ?thesis
    using assms es unfolding logged_def extends_def by (auto intro: prefix_order.trans subseq_rev_drop_many)
qed

lemma synced_later:
  assumes "synced_before P (own @ es) (length (own @ es))" and "es = [] \<or> hd es \<noteq> EvAuditSynced"
    and "synced_before P own (length own) \<Longrightarrow> synced_before P tr (length tr)"
  shows "synced_before P (tr @ es) (length (tr @ es))"
proof -
  obtain j r where j: "Suc j < length (own @ es)" "(own @ es) ! j = EvAudit r" "P r"
      "(own @ es) ! Suc j = EvAuditSynced"
    using assms(1) unfolding synced_before_def by blast
  consider "Suc j < length own" | "Suc j = length own" | "length own \<le> j" by linarith
  then show ?thesis
  proof cases
    case 1
    then have "synced_before P own (length own)"
      using j unfolding synced_before_def by (intro exI [where x = j] exI [where x = r]) (simp add: nth_append)
    then show ?thesis using assms(3) by (intro synced_end_append)
  next
    case 2
    then show ?thesis using j(1,4) assms(2) by (cases es) (simp_all add: nth_append)
  next
    case 3
    then have "synced_before P es (length es)"
      using j unfolding synced_before_def
      by (intro exI [where x = "j - length own"] exI [where x = r]) (auto simp: nth_append Suc_diff_le)
    then show ?thesis using synced_before_shift [of P es "length es" tr] by simp
  qed
qed

lemma logged_emit:
  assumes "logged gs0 own gs" and "trace gs' = trace gs @ es" and "answered (trace gs')"
    and "es = [] \<or> hd es \<noteq> EvAuditSynced"
  shows "logged gs0 (own @ es) gs'"
proof -
  have "new_events gs0 gs' = new_events gs0 gs @ es"
    using assms(1,2) by (simp add: logged_def new_events_append)
  moreover from this have "synced_before P (new_events gs0 gs') (length (new_events gs0 gs'))"
    if "synced_before P (own @ es) (length (own @ es))" for P
    using synced_later [OF that assms(4), of "new_events gs0 gs"] assms(1) by (simp add: logged_def)
  ultimately show ?thesis
    using assms unfolding logged_def by (auto intro: list_emb_append_mono prefix_prefix)
qed

text \<open>When an effect keeps the trace answered for.\<close>

lemma guarded_snoc:
  assumes "guarded P t" and "synced_before P t (length t)"
  shows "guarded P (t @ es)"
  using assms by (rule guarded_armed)

lemma answered_get:
  assumes "answered t" and "synced_before (\<lambda>r. ar_phase r = PreExecution) t (length t)"
    and "\<forall>e\<in>set es. \<not> needs_approval e"
  shows "answered (t @ es)"
proof -
  have "filter needs_approval es = []" using assms(3) by (simp add: filter_empty_conv)
  moreover have "approved_before (t @ es) k" if "k < length (t @ es)" "needs_approval ((t @ es) ! k)" for k
  proof -
    have "k < length t" using that assms(3) by (auto simp: nth_append split: if_splits)
    then show ?thesis
      using that(2) assms(1)
      by (auto simp: answered_def approved_before_def nth_append intro: synced_before_append)
  qed
  ultimately show ?thesis
    using assms(1,2) by (auto simp: answered_def intro: guarded_snoc)
qed

lemma answered_approved:
  assumes "answered t" and "synced_before (decision_record Approval u) t (length t)"
    and "synced_before (decision_record PreExecution u) t (length t)"
    and "length (filter needs_approval t) < length (filter is_approval t)"
  shows "answered (t @ [e])"
proof -
  have "approved_before (t @ [e]) k" if "k < length (t @ [e])" "needs_approval ((t @ [e]) ! k)" for k
  proof (cases "k < length t")
    case True
    then show ?thesis
      using that(2) assms(1)
      by (auto simp: answered_def approved_before_def nth_append intro: synced_before_append)
  next
    case False
    then have "k = length t" using that(1) by simp
    then show ?thesis using assms(2,3) by (auto simp: approved_before_def intro: synced_before_append)
  qed
  moreover have "guarded (\<lambda>r. ar_phase r = PreExecution) (t @ [e])"
    using assms(1,3)
    by (intro guarded_snoc) (auto simp: answered_def decision_record_def elim: synced_before_weaken)
  ultimately show ?thesis using assms(4) by (auto simp: answered_def)
qed

section \<open>Threads that write audit records\<close>

text \<open>
  What a thread does with the audit log is the same on both sides: it creates a record, which
  nobody sees, and persists it under the mutex.  The interface has the thread's rely and guarantee
  and the assertion that holds of its log.
\<close>

locale contributor = audit_writer writer
  for writer :: "audit_record \<Rightarrow> (unit, audit_failure) handler" +
  fixes rely guar :: "gateway_state \<Rightarrow> gateway_state \<Rightarrow> bool"
    and logs :: "event list \<Rightarrow> gateway_state \<Rightarrow> bool"
  assumes logs_later: "logs own gs \<Longrightarrow> rely gs gs' \<Longrightarrow> logs own gs'"
    and logs_quiet: "logs own gs \<Longrightarrow> emits es gs gs' \<Longrightarrow> \<forall>e\<in>set es. \<not> effect e \<Longrightarrow>
      es = [] \<or> hd es \<noteq> EvAuditSynced \<Longrightarrow> same_shell gs gs' \<Longrightarrow> logs (own @ es) gs' \<and> guar gs gs'"
begin

text \<open>A section that emits nothing and leaves the store alone.\<close>

lemma obeys_silent:
  assumes "logs own gs" and "\<And>gs r gs'. m gs = (r, gs') \<Longrightarrow> emits [] gs gs' \<and> same_shell gs gs'"
    and "\<And>gs1 r gs2. m gs1 = (r, gs2) \<Longrightarrow> logs own gs2 \<Longrightarrow> Q r gs2"
  shows "obeys rely guar Q (atomically m) gs"
  unfolding obeys_atomically
proof (intro allI impI)
  fix gs1 r gs2 assume "rely gs gs1" and run: "m gs1 = (r, gs2)"
  then have "logs own gs1" using assms(1) logs_later by blast
  then show "guar gs1 gs2 \<and> Q r gs2"
    using logs_quiet [of own gs1 "[]" gs2] assms(2,3) [OF run] by simp
qed

lemma obeys_writer:
  assumes "logs own gs"
    and "\<And>gs'. logs (own @ [EvAudit rec, EvAuditSynced]) gs' \<Longrightarrow> Q (Ok ()) gs'"
    and "\<And>e es gs'. \<forall>e\<in>set es. \<not> effect e \<Longrightarrow> logs (own @ es) gs' \<Longrightarrow> Q (Err e) gs'"
  shows "obeys rely guar Q (atomically (writer rec)) gs"
  unfolding obeys_atomically
proof (intro allI impI)
  fix gs1 r gs2 assume "rely gs gs1" and run: "writer rec gs1 = (r, gs2)"
  then have l: "logs own gs1" using assms(1) logs_later by blast
  note shell = writes_shell [OF run]
  obtain es where es: "es \<in> {[], [EvAudit rec], [EvAudit rec, EvAuditSynced]}" "emits es gs1 gs2"
    using writes_part [OF run] by blast
  have none: "\<forall>e\<in>set es. \<not> effect e" and first: "es = [] \<or> hd es \<noteq> EvAuditSynced"
    using es(1) by auto
  note quiet = logs_quiet [OF l es(2) none first shell]
  show "guar gs1 gs2 \<and> Q r gs2"
  proof (cases r)
    case (Ok u)
    then have "emits [EvAudit rec, EvAuditSynced] gs1 gs2" using writes run by simp
    then have "logs (own @ [EvAudit rec, EvAuditSynced]) gs2"
      using logs_quiet [OF l _ _ _ shell] by simp
    then show ?thesis using quiet assms(2) Ok by simp
  next
    case (Err e)
    then show ?thesis using quiet assms(3) none by blast
  qed
qed

lemma obeys_record_and_persist:
  assumes "logs own gs" and "persist_audit_locked (zg_audit g) = writer"
    and "\<And>rec gs'. logs (own @ [EvAudit rec, EvAuditSynced]) gs' \<Longrightarrow>
      ar_request_id rec = u \<and> ar_phase rec = stage \<and> ar_decision rec = d \<and> ar_reason rec = why \<and>
      ar_message rec = message \<and> ar_execution_outcome rec = out \<Longrightarrow> Q (Ok ()) gs'"
    and "\<And>e es gs'. \<forall>e\<in>set es. \<not> effect e \<Longrightarrow> logs (own @ es) gs' \<Longrightarrow> Q (Err e) gs'"
  shows "obeys rely guar Q (record_and_persist g u message d why stage out) gs"
proof -
  have build: "emits [] a b \<and> same_shell a b"
    if "audit_record_for u message d why stage out a = (r, b)" for a r b
    using audit_record_for_runs(1,2) [OF that] by simp
  let ?rest = "\<lambda>rec. atomically (with_err (AuditPersistFailed stage) (writer rec))"
  show ?thesis
    unfolding record_and_persist_def assms(2) obeys_and_then
  proof (rule obeys_silent [OF assms(1) build])
    fix gs1 r gs2
    assume made: "audit_record_for u message d why stage out gs1 = (r, gs2)" and l: "logs own gs2"
    show "case r of Ok x \<Rightarrow> obeys rely guar Q (?rest x) gs2 | Err e \<Rightarrow> Q (Err e) gs2"
    proof (cases r)
      case (Ok rec)
      note fields = audit_record_for_runs(3) [OF made Ok]
      have "obeys rely guar (\<lambda>r. Q (map_err (AuditPersistFailed stage) r)) (atomically (writer rec)) gs2"
        by (rule obeys_writer [OF l]) (use assms(3,4) fields in auto)
      then show ?thesis
        unfolding Ok obeys_atomically result.case by (auto simp: with_err_run) (metis prod.collapse)+
    next
      case (Err e)
      then show ?thesis using assms(4) [of "[]"] l by simp
    qed
  qed
qed

end

text \<open>The agent's side.\<close>

interpretation agent: contributor "persist_audit_locked (anchored_persist X log)" extends bystander "logged gs0"
  for X log gs0
proof (intro contributor.intro contributor_axioms.intro)
  show "audit_writer (persist_audit_locked (anchored_persist X log))"
    by (rule anchored.handler.audit_writer_axioms)
  show "logged gs0 own gs \<Longrightarrow> extends gs gs' \<Longrightarrow> logged gs0 own gs'" for own gs gs'
    by (rule logged_later)
  show "logged gs0 (own @ es) gs' \<and> bystander gs gs'"
    if "logged gs0 own gs" "emits es gs gs'" "\<forall>e\<in>set es. \<not> effect e" "es = [] \<or> hd es \<noteq> EvAuditSynced"
      "same_shell gs gs'" for own es gs gs'
  proof
    have "answered (trace gs')" using that(1,2,3) answered_more by (simp add: emits_trace logged_def)
    then show "logged gs0 (own @ es) gs'"
      using that(1,2,4) emits_trace by (blast intro: logged_emit)
    show "bystander gs gs'" using that(2,3,5) by (rule bystander_quiet)
  qed
qed

text \<open>
  The operator's side.  Only this thread does what needs an approval, so all of that in the trace is
  in its log, and every approval record in its log leaves room for one such effect.  \<open>E\<close> says which
  effects the thread may have.
\<close>

definition ledger ::
  "gateway_state \<Rightarrow> (event list \<Rightarrow> bool) \<Rightarrow> event list \<Rightarrow> gateway_state \<Rightarrow> bool" where
  "ledger gs0 E own gs \<longleftrightarrow>
     logged gs0 own gs \<and> well_typed (gs_store gs) \<and>
     filter needs_approval (new_events gs0 gs) = filter needs_approval own \<and>
     length (filter needs_approval (trace gs)) + length (filter is_approval own)
       \<le> length (filter is_approval (trace gs)) + length (filter needs_approval own) \<and>
     E (filter needs_approval own)"

definition acts :: "gateway_state \<Rightarrow> (event list \<Rightarrow> bool) \<Rightarrow> gateway_state \<Rightarrow> gateway_state \<Rightarrow> bool" where
  "acts gs0 E gs gs' \<longleftrightarrow> extends gs gs' \<and> E (filter needs_approval (new_events gs0 gs'))"

lemma ledger_start: "answered (trace gs) \<Longrightarrow> well_typed (gs_store gs) \<Longrightarrow> E [] \<Longrightarrow> ledger gs E [] gs"
  by (simp add: ledger_def logged_start new_events_def answered_def)

lemma ledger_logged: "ledger gs0 E own gs \<Longrightarrow> logged gs0 own gs"
  by (simp add: ledger_def)

lemma ledger_emit:
  assumes "ledger gs0 E own gs" and "trace gs' = trace gs @ es" and "answered (trace gs')"
    and "es = [] \<or> hd es \<noteq> EvAuditSynced" and "well_typed (gs_store gs')"
    and "E (filter needs_approval (own @ es))"
  shows "ledger gs0 E (own @ es) gs'"
proof -
  have "new_events gs0 gs' = new_events gs0 gs @ es"
    using assms(1,2) by (simp add: ledger_def logged_def new_events_append)
  then show ?thesis
    using assms logged_emit [OF ledger_logged [OF assms(1)] assms(2-4)] by (simp add: ledger_def)
qed

lemma ledger_later:
  assumes "ledger gs0 E own gs" and "bystander gs gs'"
  shows "ledger gs0 E own gs'"
proof -
  obtain es where es: "trace gs' = trace gs @ es" "new_events gs gs' = es"
    using assms(2) bystander_extends extendsD by blast
  then have "filter needs_approval es = []" using assms(2) by (simp add: bystander_def)
  moreover have "new_events gs0 gs' = new_events gs0 gs @ es"
    using assms(1) es(1) by (simp add: ledger_def logged_def new_events_append)
  moreover have "logged gs0 own gs'"
    using logged_later [OF ledger_logged [OF assms(1)] bystander_extends [OF assms(2)]] .
  ultimately show ?thesis
    using assms es(1) by (auto simp: ledger_def bystander_def extends_def)
qed

lemma ledger_acts: "ledger gs0 E own gs' \<Longrightarrow> extends gs gs' \<Longrightarrow> acts gs0 E gs gs'"
  by (simp add: acts_def ledger_def)

text \<open>A use of the store.\<close>

lemma ledger_store:
  assumes "ledger gs0 E own gs" and "emits [] gs gs'" and "extends gs gs'"
  shows "ledger gs0 E own gs'" and "acts gs0 E gs gs'"
proof -
  have "trace gs' = trace gs @ []" using emits_trace [OF assms(2)] .
  moreover have "well_typed (gs_store gs')" "answered (trace gs')"
    using assms(1,3) by (auto simp: ledger_def logged_def extends_def)
  ultimately show "ledger gs0 E own gs'"
    using ledger_emit [OF assms(1), of gs' "[]"] assms(1) by (simp add: ledger_def)
  then show "acts gs0 E gs gs'" using assms(3) by (rule ledger_acts)
qed

interpretation operator: contributor "persist_audit_locked (anchored_persist X log)" bystander "acts gs0 E" "ledger gs0 E"
  for X log gs0 E
proof (intro contributor.intro contributor_axioms.intro)
  show "audit_writer (persist_audit_locked (anchored_persist X log))"
    by (rule anchored.handler.audit_writer_axioms)
  show "ledger gs0 E own gs \<Longrightarrow> bystander gs gs' \<Longrightarrow> ledger gs0 E own gs'" for own gs gs'
    by (rule ledger_later)
  show "ledger gs0 E (own @ es) gs' \<and> acts gs0 E gs gs'"
    if "ledger gs0 E own gs" "emits es gs gs'" "\<forall>e\<in>set es. \<not> effect e" "es = [] \<or> hd es \<noteq> EvAuditSynced"
      "same_shell gs gs'" for own es gs gs'
  proof
    have none: "filter needs_approval es = []"
      using that(3) needs_approval_effect by (auto simp: filter_empty_conv)
    have "extends gs gs'" using bystander_quiet [OF that(2,3,5)] by (rule bystander_extends)
    moreover from this have "answered (trace gs')" "well_typed (gs_store gs')"
      using that(1) by (auto simp: ledger_def logged_def extends_def)
    ultimately show "ledger gs0 E (own @ es) gs'"
      using that(1,4) emits_trace [OF that(2)] none by (intro ledger_emit) (auto simp: ledger_def)
    then show "acts gs0 E gs gs'" using \<open>extends gs gs'\<close> by (rule ledger_acts)
  qed
qed

text \<open>The effect of an approved request.\<close>

lemma ledger_effect:
  assumes "ledger gs0 E own gs" and "emits [e] gs gs'" and "same_shell gs gs'"
    and "synced_before (decision_record Approval u) own (length own)"
    and "synced_before (decision_record PreExecution u) own (length own)"
    and "filter needs_approval own = []" and "filter is_approval own \<noteq> []" and "effect e"
    and "E [e]"
  shows "ledger gs0 E (own @ [e]) gs'" and "acts gs0 E gs gs'"
proof -
  have trace: "trace gs' = trace gs @ [e]" using emits_trace [OF assms(2)] .
  have "length (filter needs_approval (trace gs)) < length (filter is_approval (trace gs))"
    using assms(1,6,7) unfolding ledger_def by (cases "filter is_approval own") auto
  then have answered: "answered (trace gs')"
    unfolding trace using assms(1) logged_synced [OF ledger_logged [OF assms(1)]] assms(4,5)
    by (intro answered_approved [where u = u]) (auto simp: ledger_def logged_def)
  have "well_typed (gs_store gs')" using assms(1,3) by (simp add: ledger_def same_shell_def)
  then show ledger: "ledger gs0 E (own @ [e]) gs'"
    using assms(1,6,8,9) trace answered
    by (intro ledger_emit) (auto simp: ledger_def)
  have "extends gs gs'"
    using trace answered \<open>well_typed (gs_store gs')\<close> by (simp add: extends_def)
  with ledger show "acts gs0 E gs gs'" by (rule ledger_acts)
qed

end
