(* ===== verification/Contracts.thy ===== *)
theory Contracts
  imports Interleaving
begin

text \<open>
  Every task of the tool and of the operator obeys its contract, section by section, whatever the
  other threads do in between: what each section adds to the trace, and what stands behind the
  answer or the reply at the end.
\<close>

section \<open>A call of the tool\<close>

lemma agent_get:
  assumes "logged gs0 own gs" and "emits es gs gs'" and "at_most_get es" and "same_shell gs gs'"
    and "synced_before (\<lambda>r. ar_phase r = PreExecution) own (length own)"
  shows "logged gs0 (own @ es) gs' \<and> bystander gs gs'"
proof -
  have none: "\<forall>e\<in>set es. \<not> needs_approval e" and first: "es = [] \<or> hd es \<noteq> EvAuditSynced"
    using assms(3) by (auto simp: at_most_get_def)
  have trace: "trace gs' = trace gs @ es" using emits_trace [OF assms(2)] .
  then have answered: "answered (trace gs')"
    using assms(1) none logged_synced [OF assms(1,5)] by (auto simp: logged_def intro!: answered_get)
  have "filter needs_approval es = []" using none by (simp add: filter_empty_conv)
  then have "bystander gs gs'"
    using assms(2,4) trace answered
    by (simp add: bystander_def extends_def emits_new_events same_shell_def)
  then show ?thesis using logged_emit [OF assms(1) trace answered first] by simp
qed

text \<open>What stands behind an answer, whoever else was running.\<close>

definition of_call :: "gateway_response \<Rightarrow> audit_record \<Rightarrow> bool" where
  "of_call a r \<longleftrightarrow> ar_phase r = PreExecution \<and> ar_request_id r = gw_request_id a \<and> ar_decision r = Allow"

definition backed_answer :: "externals \<Rightarrow> event list \<Rightarrow> string \<Rightarrow> bool" where
  "backed_answer X es text \<longleftrightarrow>
     (\<exists>a. x_response_json X a = Ok text \<and> consistent_answer a \<and>
       (gw_executed a \<longrightarrow> synced_before (of_call a) es (length es)) \<and>
       (synced_before (completion_of a) es (length es) \<and>
          gw_status a = plain_status (gw_decision a) (gw_execution_outcome a) \<or>
        gw_status a = status_after_audit_failure (gw_execution_outcome a)
                        (plain_status (gw_decision a) (gw_execution_outcome a))))"

definition answer_holds :: "externals \<Rightarrow> (string, 'e) result \<Rightarrow> gateway_state \<Rightarrow> bool" where
  "answer_holds X r gs \<longleftrightarrow> (\<forall>text. r = Ok text \<longrightarrow> backed_answer X (trace gs) text)"

lemma answer_holds_Err [simp]: "answer_holds X (Err e) gs"
  by (simp add: answer_holds_def)

lemma answer_holds_later:
  assumes "answer_holds X r gs" and "extends gs gs'"
  shows "answer_holds X r gs'"
proof -
  obtain es where "trace gs' = trace gs @ es" using assms(2) by (rule extendsD)
  then have "synced_before P (trace gs) (length (trace gs)) \<Longrightarrow> synced_before P (trace gs') (length (trace gs'))" for P
    using synced_end_append by metis
  then show ?thesis using assms(1) unfolding answer_holds_def backed_answer_def by blast
qed

abbreviation obeys_agent ::
  "('a \<Rightarrow> gateway_state \<Rightarrow> bool) \<Rightarrow> (gateway_state, 'a) task \<Rightarrow> gateway_state \<Rightarrow> bool" where
  "obeys_agent \<equiv> obeys extends bystander"

text \<open>The \<open>Allow\<close> arm: what it leaves for the completion record.\<close>

lemma allowed_task_obeys:
  assumes "logged gs0 [] gs" and "zg_audit g = anchored_persist X log" and "decision ev = Allow"
    and runner: "\<And>gs r gs'. runner gs = (r, gs') \<Longrightarrow> \<exists>es. at_most_get es \<and> emits es gs gs' \<and> same_shell gs gs'"
    and Q: "\<And>own gs' status executed res out. logged gs0 own gs' \<Longrightarrow>
      status = plain_status Allow out \<and> (executed \<longleftrightarrow> out = Success) \<and> (executed \<longleftrightarrow> res \<noteq> None) \<and>
      out \<in> {Success, Failed} \<Longrightarrow>
      synced_before (\<lambda>r. ar_phase r = PreExecution \<and> ar_request_id r = u \<and> ar_decision r = Allow) own (length own) \<Longrightarrow>
      Q (Ok (status, executed, res, out)) gs'"
    and err: "\<And>e gs'. Q (Err e) gs'"
  shows "obeys_agent Q (allowed_execution_task g u message ev runner) gs"
proof -
  let ?P = "\<lambda>r. ar_phase r = PreExecution \<and> ar_request_id r = u \<and> ar_decision r = Allow"
  let ?arm = "\<lambda>r. case r of
      Ok res \<Rightarrow> Ok (''executed'', True, Some res, Success)
    | Err _ \<Rightarrow> Ok (''execution_failed'', False, None, Failed)"
  let ?rest = "\<lambda>r. case r of
      Ok res \<Rightarrow> Done (Ok (''executed'', True, Some res, Success))
    | Err _ \<Rightarrow> Done (Ok (''execution_failed'', False, None, Failed))"
  have runs: "obeys_agent Q (bind_task (atomically runner) ?rest) gs1"
    if l: "logged gs0 own gs1" and own: "synced_before ?P own (length own)" for own gs1
    unfolding obeys_bind obeys_atomically
  proof (intro allI impI)
    fix gs2 r gs3 assume "extends gs1 gs2" and run: "runner gs2 = (r, gs3)"
    then have l2: "logged gs0 own gs2" using l by (blast intro: logged_later)
    obtain es where es: "at_most_get es" "emits es gs2 gs3" "same_shell gs2 gs3" using runner [OF run] by blast
    have pre: "synced_before (\<lambda>r. ar_phase r = PreExecution) own (length own)"
      using own by (rule synced_before_weaken) simp
    note step = agent_get [OF l2 es(2,1,3) pre]
    have "synced_before ?P (own @ es) (length (own @ es))" using own by (rule synced_end_append)
    then have "Q (?arm r) gs3"
      using step Q [of "own @ es" gs3 "''executed''" Success True "Some x" for x]
        Q [of "own @ es" gs3 "''execution_failed''" Failed False None]
      by (cases r) simp_all
    then show "bystander gs2 gs3 \<and> obeys_agent Q (?rest r) gs3" using step by (cases r) simp_all
  qed
  show ?thesis
    unfolding allowed_execution_task_def obeys_and_then
  proof (rule agent.obeys_record_and_persist [where X = X and log = log, OF assms(1)])
    show "persist_audit_locked (zg_audit g) = persist_audit_locked (anchored_persist X log)"
      using assms(2) by simp
    fix rec gs' assume l: "logged gs0 ([] @ [EvAudit rec, EvAuditSynced]) gs'"
      and rec: "ar_request_id rec = u \<and> ar_phase rec = PreExecution \<and> ar_decision rec = decision ev \<and>
        ar_reason rec = reason ev \<and> ar_message rec = message \<and> ar_execution_outcome rec = NotExecuted"
    from rec have "?P rec" using assms(3) by simp
    from runs [OF l synced_last [where own = "[]" and P = ?P, OF this]]
    show "case Ok () of Ok x \<Rightarrow> obeys_agent Q (bind_task (atomically runner) ?rest) gs' | Err e \<Rightarrow> Q (Err e) gs'"
      by simp
  qed (use err in simp)
qed

lemma message_task_obeys:
  assumes "logged gs0 [] gs" and "zg_audit g = anchored_persist X log"
    and runner: "\<And>gs r gs'. runner gs = (r, gs') \<Longrightarrow> \<exists>es. at_most_get es \<and> emits es gs gs' \<and> same_shell gs gs'"
  shows "obeys_agent (answer_holds X) (execute_message_task X g u message ev runner) gs"
proof -
  let ?P = "\<lambda>r. ar_phase r = PreExecution \<and> ar_request_id r = u \<and> ar_decision r = Allow"
  let ?answer = "\<lambda>status executed res out rec written.
      \<lparr>gw_request_id = ar_request_id rec,
       gw_status = (if is_err written then status_after_audit_failure out status else status),
       gw_decision = decision ev, gw_reason = reason ev,
       gw_executed = executed, gw_result = res, gw_execution_outcome = out\<rparr>"
  let ?rest = "answer_task X g u message ev"
  have build: "emits [] a b \<and> same_shell a b"
    if "audit_record_for u message d why stage out a = (r, b)" for a r b d why stage out
    using audit_record_for_runs(1,2) [OF that] by simp
  have rest: "obeys_agent (answer_holds X) (?rest (status, executed, res, out)) gs1"
    if l: "logged gs0 own gs1" and status: "status = plain_status (decision ev) out"
      and told: "executed \<longleftrightarrow> out = Success" "executed \<longleftrightarrow> res \<noteq> None"
      and range: "if decision ev = Allow then out \<in> {Success, Failed} else out = NotExecuted"
      and own: "executed \<Longrightarrow> synced_before ?P own (length own)"
    for own gs1 status executed res out
    unfolding answer_task_def prod.case obeys_and_then
  proof (rule agent.obeys_silent [OF l build])
    fix gs2 r gs3
    assume made: "audit_record_for u message (decision ev) (reason ev) Completion out gs2 = (r, gs3)"
      and l3: "logged gs0 own gs3"
    let ?Q = "\<lambda>rec written gs. answer_holds X
        (map_err ResponseNotSerialized (x_response_json X (?answer status executed res out rec written))) gs"
    have answer: "?Q rec written gs4"
      if rec: "ar_request_id rec = u" and l4: "logged gs0 own' gs4" and kept: "executed \<Longrightarrow> synced_before ?P own' (length own')"
        and fine: "\<not> is_err written \<Longrightarrow> synced_before (completion_of (?answer status executed res out rec written)) own' (length own')"
      for rec written own' gs4
    proof -
      let ?a = "?answer status executed res out rec written"
      have "of_call ?a = ?P" by (rule ext) (simp add: of_call_def rec conj_commute)
      moreover have "synced_before P (trace gs4) (length (trace gs4))" if "synced_before P own' (length own')" for P
        using l4 that by (rule logged_synced)
      moreover have "consistent_answer ?a"
        using told range by (simp add: consistent_answer_def split: if_splits)
      ultimately show ?thesis
        unfolding answer_holds_def backed_answer_def using kept fine status
        by (intro allI impI exI [where x = ?a]) auto
    qed
    show "case r of Ok rec \<Rightarrow> obeys_agent (answer_holds X)
          (bind_task (atomically (persist_audit_locked (zg_audit g) rec)) (\<lambda>written.
            let status1 = (if is_err written then status_after_audit_failure out status else status);
              response = \<lparr>gw_request_id = ar_request_id rec, gw_status = status1,
                gw_decision = decision ev, gw_reason = reason ev,
                gw_executed = executed, gw_result = res, gw_execution_outcome = out\<rparr>
            in Done (map_err ResponseNotSerialized (x_response_json X response)))) gs3
        | Err e \<Rightarrow> answer_holds X (Err e) gs3"
    proof (cases r)
      case (Ok rec)
      note fields = audit_record_for_runs(3) [OF made Ok]
      have "obeys_agent (?Q rec) (atomically (persist_audit_locked (anchored_persist X log) rec)) gs3"
      proof (rule agent.obeys_writer [where own = own, OF l3])
        fix gs' assume l4: "logged gs0 (own @ [EvAudit rec, EvAuditSynced]) gs'"
        show "?Q rec (Ok ()) gs'"
        proof (rule answer [OF _ l4])
          show "executed \<Longrightarrow> synced_before ?P (own @ [EvAudit rec, EvAuditSynced]) (length (own @ [EvAudit rec, EvAuditSynced]))"
            using own by (rule synced_end_append)
          show "synced_before (completion_of (?answer status executed res out rec (Ok ())))
              (own @ [EvAudit rec, EvAuditSynced]) (length (own @ [EvAudit rec, EvAuditSynced]))"
            by (rule synced_last) (simp add: completion_of_def fields)
        qed (use fields in simp)
      next
        fix e es gs' assume "logged gs0 (own @ es) gs'"
        then show "?Q rec (Err e) gs'"
          by (rule answer [rotated]) (use synced_end_append [OF own] fields in simp_all)
      qed
      then show ?thesis using assms(2) by (simp add: Ok Let_def)
    qed simp
  qed
  let ?arm = "case decision ev of
          Allow \<Rightarrow> allowed_execution_task g u message ev runner
        | Review \<Rightarrow> Done (Ok (''held_for_review'', False, None, NotExecuted))
        | Block \<Rightarrow> Done (Ok (''blocked'', False, None, NotExecuted))"
  have "obeys_agent (\<lambda>r gs. case r of Ok x \<Rightarrow> obeys_agent (answer_holds X) (?rest x) gs
      | Err e \<Rightarrow> answer_holds X (Err e) gs) ?arm gs"
  proof (cases "decision ev")
    case Allow
    then have "?arm = allowed_execution_task g u message ev runner" by simp
    moreover have "obeys_agent (\<lambda>r gs. case r of Ok x \<Rightarrow> obeys_agent (answer_holds X) (?rest x) gs
      | Err e \<Rightarrow> answer_holds X (Err e) gs) (allowed_execution_task g u message ev runner) gs"
      using assms(1,2) Allow runner
    proof (rule allowed_task_obeys)
      fix own gs' status executed out and res :: "execution_result option"
      assume l: "logged gs0 own gs'" and arm: "status = plain_status Allow out \<and> (executed \<longleftrightarrow> out = Success) \<and>
          (executed \<longleftrightarrow> res \<noteq> None) \<and> out \<in> {Success, Failed}"
        and pre: "synced_before ?P own (length own)"
      show "case Ok (status, executed, res, out) of Ok x \<Rightarrow> obeys_agent (answer_holds X) (?rest x) gs'
          | Err e \<Rightarrow> answer_holds X (Err e) gs'"
        unfolding result.case by (rule rest [OF l]) (use arm pre Allow in auto)
    qed (simp_all only: result.case answer_holds_Err)
    ultimately show ?thesis by simp
  next
    case Review
    have "obeys_agent (answer_holds X) (?rest (''held_for_review'', False, None, NotExecuted)) gs"
      by (rule rest [OF assms(1)]) (simp_all add: Review)
    then show ?thesis by (simp add: Review)
  next
    case Block
    have "obeys_agent (answer_holds X) (?rest (''blocked'', False, None, NotExecuted)) gs"
      by (rule rest [OF assms(1)]) (simp_all add: Block)
    then show ?thesis by (simp add: Block)
  qed
  then show ?thesis
    unfolding execute_message_task_def by (cases "validate_message message") simp_all
qed

text \<open>The whole call, from any state whose trace is answered for.\<close>

lemma agent_quiet_section:
  assumes "logged gs0 own gs" and "\<And>gs r gs'. m gs = (r, gs') \<Longrightarrow> bystander gs gs' \<and> trace gs' = trace gs"
    and "\<And>gs1 r gs2. m gs1 = (r, gs2) \<Longrightarrow> logged gs0 own gs2 \<Longrightarrow> Q r gs2"
  shows "obeys_agent Q (atomically m) gs"
  unfolding obeys_atomically
proof (intro allI impI)
  fix gs1 r gs2 assume "extends gs gs1" and run: "m gs1 = (r, gs2)"
  then have "logged gs0 own gs2"
    using assms(1,2) bystander_extends logged_later by blast
  then show "bystander gs1 gs2 \<and> Q r gs2" using assms(2,3) [OF run] by simp
qed

lemma on_world_trace: "keeps quiet m \<Longrightarrow> on_world m gs = (r, gs') \<Longrightarrow> bystander gs gs' \<and> trace gs' = trace gs"
  using quiet_section_bystander on_world_quiet emits_trace by fastforce

lemma tool_task_obeys:
  assumes "answered (trace gs)" and policy: "policy_ok (gc_policy c)"
  shows "obeys_agent (answer_holds X) (execute_task X J (anchored_gateway X fc c log) params) gs"
proof (cases "build_execution_request params")
  case (Err e)
  then show ?thesis by (simp add: execute_task_def)
next
  case (Ok request)
  let ?g = "anchored_gateway X fc c log"
  have evaluates: "bystander a b \<and> trace b = trace a" if "evaluate_section X ?g request a = (r, b)" for a r b
    using that unfolding evaluate_section_def
    by (rule on_world_trace [rotated]) (auto intro!: keepsI dest: quiet_evaluate split: prod.splits)
  have draws: "bystander a b \<and> trace b = trace a" if "draw_section a = (r, b)" for a r b
    using that unfolding draw_section_def
    by (rule on_world_trace [rotated]) (auto intro!: keepsI dest: quiet_new_uuid split: prod.splits)
  have runner: "\<exists>es. at_most_get es \<and> emits es a b \<and> same_shell a b"
    if "run_allowed_operation X fc c (http_runner_of X c) request a = (r, b)" for a r b
    using run_allowed_operation_emits [OF that] keepsD [OF shell_allowed_operation that] by blast
  have message: "obeys_agent (answer_holds X) (execute_message_task X ?g u (ep_purpose params) ev
      (run_allowed_operation X fc c (http_runner_of X c) request)) a" if "logged gs [] a" for u ev a
    using that by (rule message_task_obeys) (simp, rule runner)
  have build: "bystander a b \<and> trace b = trace a"
    if "build_pending_review X fc u request (ep_purpose params) a = (r, b)" for u a r b
  proof
    have "emits [] a b"
      using that on_world_quiet [OF quiet_with_err [OF quiet_fingerprint]]
        on_world_quiet [OF quiet_with_err [OF quiet_capture_write_target_state]]
      unfolding build_pending_review_def by (cases request) (auto elim!: and_then_cases)
    moreover have "same_shell a b" using keepsD [OF shell_build_pending that] .
    ultimately show "bystander a b" "trace b = trace a"
      using emits_trace by (auto intro: bystander_quiet)
  qed
  have insert: "bystander a b \<and> trace b = trace a"
    if "locked e (with_err f (on_store (store_insert X J p))) a = (r, b)" "canonical p"
    for e r a b p and f :: "store_error \<Rightarrow> gateway_error"
    using keepsD [OF insert_section_bystander [OF that(2)] that(1)]
      emits_trace [OF store_handlers_emit_nothing(1) [OF that(1)]]
    by simp
  have finish: "obeys_agent (answer_holds X) (and_then_task
      (if decision ev = Review then hold_for_review_task X J fc u request (ep_purpose params) else Done (Ok ()))
      (\<lambda>_. execute_message_task X ?g u (ep_purpose params) ev
        (run_allowed_operation X fc c (http_runner_of X c) request))) a"
    if l: "logged gs [] a" and reviewable: "decision ev = Review \<Longrightarrow> is_reviewable request" for u ev a
  proof (cases "decision ev = Review")
    case True
    have "obeys_agent (\<lambda>r gs. case r of
        Ok x \<Rightarrow> obeys_agent (answer_holds X) (execute_message_task X ?g u (ep_purpose params) ev
          (run_allowed_operation X fc c (http_runner_of X c) request)) gs
      | Err e \<Rightarrow> answer_holds X (Err e) gs)
      (atomically (locked (StoreFailed StoreLockPoisoned) (with_err StoreFailed (on_store (store_insert X J p))))) b"
      if "logged gs [] b" "canonical p" for p b
      using that(1) insert [OF _ that(2)] by (rule agent_quiet_section) (auto split: result.splits intro: message)
    note insertion = this
    have "obeys_agent (\<lambda>r gs. case r of
        Ok x \<Rightarrow> obeys_agent (answer_holds X) (execute_message_task X ?g u (ep_purpose params) ev
          (run_allowed_operation X fc c (http_runner_of X c) request)) gs
      | Err e \<Rightarrow> answer_holds X (Err e) gs)
      (hold_for_review_task X J fc u request (ep_purpose params)) a"
      unfolding hold_for_review_task_def obeys_and_then
    proof (rule agent_quiet_section [OF l build])
      fix b r b' assume run: "build_pending_review X fc u request (ep_purpose params) b = (r, b')" and l': "logged gs [] b'"
      show "case r of
          Ok p \<Rightarrow> obeys_agent (\<lambda>r gs. case r of
              Ok x \<Rightarrow> obeys_agent (answer_holds X) (execute_message_task X ?g u (ep_purpose params) ev
                (run_allowed_operation X fc c (http_runner_of X c) request)) gs
            | Err e \<Rightarrow> answer_holds X (Err e) gs)
            (atomically (locked (StoreFailed StoreLockPoisoned) (with_err StoreFailed (on_store (store_insert X J p))))) b'
        | Err e \<Rightarrow> case Err e of
              Ok x \<Rightarrow> obeys_agent (answer_holds X) (execute_message_task X ?g u (ep_purpose params) ev
                (run_allowed_operation X fc c (http_runner_of X c) request)) b'
            | Err e \<Rightarrow> answer_holds X (Err e) b'"
      proof (cases r)
        case (Ok p)
        then show ?thesis using insertion [OF l'] build_pending_Ok(1) [OF _ reviewable [OF True]] run by simp
      qed simp
    qed
    then show ?thesis using True by (simp del: answer_holds_Err)
  next
    case False
    then show ?thesis using message [OF l] by simp
  qed
  let ?rest = "\<lambda>ev u. and_then_task
      (if decision ev = Review then hold_for_review_task X J fc u request (ep_purpose params) else Done (Ok ()))
      (\<lambda>_. execute_message_task X ?g u (ep_purpose params) ev
        (run_allowed_operation X fc c (http_runner_of X c) request))"
  have draw: "obeys_agent (answer_holds X) (and_then_task (atomically draw_section) (?rest ev)) a"
    if "logged gs [] a" and reviewable: "decision ev = Review \<Longrightarrow> is_reviewable request" for ev a
    unfolding obeys_and_then [of _ _ _ "atomically draw_section"]
    using that(1) draws
  proof (rule agent_quiet_section)
    fix gs1 r gs2 assume "logged gs [] gs2"
    then show "case r of Ok u \<Rightarrow> obeys_agent (answer_holds X) (?rest ev u) gs2 | Err e \<Rightarrow> answer_holds X (Err e) gs2"
      using finish reviewable by (cases r) (simp_all del: obeys_and_then)
  qed
  have "obeys_agent (answer_holds X) (and_then_task (atomically (evaluate_section X ?g request))
      (\<lambda>ev. and_then_task (atomically draw_section) (?rest ev))) gs"
    unfolding obeys_and_then [of _ _ _ "atomically (evaluate_section X ?g request)"]
    using logged_start [OF assms(1)] evaluates
  proof (rule agent_quiet_section)
    fix gs1 r gs2 assume run: "evaluate_section X ?g request gs1 = (r, gs2)" and "logged gs [] gs2"
    moreover have "decision ev = Review \<Longrightarrow> is_reviewable request" if "r = Ok ev" for ev
      using run that evaluate_decision(1) [OF policy]
      by (auto simp: evaluate_section_def elim!: on_world_runs split: prod.splits)
    ultimately show "case r of Ok ev \<Rightarrow> obeys_agent (answer_holds X) (and_then_task (atomically draw_section) (?rest ev)) gs2
        | Err e \<Rightarrow> answer_holds X (Err e) gs2"
      by (cases r) (simp_all del: obeys_and_then add: draw)
  qed
  then show ?thesis
    unfolding execute_task_def anchored_gateway_simps Ok by (simp only: and_then_Done)
qed

section \<open>A command of the operator\<close>

abbreviation obeys_operator ::
  "gateway_state \<Rightarrow> (event list \<Rightarrow> bool) \<Rightarrow> ('a \<Rightarrow> gateway_state \<Rightarrow> bool)
   \<Rightarrow> (gateway_state, 'a) task \<Rightarrow> gateway_state \<Rightarrow> bool" where
  "obeys_operator gs0 E \<equiv> obeys bystander (acts gs0 E)"

text \<open>
  An operation of a reviewed request: at most its effect, its effect if it is not an error, and no
  effect if it is a write that is.
\<close>

definition fits :: "pending_review \<Rightarrow> ('a, 'e) result \<Rightarrow> event list \<Rightarrow> bool" where
  "fits p q es \<longleftrightarrow>
     at_most_effect p es \<and> (\<not> is_err q \<longrightarrow> es \<noteq> []) \<and> (is_err q \<and> (\<exists>a. pr_request p = WriteFile a) \<longrightarrow> es = [])"

definition performs :: "pending_review \<Rightarrow> (reviewed_operation_result, operation_error) handler \<Rightarrow> bool" where
  "performs p operation \<longleftrightarrow>
     (\<forall>gs q gs'. operation gs = (q, gs') \<longrightarrow> same_shell gs gs' \<and>
        (\<exists>es. fits p q es \<and> emits es gs gs'))"

lemma performsI:
  assumes "\<And>gs q gs'. operation gs = (q, gs') \<Longrightarrow> same_shell gs gs' \<and>
    (is_err q \<and> emits [] gs gs' \<or>
     (\<exists>e. effect_of_review p e \<and> emits [e] gs gs') \<and> \<not> (is_err q \<and> (\<exists>a. pr_request p = WriteFile a)))"
  shows "performs p operation"
  unfolding performs_def
proof (intro allI impI)
  fix gs q gs' assume "operation gs = (q, gs')"
  from assms [OF this] show "same_shell gs gs' \<and> (\<exists>es. fits p q es \<and> emits es gs gs')"
    unfolding fits_def at_most_effect_def by blast
qed

lemma performs_write:
  assumes "pr_request p = WriteFile a"
  shows "performs p (and_then (on_world (with_err FileFailed (write_text_file X fc (wf_path a) (wf_content a))))
    (\<lambda>_. ret (OperationSuccess None)))"
proof (rule performsI)
  fix gs q gs'
  assume "and_then (on_world (with_err FileFailed (write_text_file X fc (wf_path a) (wf_content a))))
    (\<lambda>_. ret (OperationSuccess None)) gs = (q, gs')"
  then obtain s where run: "on_world (with_err FileFailed (write_text_file X fc (wf_path a) (wf_content a))) gs = (s, gs')"
    and q: "is_err q \<longleftrightarrow> is_err s"
    by (auto elim!: and_then_cases)
  then obtain z w' where z: "write_text_file X fc (wf_path a) (wf_content a) (gs_world gs) = (z, w')"
    and gs': "gs' = gs\<lparr>gs_world := w'\<rparr>" and s: "is_err s \<longleftrightarrow> is_err z"
    by (auto elim!: on_world_runs with_err_cases)
  have "emits (if z = Ok () then [EvReplaced (wf_path a) (wf_content a)] else []) gs gs'"
    using write_text_file_events [OF z] gs' by (simp add: emits_def)
  then show "same_shell gs gs' \<and> (is_err q \<and> emits [] gs gs' \<or>
      (\<exists>e. effect_of_review p e \<and> emits [e] gs gs') \<and> \<not> (is_err q \<and> (\<exists>a. pr_request p = WriteFile a)))"
    using on_world_shell [OF run] q s assms
    by (cases z) (auto intro: effect_of_review.intros)
qed

lemma performs_cargo:
  assumes "pr_request p = RunCargoTest" and "pr_workspace_fingerprint p = Some f"
  shows "performs p (execute_cargo_test_with_config X fc c f)"
proof (rule performsI)
  fix gs q gs' assume run: "execute_cargo_test_with_config X fc c f gs = (q, gs')"
  then have "is_err q \<and> emits [] gs gs' \<or> emits [EvCargo f] gs gs'"
    unfolding execute_cargo_test_with_config_def
    by (auto simp: emits_def adds_Nil split: if_splits elim!: and_then_cases on_world_runs with_err_cases
        dest!: cargo_run_events)
  then show "same_shell gs gs' \<and> (is_err q \<and> emits [] gs gs' \<or>
      (\<exists>e. effect_of_review p e \<and> emits [e] gs gs') \<and> \<not> (is_err q \<and> (\<exists>a. pr_request p = WriteFile a)))"
    using keepsD [OF shell_operations(1) run] assms by (auto intro: effect_of_review.intros)
qed

lemma performs_post:
  assumes "pr_request p = HttpRequest a" and "http_method a = Post"
  shows "performs p (execute_http_post_with_config X c a)"
proof (rule performsI)
  fix gs q gs' assume run: "execute_http_post_with_config X c a gs = (q, gs')"
  then have "\<exists>d. is_err q \<and> emits [] gs gs' \<or> emits [http_event Post d (http_body a)] gs gs'"
    unfolding execute_http_post_with_config_def
    by (auto simp: emits_def adds_Nil split: if_splits
        elim!: and_then_cases on_world_runs with_err_cases dest!: http_execute_events)
  then obtain d where "is_err q \<and> emits [] gs gs' \<or> emits [http_event Post d (http_body a)] gs gs'" ..
  then show "same_shell gs gs' \<and> (is_err q \<and> emits [] gs gs' \<or>
      (\<exists>e. effect_of_review p e \<and> emits [e] gs gs') \<and> \<not> (is_err q \<and> (\<exists>a. pr_request p = WriteFile a)))"
    using keepsD [OF shell_operations(2) run] assms
    by (auto simp: http_event_def intro: effect_of_review.intros)
qed

lemma effect_of_review_effect: "effect_of_review p e \<Longrightarrow> effect e \<and> needs_approval e"
  by (auto elim: effect_of_reviewE)

text \<open>The audited operation.\<close>

lemma reviewed_task_obeys:
  assumes l: "ledger gs0 E own gs" and g: "zg_audit g = anchored_persist X log"
    and approved: "synced_before (decision_record Approval (pr_request_id p)) own (length own)"
    and fresh: "filter needs_approval own = []" "filter is_approval own \<noteq> []"
    and operation: "performs p operation"
    and E: "E []" "\<And>e. effect_of_review p e \<Longrightarrow> E [e]"
    and err: "\<And>e own gs'. ledger gs0 E own gs' \<Longrightarrow> Q (Err e) gs'"
    and unaudited: "\<And>q e r rb es fs gs'. ledger gs0 E (own @ [EvAudit rb, EvAuditSynced] @ es @ fs) gs' \<Longrightarrow>
      decision_record PreExecution (pr_request_id p) rb \<Longrightarrow> fits p q es \<Longrightarrow>
      Q (Ok (ReviewedAuditFailed (operation_outcome q) e r)) gs'"
    and audited: "\<And>q rb es rc gs'. ledger gs0 E (own @ [EvAudit rb, EvAuditSynced] @ es @ [EvAudit rc, EvAuditSynced]) gs' \<Longrightarrow>
      decision_record PreExecution (pr_request_id p) rb \<Longrightarrow> fits p q es \<Longrightarrow>
      decision_record Completion (pr_request_id p) rc \<Longrightarrow> ar_execution_outcome rc = operation_outcome q \<Longrightarrow>
      Q (Ok (reviewed_outcome q)) gs'"
  shows "obeys_operator gs0 E Q (execute_reviewed_task g p operation) gs"
proof -
  let ?pair = "\<lambda>r. [EvAudit r, EvAuditSynced]"
  have build: "emits [] a b \<and> same_shell a b"
    if "audit_record_for u message d why stage out a = (r, b)" for a r b u message d why stage out
    using audit_record_for_runs(1,2) [OF that] by simp
  have complete: "obeys_operator gs0 E Q (complete_reviewed_task g p why q) gs1"
    if l1: "ledger gs0 E (own @ ?pair rb @ es) gs1" and rb: "decision_record PreExecution (pr_request_id p) rb"
      and es: "fits p q es" for rb es gs1 why q
    unfolding complete_reviewed_task_def obeys_bind
  proof (rule operator.obeys_silent [OF l1 build])
    fix gs2 r gs3
    assume made: "audit_record_for (pr_request_id p) (pr_purpose p) Review why Completion (operation_outcome q) gs2 = (r, gs3)"
      and l3: "ledger gs0 E (own @ ?pair rb @ es) gs3"
    show "obeys_operator gs0 E Q (case r of
        Err error \<Rightarrow> Done (Ok (ReviewedAuditFailed (operation_outcome q) error (preserved_result q)))
      | Ok rec \<Rightarrow> bind_task (atomically (persist_audit_locked (zg_audit g) rec)) (\<lambda>written. case written of
          Err error \<Rightarrow> Done (Ok (ReviewedAuditFailed (operation_outcome q) (AuditPersistFailed Completion error) (preserved_result q)))
        | Ok _ \<Rightarrow> Done (Ok (reviewed_outcome q)))) gs3"
    proof (cases r)
      case (Ok rec)
      note fields = audit_record_for_runs(3) [OF made Ok]
      have "obeys_operator gs0 E (\<lambda>w. obeys_operator gs0 E Q (case w of
          Err error \<Rightarrow> Done (Ok (ReviewedAuditFailed (operation_outcome q) (AuditPersistFailed Completion error) (preserved_result q)))
        | Ok _ \<Rightarrow> Done (Ok (reviewed_outcome q)))) (atomically (persist_audit_locked (anchored_persist X log) rec)) gs3"
        by (rule operator.obeys_writer [OF l3])
          (use audited [of rb es rec] unaudited [OF _ rb es] rb es fields in \<open>auto simp: decision_record_def\<close>)
      then show ?thesis by (simp add: Ok g)
    next
      case (Err e)
      then show ?thesis using unaudited [OF _ rb es, of "[]"] l3 by simp
    qed
  qed
  have act: "obeys_operator gs0 E Q (bind_task (atomically operation) (complete_reviewed_task g p why)) gs1"
    if l1: "ledger gs0 E (own @ ?pair rb) gs1" and rb: "decision_record PreExecution (pr_request_id p) rb" for rb gs1 why
    unfolding obeys_bind obeys_atomically
  proof (intro allI impI)
    fix gs2 q gs3 assume "bystander gs1 gs2" and run: "operation gs2 = (q, gs3)"
    then have l2: "ledger gs0 E (own @ ?pair rb) gs2" using l1 ledger_later by blast
    obtain es where shell: "same_shell gs2 gs3" and es: "fits p q es" "emits es gs2 gs3"
      using operation run unfolding performs_def by blast
    have "ledger gs0 E (own @ ?pair rb @ es) gs3 \<and> acts gs0 E gs2 gs3"
    proof (cases "es = []")
      case True
      then show ?thesis using operator.logs_quiet [OF l2 es(2) _ _ shell] by simp
    next
      case False
      then obtain e where e: "es = [e]" "effect_of_review p e" using es(1) by (auto simp: fits_def at_most_effect_def)
      note step = ledger_effect [OF l2 es(2) [unfolded e(1)] shell synced_end_append [OF approved]
          synced_last [where P = "decision_record PreExecution (pr_request_id p)" and own = own, OF rb]]
      show ?thesis
        using step fresh E(2) [OF e(2)] effect_of_review_effect [OF e(2)] e(1) by simp
    qed
    then show "acts gs0 E gs2 gs3 \<and> obeys_operator gs0 E Q (complete_reviewed_task g p why q) gs3"
      using complete [OF _ rb es(1)] by blast
  qed
  show ?thesis
  proof (cases "review_reason_for_request (pr_request p)")
    case (Ok why)
    have "obeys_operator gs0 E (\<lambda>r s. case r of
        Ok x \<Rightarrow> obeys_operator gs0 E Q (bind_task (atomically operation) (complete_reviewed_task g p why)) s
      | Err e \<Rightarrow> Q (Err e) s)
      (record_and_persist g (pr_request_id p) (pr_purpose p) Review why PreExecution NotExecuted) gs"
    proof (rule operator.obeys_record_and_persist [where X = X and log = log, OF l])
      show "persist_audit_locked (zg_audit g) = persist_audit_locked (anchored_persist X log)" by (simp add: g)
    qed (use act err in \<open>auto simp: decision_record_def simp del: obeys_bind\<close>)
    then show ?thesis by (simp add: execute_reviewed_task_def Ok)
  next
    case (Err e)
    then show ?thesis using err [OF l] by (simp add: execute_reviewed_task_def)
  qed
qed

text \<open>The use of the store that ends it.\<close>

lemma settle_cases:
  assumes "settle_claimed X J p executed gs = (r, gs')"
  obtains e where "r = Err e"
  | out where "executed = Ok out" and "r = Ok out"
      and "map_of (claimed_reviews (gs_store gs')) (pr_request_id p) = None"
proof (cases executed)
  case (Ok out)
  then show thesis
    using assms that consume_request_gone unfolding settle_claimed_def
    by (auto elim!: and_then_cases with_err_cases)
next
  case (Err e)
  then show thesis using assms that unfolding settle_claimed_def by (cases r) auto
qed

lemma operator_store_section:
  assumes "ledger gs0 E own gs" and "keeps extends m" and "\<And>gs r gs'. m gs = (r, gs') \<Longrightarrow> emits [] gs gs'"
    and "\<And>gs1 r gs2. ledger gs0 E own gs1 \<Longrightarrow> m gs1 = (r, gs2) \<Longrightarrow> ledger gs0 E own gs2 \<Longrightarrow> bystander gs gs1 \<Longrightarrow> Q r gs2"
  shows "obeys_operator gs0 E Q (atomically m) gs"
  unfolding obeys_atomically
proof (intro allI impI)
  fix gs1 r gs2 assume others: "bystander gs gs1" and run: "m gs1 = (r, gs2)"
  have l: "ledger gs0 E own gs1" using assms(1) others by (rule ledger_later)
  note step = ledger_store [OF l assms(3) [OF run] keepsD [OF assms(2) run]]
  show "acts gs0 E gs1 gs2 \<and> Q r gs2"
    using step(2) assms(4) [OF l run step(1) others] by simp
qed

lemma claimed_task_obeys:
  assumes l: "ledger gs0 E own gs" and g: "zg_audit g = anchored_persist X log"
    and approved: "synced_before (decision_record Approval (pr_request_id p)) own (length own)"
    and fresh: "filter needs_approval own = []" "filter is_approval own \<noteq> []"
    and operation: "performs p operation"
    and E: "E []" "\<And>e. effect_of_review p e \<Longrightarrow> E [e]"
    and err: "\<And>e own gs'. ledger gs0 E own gs' \<Longrightarrow> Q (Err e) gs'"
    and unaudited: "\<And>q e r rb es fs gs'. ledger gs0 E (own @ [EvAudit rb, EvAuditSynced] @ es @ fs) gs' \<Longrightarrow>
      decision_record PreExecution (pr_request_id p) rb \<Longrightarrow> fits p q es \<Longrightarrow>
      map_of (claimed_reviews (gs_store gs')) (pr_request_id p) = None \<Longrightarrow>
      Q (Ok (ReviewedAuditFailed (operation_outcome q) e r)) gs'"
    and audited: "\<And>q rb es rc gs'. ledger gs0 E (own @ [EvAudit rb, EvAuditSynced] @ es @ [EvAudit rc, EvAuditSynced]) gs' \<Longrightarrow>
      decision_record PreExecution (pr_request_id p) rb \<Longrightarrow> fits p q es \<Longrightarrow>
      decision_record Completion (pr_request_id p) rc \<Longrightarrow> ar_execution_outcome rc = operation_outcome q \<Longrightarrow>
      map_of (claimed_reviews (gs_store gs')) (pr_request_id p) = None \<Longrightarrow> Q (Ok (reviewed_outcome q)) gs'"
  shows "obeys_operator gs0 E Q (execute_claimed_task X' J g p operation) gs"
  unfolding execute_claimed_task_def obeys_bind
  using l g approved fresh operation E
proof (rule reviewed_task_obeys)
  have settle: "obeys_operator gs0 E Q (atomically (settle_claimed X' J p executed)) gs1"
    if "ledger gs0 E own1 gs1"
      and "\<And>out gs2. executed = Ok out \<Longrightarrow> ledger gs0 E own1 gs2 \<Longrightarrow>
        map_of (claimed_reviews (gs_store gs2)) (pr_request_id p) = None \<Longrightarrow> Q (Ok out) gs2"
    for executed own1 gs1
    using that(1) extends_claims(6) settle_claimed_emits
    by (rule operator_store_section) (auto elim!: settle_cases intro: that(2) err)
  show "obeys_operator gs0 E Q (atomically (settle_claimed X' J p (Err e))) gs'" if "ledger gs0 E own gs'" for e own gs'
    using that by (rule settle) simp
  show "obeys_operator gs0 E Q (atomically (settle_claimed X' J p (Ok (ReviewedAuditFailed (operation_outcome q) e r)))) gs'"
    if "ledger gs0 E (own @ [EvAudit rb, EvAuditSynced] @ es @ fs) gs'"
      "decision_record PreExecution (pr_request_id p) rb" "fits p q es" for q e r rb es fs gs'
    using that(1) by (rule settle) (use unaudited [OF _ that(2,3)] in auto)
  show "obeys_operator gs0 E Q (atomically (settle_claimed X' J p (Ok (reviewed_outcome q)))) gs'"
    if "ledger gs0 E (own @ [EvAudit rb, EvAuditSynced] @ es @ [EvAudit rc, EvAuditSynced]) gs'"
      "decision_record PreExecution (pr_request_id p) rb" "fits p q es"
      "decision_record Completion (pr_request_id p) rc" "ar_execution_outcome rc = operation_outcome q" for q rb es rc gs'
    using that(1) by (rule settle) (use audited [OF _ that(2-5)] in auto)
qed

section \<open>What stands behind a reply\<close>

definition carried_out :: "uuid \<Rightarrow> execution_outcome \<Rightarrow> (event \<Rightarrow> bool) \<Rightarrow> event list \<Rightarrow> bool" where
  "carried_out u out kind es \<longleftrightarrow>
     (\<exists>ra rb e rc. decision_record Approval u ra \<and> decision_record PreExecution u rb \<and> kind e \<and>
        decision_record Completion u rc \<and> ar_execution_outcome rc = out \<and>
        subseq [EvAudit ra, EvAuditSynced, EvAudit rb, EvAuditSynced, e, EvAudit rc, EvAuditSynced] es)"

text \<open>The same without an effect: what there is when the operation failed.\<close>

definition tried :: "uuid \<Rightarrow> execution_outcome \<Rightarrow> event list \<Rightarrow> bool" where
  "tried u out es \<longleftrightarrow>
     (\<exists>ra rb rc. decision_record Approval u ra \<and> decision_record PreExecution u rb \<and>
        decision_record Completion u rc \<and> ar_execution_outcome rc = out \<and>
        subseq [EvAudit ra, EvAuditSynced, EvAudit rb, EvAuditSynced, EvAudit rc, EvAuditSynced] es)"

text \<open>The decision was recorded before a failing completion record, with the effect if it is said to be done.\<close>

definition interrupted :: "uuid \<Rightarrow> execution_outcome \<Rightarrow> event list \<Rightarrow> bool" where
  "interrupted u out es \<longleftrightarrow>
     (\<exists>ra rb fs. decision_record Approval u ra \<and> decision_record PreExecution u rb \<and>
        (out = Success \<longrightarrow> (\<exists>e. fs = [e] \<and> needs_approval e)) \<and>
        subseq ([EvAudit ra, EvAuditSynced, EvAudit rb, EvAuditSynced] @ fs) es)"

fun is_write :: "event \<Rightarrow> bool" where
  "is_write (EvReplaced p c) = True"
| "is_write _ = False"

fun is_build :: "event \<Rightarrow> bool" where
  "is_build (EvCargo f) = True"
| "is_build _ = False"

fun is_post :: "event \<Rightarrow> bool" where
  "is_post (EvHttp m u b) = (m = Post)"
| "is_post _ = False"

fun backed_outcome :: "event list \<Rightarrow> admin_outcome \<Rightarrow> bool" where
  "backed_outcome es (Approved u) = carried_out u Success is_write es"
| "backed_outcome es (CargoTestCompleted u r) = carried_out u Success is_build es"
| "backed_outcome es (CargoTestFailed u r) = carried_out u Failed is_build es"
| "backed_outcome es (HttpPostCompleted u r) = carried_out u Success is_post es"
| "backed_outcome es (HttpPostFailed u r) = carried_out u Failed is_post es"
| "backed_outcome es (Rejected p) =
     synced_before (decision_record Rejection (pr_request_id p)) es (length es)"
| "backed_outcome es (ClaimedAcknowledged p) =
     synced_before (decision_record Reconciliation (pr_request_id p)) es (length es)"
| "backed_outcome es (AcknowledgementUncertain u e) =
     synced_before (decision_record Reconciliation u) es (length es)"
| "backed_outcome es (WriteFailed u e) = (tried u Failed es \<and> filter needs_approval es = [])"
| "backed_outcome es (CargoTestExecutionFailed u e) = tried u Failed es"
| "backed_outcome es (HttpPostExecutionFailed u e) = tried u Failed es"
| "backed_outcome es (CompletionAuditFailed u out e r) = interrupted u out es"

text \<open>
  A reply that is not an error tells what happened since \<open>gs0\<close>, and the request it names is not
  claimed any more.
\<close>

definition reply_holds :: "gateway_state \<Rightarrow> (admin_outcome, 'e) result \<Rightarrow> gateway_state \<Rightarrow> bool" where
  "reply_holds gs0 r gs \<longleftrightarrow>
     (\<forall>out. r = Ok out \<longrightarrow> backed_outcome (new_events gs0 gs) out \<and>
        map_of (claimed_reviews (gs_store gs)) (outcome_id out) = None)"

lemma reply_holds_Err [simp]: "reply_holds gs0 (Err e) gs"
  by (simp add: reply_holds_def)

lemma carried_out_more: "carried_out u out kind es \<Longrightarrow> carried_out u out kind (es @ fs)"
  unfolding carried_out_def by (blast intro: subseq_rev_drop_many)

lemma tried_more: "tried u out es \<Longrightarrow> tried u out (es @ fs)"
  unfolding tried_def by (blast intro: subseq_rev_drop_many)

lemma interrupted_more: "interrupted u out es \<Longrightarrow> interrupted u out (es @ fs)"
  unfolding interrupted_def by (blast intro: subseq_rev_drop_many)

lemma backed_outcome_more:
  "backed_outcome es out \<Longrightarrow> filter needs_approval fs = [] \<Longrightarrow> backed_outcome (es @ fs) out"
  by (cases out; simp add: carried_out_more tried_more interrupted_more synced_end_append [simplified])

lemma reply_holds_later:
  assumes "reply_holds gs0 r gs" and "bystander gs gs'" and "prefix (trace gs0) (trace gs)"
  shows "reply_holds gs0 r gs'"
proof -
  obtain es where es: "trace gs' = trace gs @ es"
    using extendsD [OF bystander_extends [OF assms(2)]] .
  then have more: "new_events gs0 gs' = new_events gs0 gs @ es" by (rule new_events_append [OF assms(3)])
  have "filter needs_approval es = []"
    using assms(2) new_events_eq [OF es] by (simp add: bystander_def)
  then show ?thesis
    using assms(1,2) backed_outcome_more more by (auto simp: reply_holds_def bystander_def)
qed

text \<open>The three arms of an approval, as one.\<close>

lemma finish_obeys:
  assumes l: "ledger gs0 E [EvAudit ra, EvAuditSynced] gs" and g: "zg_audit g = anchored_persist X log"
    and ra: "decision_record Approval u ra" and id: "pr_request_id p = u"
    and operation: "performs p operation"
    and E: "E []" "\<And>e. effect_of_review p e \<Longrightarrow> E [e]"
    and failed: "\<And>out e r es. interrupted u out es \<Longrightarrow> case f u (ReviewedAuditFailed out e r) of
      Ok o' \<Rightarrow> outcome_id o' = u \<and> backed_outcome es o' | Err _ \<Rightarrow> True"
    and told: "\<And>q es. \<not> is_err q \<Longrightarrow> case f u (reviewed_outcome q) of
      Ok o' \<Rightarrow> outcome_id o' = u \<and>
        (\<forall>e. effect_of_review p e \<longrightarrow> carried_out u (operation_outcome q) ((=) e) es \<longrightarrow> backed_outcome es o')
    | Err _ \<Rightarrow> True"
    and told_error: "\<And>e es. tried u Failed es \<Longrightarrow>
      (\<exists>a. pr_request p = WriteFile a) \<longrightarrow> filter needs_approval es = [] \<Longrightarrow> case f u (ExecutionFailed e) of
      Ok o' \<Rightarrow> outcome_id o' = u \<and> backed_outcome es o' | Err _ \<Rightarrow> True"
  shows "obeys_operator gs0 E (reply_holds gs0) (finish_approval f u (execute_claimed_task X' J g p operation)) gs"
proof -
  let ?own = "[EvAudit ra, EvAuditSynced]"
  let ?Q = "\<lambda>r s. case r of Ok x \<Rightarrow> reply_holds gs0 (f u x) s | Err e \<Rightarrow> reply_holds gs0 (Err e) s"
  have ap: "synced_before (decision_record Approval (pr_request_id p)) ?own (length ?own)"
    using synced_last [where own = "[]" and P = "decision_record Approval u", OF ra] id by simp
  have fresh: "filter needs_approval ?own = []" "filter is_approval ?own \<noteq> []"
    using ra by (simp_all add: decision_record_def)
  have "obeys_operator gs0 E ?Q (execute_claimed_task X' J g p operation) gs"
    using l g ap fresh operation E
  proof (rule claimed_task_obeys)
    show "?Q (Err e) gs'" for e gs' by simp
    show "?Q (Ok (ReviewedAuditFailed (operation_outcome q) e r)) gs'"
      if log: "ledger gs0 E (?own @ [EvAudit rb, EvAuditSynced] @ es @ fs) gs'"
        and rb: "decision_record PreExecution (pr_request_id p) rb" and es: "fits p q es"
        and gone: "map_of (claimed_reviews (gs_store gs')) (pr_request_id p) = None" for q e r rb es fs gs'
    proof -
      have "subseq (?own @ [EvAudit rb, EvAuditSynced] @ es @ fs) (new_events gs0 gs')"
        using log by (simp add: ledger_def logged_def)
      moreover have "subseq (?own @ [EvAudit rb, EvAuditSynced] @ es) (?own @ [EvAudit rb, EvAuditSynced] @ es @ fs)"
        using subseq_rev_drop_many [OF subseq_order.refl, of "?own @ [EvAudit rb, EvAuditSynced] @ es" fs] by simp
      ultimately have "subseq ([EvAudit ra, EvAuditSynced, EvAudit rb, EvAuditSynced] @ es) (new_events gs0 gs')"
        using subseq_order.trans by fastforce
      moreover have "operation_outcome q = Success \<longrightarrow> (\<exists>e. es = [e] \<and> needs_approval e)"
        using es effect_of_review_effect by (cases q) (auto simp: fits_def at_most_effect_def)
      ultimately have "interrupted u (operation_outcome q) (new_events gs0 gs')"
        unfolding interrupted_def using ra rb id by blast
      from failed [OF this, of e r] show ?thesis
        using gone id by (cases "f u (ReviewedAuditFailed (operation_outcome q) e r)") (auto simp: reply_holds_def)
    qed
    show "?Q (Ok (reviewed_outcome q)) gs'"
      if log: "ledger gs0 E (?own @ [EvAudit rb, EvAuditSynced] @ es @ [EvAudit rc, EvAuditSynced]) gs'"
        and rb: "decision_record PreExecution (pr_request_id p) rb" and es: "fits p q es"
        and rc: "decision_record Completion (pr_request_id p) rc" "ar_execution_outcome rc = operation_outcome q"
        and gone: "map_of (claimed_reviews (gs_store gs')) (pr_request_id p) = None" for q rb es rc gs'
    proof (cases q)
      case (Err e)
      have "subseq (?own @ [EvAudit rb, EvAuditSynced] @ [EvAudit rc, EvAuditSynced])
          (?own @ [EvAudit rb, EvAuditSynced] @ es @ [EvAudit rc, EvAuditSynced])"
        by (simp add: subseq_drop_many)
      moreover have "subseq (?own @ [EvAudit rb, EvAuditSynced] @ es @ [EvAudit rc, EvAuditSynced]) (new_events gs0 gs')"
        using log by (simp add: ledger_def logged_def)
      ultimately have "subseq (?own @ [EvAudit rb, EvAuditSynced] @ [EvAudit rc, EvAuditSynced]) (new_events gs0 gs')"
        by (rule subseq_order.trans)
      then have "tried u Failed (new_events gs0 gs')"
        unfolding tried_def using ra rb rc id Err
        by (intro exI [where x = ra] exI [where x = rb] exI [where x = rc]) simp
      moreover have "(\<exists>a. pr_request p = WriteFile a) \<longrightarrow> filter needs_approval (new_events gs0 gs') = []"
        using log es Err by (auto simp: ledger_def fits_def)
      ultimately show ?thesis
        using told_error [of "new_events gs0 gs'" e] gone id Err
        by (cases "f u (ExecutionFailed e)") (auto simp: reply_holds_def)
    next
      case (Ok x)
      then obtain e where e: "es = [e]" "effect_of_review p e" using es by (auto simp: fits_def at_most_effect_def)
      have "subseq (?own @ [EvAudit rb, EvAuditSynced] @ [e] @ [EvAudit rc, EvAuditSynced]) (new_events gs0 gs')"
        using log e(1) by (simp add: ledger_def logged_def)
      then have "carried_out u (operation_outcome q) ((=) e) (new_events gs0 gs')"
        unfolding carried_out_def using ra rb rc id
        by (intro exI [where x = ra] exI [where x = rb] exI [where x = e] exI [where x = rc]) simp
      then show ?thesis
        using told [of q "new_events gs0 gs'"] e(2) gone id Ok
        by (cases "f u (reviewed_outcome q)") (auto simp: reply_holds_def)
    qed
  qed
  then show ?thesis unfolding finish_approval_def obeys_and_then obeys.simps(1) .
qed

lemma kind_of_effect:
  "effect_of_review p e \<Longrightarrow> pr_request p = WriteFile a \<Longrightarrow> is_write e"
  "effect_of_review p e \<Longrightarrow> pr_request p = RunCargoTest \<Longrightarrow> is_build e"
  "effect_of_review p e \<Longrightarrow> pr_request p = HttpRequest b \<Longrightarrow> is_post e"
  by (auto elim: effect_of_reviewE)

lemma carried_out_kind: "carried_out u out ((=) e) es \<Longrightarrow> kind e \<Longrightarrow> carried_out u out kind es"
  unfolding carried_out_def by blast

lemma approved_task_obeys:
  assumes l: "ledger gs0 E [EvAudit ra, EvAuditSynced] gs" and g: "zg_audit g = anchored_persist X log"
    and ra: "decision_record Approval u ra" and id: "pr_request_id p = u"
    and E: "E []" "\<And>e. effect_of_review p e \<Longrightarrow> E [e]"
  shows "obeys_operator gs0 E (reply_holds gs0) (execute_approved_task X' J g u p) gs"
proof (cases "pr_request p")
  case (WriteFile a)
  have "obeys_operator gs0 E (reply_holds gs0) (finish_approval write_approval_outcome u
      (execute_claimed_task X' J g p (and_then (on_world (with_err FileFailed
         (write_text_file X' (zg_filesystem g) (wf_path a) (wf_content a)))) (\<lambda>_. ret (OperationSuccess None))))) gs"
    using l g ra id performs_write [OF WriteFile] E
  proof (rule finish_obeys)
    fix q es assume q: "\<not> is_err (q :: (reviewed_operation_result, operation_error) result)"
    show "case write_approval_outcome u (reviewed_outcome q) of
        Ok o' \<Rightarrow> outcome_id o' = u \<and>
          (\<forall>e. effect_of_review p e \<longrightarrow> carried_out u (operation_outcome q) ((=) e) es \<longrightarrow> backed_outcome es o')
      | Err _ \<Rightarrow> True"
      using q kind_of_effect(1) [OF _ WriteFile] carried_out_kind [where kind = is_write]
      by (cases q rule: reviewed_outcome.cases) (auto simp: outcome_id_def)
  qed (simp_all add: outcome_id_def WriteFile)
  then show ?thesis by (simp add: execute_approved_task_def WriteFile)
next
  case RunCargoTest
  have "obeys_operator gs0 E (reply_holds gs0) (finish_approval cargo_approval_outcome u
      (execute_claimed_task X' J g p (execute_cargo_test_with_config X' (zg_filesystem g) (zg_config g) f))) gs"
    if f: "pr_workspace_fingerprint p = Some f" for f
    using l g ra id performs_cargo [OF RunCargoTest f] E
  proof (rule finish_obeys)
    fix q es assume q: "\<not> is_err (q :: (reviewed_operation_result, operation_error) result)"
    show "case cargo_approval_outcome u (reviewed_outcome q) of
        Ok o' \<Rightarrow> outcome_id o' = u \<and>
          (\<forall>e. effect_of_review p e \<longrightarrow> carried_out u (operation_outcome q) ((=) e) es \<longrightarrow> backed_outcome es o')
      | Err _ \<Rightarrow> True"
      using q kind_of_effect(2) [OF _ RunCargoTest] carried_out_kind [where kind = is_build]
      by (cases "(u, reviewed_outcome q)" rule: cargo_approval_outcome.cases; cases q rule: reviewed_outcome.cases)
        (auto simp: outcome_id_def)
  qed (simp_all add: outcome_id_def)
  then show ?thesis
    by (cases "pr_workspace_fingerprint p") (simp_all add: execute_approved_task_def RunCargoTest)
next
  case (HttpRequest a)
  have "obeys_operator gs0 E (reply_holds gs0) (finish_approval http_approval_outcome u
      (execute_claimed_task X' J g p (execute_http_post_with_config X' (zg_config g) a))) gs"
    if post: "http_method a = Post"
    using l g ra id performs_post [OF HttpRequest post] E
  proof (rule finish_obeys)
    fix q es assume q: "\<not> is_err (q :: (reviewed_operation_result, operation_error) result)"
    show "case http_approval_outcome u (reviewed_outcome q) of
        Ok o' \<Rightarrow> outcome_id o' = u \<and>
          (\<forall>e. effect_of_review p e \<longrightarrow> carried_out u (operation_outcome q) ((=) e) es \<longrightarrow> backed_outcome es o')
      | Err _ \<Rightarrow> True"
      using q kind_of_effect(3) [OF _ HttpRequest] carried_out_kind [where kind = is_post]
      by (cases "(u, reviewed_outcome q)" rule: http_approval_outcome.cases; cases q rule: reviewed_outcome.cases)
        (auto simp: outcome_id_def)
  qed (simp_all add: outcome_id_def)
  then show ?thesis by (simp add: execute_approved_task_def HttpRequest)
qed (simp_all add: execute_approved_task_def)

text \<open>The records of the three decisions.\<close>

lemma review_audit_obeys:
  assumes "ledger gs0 E own gs" and "zg_audit g = anchored_persist X log"
    and "\<And>rec gs'. ledger gs0 E (own @ [EvAudit rec, EvAuditSynced]) gs' \<Longrightarrow>
      decision_record stage (pr_request_id p) rec \<Longrightarrow> Q (Ok ()) gs'"
    and "\<And>e own gs'. ledger gs0 E own gs' \<Longrightarrow> Q (Err e) gs'"
  shows "obeys_operator gs0 E Q (write_review_audit_task g stage out p) gs"
proof (cases "review_reason_for_request (pr_request p)")
  case (Ok why)
  have "obeys_operator gs0 E Q (record_and_persist g (pr_request_id p) (pr_purpose p) Review why stage out) gs"
    by (rule operator.obeys_record_and_persist [where X = X and log = log, OF assms(1)])
      (use assms(2-4) in \<open>auto simp: decision_record_def\<close>)
  then show ?thesis by (simp add: write_review_audit_task_def Ok)
next
  case (Err e)
  then show ?thesis using assms(1,4) by (simp add: write_review_audit_task_def)
qed

lemma restore_section_obeys:
  assumes "ledger gs0 E own gs" and "\<And>e gs'. Q (Err e) gs'"
  shows "obeys_operator gs0 E Q (atomically (restore_and_fail X' J p e)) gs"
  using assms(1) extends_claims(5) restore_and_fail_runs(1)
proof (rule operator_store_section)
  fix gs1 gs2 and r :: "('a, gateway_error) result" assume "restore_and_fail X' J p e gs1 = (r, gs2)"
  then show "Q r gs2" using assms(2) by (cases r) auto
qed

lemma after_claim_obeys:
  assumes l: "ledger gs0 E [] gs" and g: "zg_audit g = anchored_persist X log" and id: "pr_request_id p = u"
    and E: "E []" "\<And>e. effect_of_review p e \<Longrightarrow> E [e]"
  shows "obeys_operator gs0 E (reply_holds gs0)
    (and_then_task (audit_claimed_approval_task X' J g p) (\<lambda>_. execute_approved_task X' J g u p)) gs"
proof -
  let ?Q = "\<lambda>r s. case r of Ok _ \<Rightarrow> obeys_operator gs0 E (reply_holds gs0) (execute_approved_task X' J g u p) s
    | Err e \<Rightarrow> reply_holds gs0 (Err e) s"
  have "obeys_operator gs0 E (\<lambda>r. obeys_operator gs0 E ?Q (case r of
        Err audit_error \<Rightarrow> atomically (restore_and_fail X' J p audit_error)
      | Ok _ \<Rightarrow> Done (Ok ()))) (write_review_audit_task g Approval NotExecuted p) gs"
    using l g
  proof (rule review_audit_obeys)
    fix rec gs' assume l': "ledger gs0 E ([] @ [EvAudit rec, EvAuditSynced]) gs'"
      and rec: "decision_record Approval (pr_request_id p) rec"
    have "obeys_operator gs0 E (reply_holds gs0) (execute_approved_task X' J g u p) gs'"
      using l' rec id by (intro approved_task_obeys [OF _ g _ id E]) simp_all
    then show "obeys_operator gs0 E ?Q (case Ok () of
        Err audit_error \<Rightarrow> atomically (restore_and_fail X' J p audit_error) | Ok _ \<Rightarrow> Done (Ok ())) gs'"
      by simp
  next
    fix e own gs' assume "ledger gs0 E own gs'"
    then show "obeys_operator gs0 E ?Q (case Err e of
        Err audit_error \<Rightarrow> atomically (restore_and_fail X' J p audit_error) | Ok _ \<Rightarrow> Done (Ok ())) gs'"
      using restore_section_obeys [where Q = ?Q] by simp
  qed
  then show ?thesis by (simp add: audit_claimed_approval_task_def)
qed

lemma quiet_operator_section:
  assumes "ledger gs0 E own gs" and "\<And>gs r gs'. m gs = (r, gs') \<Longrightarrow> emits [] gs gs' \<and> same_shell gs gs'"
    and "\<And>gs1 r gs2. bystander gs gs1 \<Longrightarrow> m gs1 = (r, gs2) \<Longrightarrow> ledger gs0 E own gs2 \<Longrightarrow> Q r gs2"
  shows "obeys_operator gs0 E Q (atomically m) gs"
proof -
  have extends: "keeps extends m"
    using assms(2) by (intro keepsI bystander_extends bystander_quiet [where es = "[]"]) auto
  show ?thesis
    by (rule operator_store_section [OF assms(1) extends]) (use assms(2,3) in blast)+
qed

lemma inspect_section:
  assumes "inspect_pending_request u gs = (r, gs')"
  shows "emits [] gs gs' \<and> same_shell gs gs'" and "r = Ok p \<Longrightarrow> map_of (reviews (gs_store gs')) u = Some p"
  using assms by (auto simp: inspect_pending_request_def locked_def store_get_def ok_or_def
      split: if_splits option.splits)

lemma claim_section_emits: "claim_section X J u gs = (r, gs') \<Longrightarrow> emits [] gs gs'"
  unfolding claim_section_def by (rule store_handlers_emit_nothing(2))

text \<open>
  What was inspected is what is claimed: nobody else takes a pending request away or replaces it.
\<close>

lemma claim_obeys:
  assumes l: "ledger gs0 E [] gs" and g: "zg_audit g = anchored_persist X log"
    and pending: "map_of (reviews (gs_store gs)) u = Some p"
    and E: "E []" "\<And>e. effect_of_review p e \<Longrightarrow> E [e]"
  shows "obeys_operator gs0 E (reply_holds gs0) (and_then_task (atomically (claim_section X' J u)) (\<lambda>claimed.
    and_then_task (audit_claimed_approval_task X' J g claimed) (\<lambda>_. execute_approved_task X' J g u claimed))) gs"
  unfolding obeys_and_then [of _ _ _ "atomically (claim_section X' J u)"]
  using l extends_claims(1) claim_section_emits
proof (rule operator_store_section)
  fix gs1 r gs2 assume others: "bystander gs gs1" and run: "claim_section X' J u gs1 = (r, gs2)"
    and l1: "ledger gs0 E [] gs1" and l2: "ledger gs0 E [] gs2"
  show "case r of
      Ok claimed \<Rightarrow> obeys_operator gs0 E (reply_holds gs0) (and_then_task (audit_claimed_approval_task X' J g claimed)
        (\<lambda>_. execute_approved_task X' J g u claimed)) gs2
    | Err e \<Rightarrow> reply_holds gs0 (Err e) gs2"
  proof (cases r)
    case (Ok claimed)
    then have "map_of (reviews (gs_store gs1)) u = Some claimed" using run claim_section_took by blast
    moreover have "map_of (reviews (gs_store gs1)) u = Some p" using others pending by (simp add: bystander_def)
    ultimately have "claimed = p" by simp
    moreover have "pr_request_id p = u"
      using \<open>map_of (reviews (gs_store gs1)) u = Some p\<close> l1 keyed_entry by (auto simp: ledger_def well_typed_def)
    ultimately show ?thesis using after_claim_obeys [OF l2 g _ E] Ok by simp
  qed simp
qed

lemma revalidate_section:
  assumes "on_world (revalidate_pending_request_with_config X p fc c) gs = (r, gs')"
  shows "emits [] gs gs' \<and> same_shell gs gs'"
  using on_world_quiet [OF quiet_revalidate assms] on_world_shell [OF assms] by simp

lemma approve_task_obeys:
  assumes l: "ledger gs0 E [] gs" and g: "zg_audit g = anchored_persist X log"
    and E: "E []" "\<And>p e. effect_of_review p e \<Longrightarrow> E [e]"
  shows "obeys_operator gs0 E (reply_holds gs0) (approve_task X' J g u) gs"
proof -
  let ?claim = "and_then_task (atomically (claim_section X' J u)) (\<lambda>claimed.
    and_then_task (audit_claimed_approval_task X' J g claimed) (\<lambda>_. execute_approved_task X' J g u claimed))"
  let ?check = "\<lambda>p. atomically (on_world (revalidate_pending_request_with_config X' p (zg_filesystem g) (zg_config g)))"
  have check: "obeys_operator gs0 E (reply_holds gs0) (and_then_task (?check p) (\<lambda>_. ?claim)) gs1"
    if l1: "ledger gs0 E [] gs1" and pending: "map_of (reviews (gs_store gs1)) u = Some p" for p gs1
    unfolding obeys_and_then [of _ _ _ "?check p"]
  proof (rule quiet_operator_section [OF l1 revalidate_section])
    fix gs2 r gs3
    assume others: "bystander gs1 gs2" and l3: "ledger gs0 E [] gs3"
      and run: "on_world (revalidate_pending_request_with_config X' p (zg_filesystem g) (zg_config g)) gs2 = (r, gs3)"
    have "map_of (reviews (gs_store gs3)) u = Some p"
      using others pending revalidate_section [OF run] by (simp add: bystander_def same_shell_def)
    from claim_obeys [OF l3 g this E]
    show "case r of Ok _ \<Rightarrow> obeys_operator gs0 E (reply_holds gs0) ?claim gs3 | Err e \<Rightarrow> reply_holds gs0 (Err e) gs3"
      by (cases r) (simp_all del: obeys_and_then)
  qed
  let ?inspect = "atomically (inspect_pending_request u)"
  show ?thesis
    unfolding approve_task_def obeys_and_then [of _ _ _ ?inspect]
  proof (rule quiet_operator_section [OF l inspect_section(1)])
    fix gs1 r gs2 assume run: "inspect_pending_request u gs1 = (r, gs2)" and l2: "ledger gs0 E [] gs2"
    show "case r of Ok p \<Rightarrow> obeys_operator gs0 E (reply_holds gs0) (and_then_task (?check p) (\<lambda>_. ?claim)) gs2
      | Err e \<Rightarrow> reply_holds gs0 (Err e) gs2"
      using check [OF l2] inspect_section(2) [OF run] by (cases r) (simp_all del: obeys_and_then)
  qed
qed

lemma reject_task_obeys:
  assumes l: "ledger gs0 E [] gs" and g: "zg_audit g = anchored_persist X log"
  shows "obeys_operator gs0 E (reply_holds gs0) (reject_task X' J g u) gs"
proof -
  have finish: "obeys_operator gs0 E (reply_holds gs0) (and_then_task (audit_claimed_rejection_task X' J g p)
      (\<lambda>_. Done (Ok (Rejected p)))) gs1" if l1: "ledger gs0 E [] gs1" for p gs1
  proof -
    let ?Q = "\<lambda>(r :: (unit, gateway_error) result) s. case r of Ok _ \<Rightarrow> reply_holds gs0 (Ok (Rejected p) :: (admin_outcome, gateway_error) result) s
      | Err e \<Rightarrow> reply_holds gs0 (Err e :: (admin_outcome, gateway_error) result) s"
    let ?consume = "atomically (with_err RejectionNotConsumed (consume_claimed_request X' J (pr_request_id p)))"
    let ?rest = "\<lambda>r. case r of Err e \<Rightarrow> atomically (restore_and_fail X' J p e)
      | Ok _ \<Rightarrow> and_then_task ?consume (\<lambda>_. Done (Ok ()))"
    have "obeys_operator gs0 E (\<lambda>r. obeys_operator gs0 E ?Q (?rest r))
        (write_review_audit_task g Rejection NotExecuted p) gs1"
      using l1 g
    proof (rule review_audit_obeys)
      fix rec gs' assume l': "ledger gs0 E ([] @ [EvAudit rec, EvAuditSynced]) gs'"
        and rec: "decision_record Rejection (pr_request_id p) rec"
      let ?R = "\<lambda>(r :: (pending_review, gateway_error) result) s. case r of Ok _ \<Rightarrow> ?Q (Ok ()) s | Err e \<Rightarrow> ?Q (Err e) s"
      have "obeys_operator gs0 E ?R ?consume gs'"
        using l' keeps_with_err [OF extends_claims(4)]
      proof (rule operator_store_section)
        show "emits [] a b" if "with_err RejectionNotConsumed (consume_claimed_request X' J (pr_request_id p)) a = (r, b)" for a r b
          using that by (rule with_err_cases) (blast dest: store_handlers_emit_nothing(4))+
        fix a r b assume run: "with_err RejectionNotConsumed (consume_claimed_request X' J (pr_request_id p)) a = (r, b)"
          and lb: "ledger gs0 E ([] @ [EvAudit rec, EvAuditSynced]) b"
        show "?R r b"
        proof (cases r)
          case (Ok x)
          then have "map_of (claimed_reviews (gs_store b)) (pr_request_id p) = None"
            using run consume_request_gone by (simp add: with_err_eq_Ok)
          moreover have "synced_before (decision_record Rejection (pr_request_id p)) (new_events gs0 b) (length (new_events gs0 b))"
            using lb synced_last [where own = "[]" and P = "decision_record Rejection (pr_request_id p)", OF rec]
            by (simp add: ledger_def logged_def)
          ultimately show ?thesis by (simp add: Ok reply_holds_def outcome_id_def)
        qed simp
      qed
      then show "obeys_operator gs0 E ?Q (?rest (Ok ())) gs'"
        unfolding result.case obeys_and_then obeys.simps(1) by simp
    next
      fix e own gs' assume "ledger gs0 E own gs'"
      then show "obeys_operator gs0 E ?Q (?rest (Err e)) gs'"
        using restore_section_obeys [where Q = ?Q] by simp
    qed
    then show ?thesis
      unfolding audit_claimed_rejection_task_def obeys_and_then obeys_bind obeys.simps(1) .
  qed
  let ?claim = "atomically (reject_pending_request X' J u)"
  show ?thesis
    unfolding reject_task_def obeys_and_then [of _ _ _ ?claim]
    using l extends_claims(2)
  proof (rule operator_store_section)
    show "emits [] a b" if "reject_pending_request X' J u a = (r, b)" for a r b
      using that unfolding reject_pending_request_def by (rule store_handlers_emit_nothing(2))
    show "case r of Ok p \<Rightarrow> obeys_operator gs0 E (reply_holds gs0) (and_then_task (audit_claimed_rejection_task X' J g p)
        (\<lambda>_. Done (Ok (Rejected p)))) gs2 | Err e \<Rightarrow> reply_holds gs0 (Err e) gs2"
      if "ledger gs0 E [] gs2" for r gs2
      using finish [OF that] by (cases r) (simp_all del: obeys_and_then)
  qed
qed

lemma consume_request_outcome:
  assumes "consume_claimed_request X J u gs = (r, gs')"
  shows "r = Ok p \<Longrightarrow> map_of (claimed_reviews (gs_store gs)) u = Some p"
    and "r = Err (DurabilityUncertain e) \<Longrightarrow> map_of (claimed_reviews (gs_store gs')) u = None"
  using assms unfolding consume_claimed_request_def
  by (auto simp: locked_def store_consume_claimed_def Let_def elim!: on_store_runs
      split: if_splits option.splits prod.splits result.splits persistence_failure.splits)

lemma get_claimed_facts:
  assumes "get_claimed_section u gs = (r, gs')"
  shows "emits [] gs gs' \<and> same_shell gs gs'"
    and "r = Ok p \<Longrightarrow> map_of (claimed_reviews (gs_store gs')) u = Some p"
  using assms by (auto simp: get_claimed_section_def locked_def store_get_claimed_def ok_or_def
      split: if_splits option.splits)

lemma acknowledge_task_obeys:
  assumes l: "ledger gs0 E [] gs" and g: "zg_audit g = anchored_persist X log"
  shows "obeys_operator gs0 E (reply_holds gs0) (acknowledge_task X' J g u) gs"
proof -
  let ?told = "\<lambda>r. case r of
       Ok acknowledged \<Rightarrow> Ok (ClaimedAcknowledged acknowledged)
     | Err (NotCommitted error) \<Rightarrow> Err (ReconciliationNotConsumed error)
     | Err (DurabilityUncertain error) \<Rightarrow> Ok (AcknowledgementUncertain u error)"
  let ?rest = "\<lambda>r. case r of
       Ok acknowledged \<Rightarrow> Done (Ok (ClaimedAcknowledged acknowledged))
     | Err (NotCommitted error) \<Rightarrow> Done (Err (ReconciliationNotConsumed error))
     | Err (DurabilityUncertain error) \<Rightarrow> Done (Ok (AcknowledgementUncertain u error))"
  let ?consume = "atomically (consume_claimed_request X' J u)"
  have rest: "?rest r = Done (?told r)" for r
    by (simp split: result.splits consume_claimed_failure.splits)
  have consume: "obeys_operator gs0 E (reply_holds gs0) (bind_task ?consume ?rest) gs1"
    if l1: "ledger gs0 E [EvAudit rec, EvAuditSynced] gs1" and rec: "decision_record Reconciliation u rec" for rec gs1
    unfolding obeys_bind rest obeys.simps(1)
    using l1 extends_claims(4) store_handlers_emit_nothing(4)
  proof (rule operator_store_section)
    fix a r b assume la: "ledger gs0 E [EvAudit rec, EvAuditSynced] a" and run: "consume_claimed_request X' J u a = (r, b)"
      and lb: "ledger gs0 E [EvAudit rec, EvAuditSynced] b"
    have synced: "synced_before (decision_record Reconciliation u) (new_events gs0 b) (length (new_events gs0 b))"
      using lb synced_last [where own = "[]" and P = "decision_record Reconciliation u", OF rec]
      by (simp add: ledger_def logged_def)
    show "reply_holds gs0 (?told r) b"
    proof (cases r)
      case (Ok p)
      then have "pr_request_id p = u"
        using consume_request_outcome(1) [OF run] la keyed_entry by (auto simp: ledger_def well_typed_def)
      then show ?thesis
        using Ok synced consume_request_gone run by (simp add: reply_holds_def outcome_id_def)
    next
      case (Err f)
      then show ?thesis
        using synced consume_request_outcome(2) [OF run]
        by (cases f) (simp_all add: reply_holds_def outcome_id_def)
    qed
  qed
  let ?writes = "\<lambda>claimed. write_review_audit_task g Reconciliation Unknown claimed"
  have noted: "obeys_operator gs0 E (reply_holds gs0)
      (and_then_task (?writes claimed) (\<lambda>_. bind_task ?consume ?rest)) gs1"
    if l1: "ledger gs0 E [] gs1" and id: "pr_request_id claimed = u" for claimed gs1
    unfolding obeys_and_then [of _ _ _ "?writes claimed"]
    using l1 g
  proof (rule review_audit_obeys)
    fix rec gs' assume "ledger gs0 E ([] @ [EvAudit rec, EvAuditSynced]) gs'"
      and "decision_record Reconciliation (pr_request_id claimed) rec"
    then show "case Ok () of Ok _ \<Rightarrow> obeys_operator gs0 E (reply_holds gs0) (bind_task ?consume ?rest) gs'
        | Err e \<Rightarrow> reply_holds gs0 (Err e) gs'"
      using consume id by (simp del: obeys_bind)
  qed simp
  let ?get = "atomically (get_claimed_section u)"
  show ?thesis
    unfolding acknowledge_task_def obeys_and_then [of _ _ _ ?get]
  proof (rule quiet_operator_section [OF l get_claimed_facts(1)])
    fix gs1 r gs2 assume run: "get_claimed_section u gs1 = (r, gs2)" and l2: "ledger gs0 E [] gs2"
    show "case r of
        Ok claimed \<Rightarrow> obeys_operator gs0 E (reply_holds gs0)
          (and_then_task (?writes claimed) (\<lambda>_. bind_task ?consume ?rest)) gs2
      | Err e \<Rightarrow> reply_holds gs0 (Err e) gs2"
    proof (cases r)
      case (Ok claimed)
      then have "pr_request_id claimed = u"
        using get_claimed_facts(2) [OF run] l2 keyed_entry by (auto simp: ledger_def well_typed_def)
      then show ?thesis unfolding Ok result.case by (rule noted [OF l2])
    qed simp
  qed
qed

text \<open>Every command, and every connection.\<close>

lemma command_task_obeys:
  assumes "ledger gs0 E [] gs" and "zg_audit g = anchored_persist X log"
    and "E []" and "\<And>p e. effect_of_review p e \<Longrightarrow> E [e]"
  shows "obeys_operator gs0 E (reply_holds gs0) (command_task X' J g command) gs"
proof (cases command)
  case (Approve u)
  then show ?thesis using approve_task_obeys [OF assms] by (simp add: command_task_def)
next
  case (Reject u)
  then show ?thesis using reject_task_obeys [OF assms(1,2)] by (simp add: command_task_def)
next
  case (AcknowledgeClaimed u)
  then show ?thesis using acknowledge_task_obeys [OF assms(1,2)] by (simp add: command_task_def)
qed

lemma connection_task_obeys:
  assumes "ledger gs0 E [] gs" and "zg_audit g = anchored_persist X log"
    and "E []" and "\<And>p e. effect_of_review p e \<Longrightarrow> E [e]"
  shows "obeys_operator gs0 E (\<lambda>(r, line). reply_holds gs0 r) (connection_task X' J T g stream) gs"
proof -
  have told: "case respond stream f h r of (r', line) \<Rightarrow> reply_holds gs0 r' s"
    if "reply_holds gs0 r s" for f h r s
    using that by (cases r) (auto simp: respond_def reply_holds_def split: option.splits)
  have command: "obeys_operator gs0 E (\<lambda>r. obeys_operator gs0 E (\<lambda>(r, line). reply_holds gs0 r)
      (Done (respond stream f h (map_err CommandFailed r)))) (command_task X' J g command) gs" for command f h
  proof (rule obeys_weaken [OF command_task_obeys [OF assms]])
    fix s and r :: "(admin_outcome, gateway_error) result" assume "reply_holds gs0 r s"
    then have "reply_holds gs0 (map_err CommandFailed r) s"
      by (cases r) (auto simp: reply_holds_def)
    from told [OF this] show "obeys_operator gs0 E (\<lambda>(r, line). reply_holds gs0 r)
        (Done (respond stream f h (map_err CommandFailed r))) s"
      by (simp add: case_prod_unfold)
  qed simp_all
  have err: "obeys_operator gs0 E (\<lambda>(r, line). reply_holds gs0 r) (Done (respond stream f h (Err e))) gs" for f h e
    using told [of "Err e" gs f h] by (simp add: case_prod_unfold)
  show ?thesis
    unfolding connection_task_def using command err
    by (auto split: result.splits simp del: obeys.simps(1)) (simp_all add: reply_holds_def)
qed

end
