(* ===== verification/Concurrency.thy ===== *)
theory Concurrency
  imports Contracts
begin

text \<open>
  The running gateway with its threads: any number of calls of the tool in progress, one connection
  of the operator at a time (the accept loop takes the next one when the last is answered), and an
  environment that changes the world between any two sections.  The invariant says that every thread
  obeys its contract from where it is; from it follows what holds of the trace, of the answers and of
  the replies at every moment of every schedule.
\<close>

section \<open>Configurations and steps\<close>

text \<open>
  \<open>th_accepted\<close> is the shared state when the connection in progress was accepted, \<open>th_replies\<close> has
  for each finished connection what was added to the trace during it, the result and the line.
\<close>

record threads =
  th_shared :: gateway_state
  th_calls :: "(string, gateway_error) thread list"
  th_operator :: "(gateway_state, (admin_outcome, connection_error) result \<times> string option) task option"
  th_accepted :: gateway_state
  th_answers :: "(string, gateway_error) result list"
  th_replies :: "(event list \<times> (admin_outcome, connection_error) result \<times> string option) list"

definition idle :: "gateway_state \<Rightarrow> threads" where
  "idle gs = \<lparr>th_shared = gs, th_calls = [], th_operator = None, th_accepted = gs, th_answers = [], th_replies = []\<rparr>"

inductive thread_step ::
  "externals \<Rightarrow> store_json \<Rightarrow> error_texts \<Rightarrow> zyguor_gateway \<Rightarrow> threads \<Rightarrow> threads \<Rightarrow> bool"
  for X J T g
where
  Call: "thread_step X J T g c (c\<lparr>th_calls := th_calls c @ [execute_task X J g params]\<rparr>)"
| Call_Section: "i < length (th_calls c) \<Longrightarrow> th_calls c ! i = Section f \<Longrightarrow> f (th_shared c) = (t, gs') \<Longrightarrow>
     thread_step X J T g c (c\<lparr>th_shared := gs', th_calls := (th_calls c)[i := t]\<rparr>)"
| Answer: "i < length (th_calls c) \<Longrightarrow> th_calls c ! i = Done r \<Longrightarrow>
     thread_step X J T g c
       (c\<lparr>th_calls := take i (th_calls c) @ drop (Suc i) (th_calls c), th_answers := th_answers c @ [r]\<rparr>)"
| Connect: "th_operator c = None \<Longrightarrow>
     thread_step X J T g c
       (c\<lparr>th_operator := Some (connection_task X J T g stream), th_accepted := th_shared c\<rparr>)"
| Operator_Section: "th_operator c = Some (Section f) \<Longrightarrow> f (th_shared c) = (t, gs') \<Longrightarrow>
     thread_step X J T g c (c\<lparr>th_shared := gs', th_operator := Some t\<rparr>)"
| Reply: "th_operator c = Some (Done (r, line)) \<Longrightarrow>
     thread_step X J T g c
       (c\<lparr>th_operator := None,
          th_replies := th_replies c @ [(new_events (th_accepted c) (th_shared c), r, line)]\<rparr>)"
| Outside: "w_trace w' = trace (th_shared c) \<Longrightarrow>
     thread_step X J T g c
       (c\<lparr>th_shared := (th_shared c)\<lparr>gs_store_poisoned := a, gs_audit_poisoned := b, gs_world := w'\<rparr>\<rparr>)"

inductive thread_run ::
  "externals \<Rightarrow> store_json \<Rightarrow> (string \<Rightarrow> (gateway_config_file, string) result) \<Rightarrow> error_texts
   \<Rightarrow> zyguor_gateway \<Rightarrow> threads \<Rightarrow> bool"
  for X J toml T
where
  Start: "start_gateway X J toml w = (Ok rg, w') \<Longrightarrow> w_trace w = [] \<Longrightarrow>
     thread_run X J toml T (rg_gateway rg) (idle (rg_state rg))"
| Next: "thread_run X J toml T g c \<Longrightarrow> thread_step X J T g c c' \<Longrightarrow> thread_run X J toml T g c'"

section \<open>The invariant\<close>

text \<open>At most one effect of one reviewed request.\<close>

definition one_review :: "event list \<Rightarrow> bool" where
  "one_review es \<longleftrightarrow> es = [] \<or> (\<exists>p e. es = [e] \<and> effect_of_review p e)"

lemma one_review_intros: "one_review []" "effect_of_review p e \<Longrightarrow> one_review [e]"
  by (auto simp: one_review_def)

definition in_progress :: "threads \<Rightarrow> event list" where
  "in_progress c = (case th_operator c of None \<Rightarrow> [] | Some _ \<Rightarrow> new_events (th_accepted c) (th_shared c))"

definition connections :: "threads \<Rightarrow> event list list" where
  "connections c = List.map fst (th_replies c) @ [in_progress c]"

definition calls_ok :: "externals \<Rightarrow> threads \<Rightarrow> bool" where
  "calls_ok X c \<longleftrightarrow>
     (\<forall>t\<in>set (th_calls c). obeys_agent (answer_holds X) t (th_shared c)) \<and>
     (\<forall>r\<in>set (th_answers c). answer_holds X r (th_shared c))"

definition operator_ok :: "threads \<Rightarrow> bool" where
  "operator_ok c \<longleftrightarrow>
     (case th_operator c of
        None \<Rightarrow> True
      | Some t \<Rightarrow> prefix (trace (th_accepted c)) (trace (th_shared c)) \<and>
          one_review (filter needs_approval (new_events (th_accepted c) (th_shared c))) \<and>
          obeys_operator (th_accepted c) one_review (\<lambda>(r, line). reply_holds (th_accepted c) r) t (th_shared c))"

definition replies_ok :: "threads \<Rightarrow> bool" where
  "replies_ok c \<longleftrightarrow>
     (\<forall>(es, r, line)\<in>set (th_replies c). one_review (filter needs_approval es) \<and>
        (\<forall>out. r = Ok out \<longrightarrow> backed_outcome es out))"

definition threads_ok :: "externals \<Rightarrow> zyguor_gateway \<Rightarrow> threads \<Rightarrow> bool" where
  "threads_ok X g c \<longleftrightarrow>
     (\<exists>fc conf log. g = anchored_gateway X fc conf log \<and> validate_gateway_config (x_host_parse X) conf = Ok ()) \<and>
     answered (trace (th_shared c)) \<and> well_typed (gs_store (th_shared c)) \<and>
     calls_ok X c \<and> operator_ok c \<and> replies_ok c \<and>
     filter needs_approval (trace (th_shared c)) = concat (List.map (filter needs_approval) (connections c))"

lemma store_ok_well_typed: "store_ok st \<Longrightarrow> well_typed st"
  using store_ok_keyed by (simp add: well_typed_def)

text \<open>What a bystander does to the rest of a configuration.\<close>

lemma calls_later:
  assumes "calls_ok X c" and "extends (th_shared c) gs'"
  shows "calls_ok X (c\<lparr>th_shared := gs'\<rparr>)"
proof -
  have "obeys_agent (answer_holds X) t gs'" if "t \<in> set (th_calls c)" for t
    using assms that answer_holds_later by (intro tool_others.obeys_later [OF _ assms(2)]) (auto simp: calls_ok_def)
  moreover have "answer_holds X r gs'" if "r \<in> set (th_answers c)" for r
    using answer_holds_later [OF _ assms(2)] assms(1) that by (auto simp: calls_ok_def)
  ultimately show ?thesis by (simp add: calls_ok_def)
qed

lemma bystander_threads:
  assumes "threads_ok X g c" and "bystander (th_shared c) gs'"
  shows "threads_ok X g (c\<lparr>th_shared := gs'\<rparr>)"
proof -
  obtain es where es: "trace gs' = trace (th_shared c) @ es" "new_events (th_shared c) gs' = es"
    using extendsD [OF bystander_extends [OF assms(2)]] by blast
  have none: "filter needs_approval es = []" using assms(2) es(2) by (simp add: bystander_def)
  have ext: "extends (th_shared c) gs'" using assms(2) by (rule bystander_extends)
  have calls: "calls_ok X (c\<lparr>th_shared := gs'\<rparr>)"
    using assms(1) ext by (intro calls_later) (simp_all add: threads_ok_def)
  have more: "new_events (th_accepted c) gs' = new_events (th_accepted c) (th_shared c) @ es"
    if "prefix (trace (th_accepted c)) (trace (th_shared c))"
    using that es(1) by (rule new_events_append)
  have operator: "operator_ok (c\<lparr>th_shared := gs'\<rparr>)"
  proof (cases "th_operator c")
    case (Some t)
    then have old: "prefix (trace (th_accepted c)) (trace (th_shared c))"
      "one_review (filter needs_approval (new_events (th_accepted c) (th_shared c)))"
      "obeys_operator (th_accepted c) one_review (\<lambda>(r, line). reply_holds (th_accepted c) r) t (th_shared c)"
      using assms(1) by (simp_all add: threads_ok_def operator_ok_def)
    have "obeys_operator (th_accepted c) one_review (\<lambda>(r, line). reply_holds (th_accepted c) r) t gs'"
      using old(3) assms(2)
      by (rule operator_others.obeys_later) (auto intro: reply_holds_later [OF _ assms(2) old(1)])
    then show ?thesis
      using old more none es(1) Some by (simp add: operator_ok_def)
  qed (simp add: operator_ok_def)
  have "filter needs_approval (in_progress (c\<lparr>th_shared := gs'\<rparr>)) = filter needs_approval (in_progress c)"
    using assms(1) more none by (auto simp: in_progress_def threads_ok_def operator_ok_def split: option.splits)
  then show ?thesis
    using assms(1) calls operator ext es(1) none
    by (auto simp: threads_ok_def replies_ok_def connections_def extends_def)
qed

text \<open>What the operator's thread does to the rest.\<close>

lemma operator_step:
  assumes "threads_ok X g c" and "th_operator c = Some (Section f)" and "f (th_shared c) = (t, gs')"
  shows "threads_ok X g (c\<lparr>th_shared := gs', th_operator := Some t\<rparr>)"
proof -
  let ?gs0 = "th_accepted c"
  have old: "prefix (trace ?gs0) (trace (th_shared c))"
    "obeys_operator ?gs0 one_review (\<lambda>(r, line). reply_holds ?gs0 r) (Section f) (th_shared c)"
    using assms(1,2) by (simp_all add: threads_ok_def operator_ok_def)
  then have acts: "acts ?gs0 one_review (th_shared c) gs'"
    and rest: "obeys_operator ?gs0 one_review (\<lambda>(r, line). reply_holds ?gs0 r) t gs'"
    using operator_others.obeys_now [OF old(2) assms(3)] by simp_all
  then have ext: "extends (th_shared c) gs'" and one: "one_review (filter needs_approval (new_events ?gs0 gs'))"
    by (simp_all add: acts_def)
  obtain es where es: "trace gs' = trace (th_shared c) @ es" using extendsD [OF ext] .
  have more: "new_events ?gs0 gs' = new_events ?gs0 (th_shared c) @ es"
    using old(1) es by (rule new_events_append)
  have "calls_ok X (c\<lparr>th_shared := gs', th_operator := Some t\<rparr>)"
    using calls_later [OF _ ext] assms(1) by (simp add: threads_ok_def calls_ok_def)
  moreover have "operator_ok (c\<lparr>th_shared := gs', th_operator := Some t\<rparr>)"
    using old(1) es one rest by (simp add: operator_ok_def)
  ultimately show ?thesis
    using assms(1,2) ext es more
    by (auto simp: threads_ok_def replies_ok_def connections_def in_progress_def extends_def)
qed

lemma step_threads_ok:
  assumes "thread_step X J T g c c'" and "threads_ok X g c"
  shows "threads_ok X g c'"
proof -
  obtain fc conf log where g: "g = anchored_gateway X fc conf log"
    and valid: "validate_gateway_config (x_host_parse X) conf = Ok ()"
    using assms(2) unfolding threads_ok_def by blast
  have answered: "answered (trace (th_shared c))" and well_typed: "well_typed (gs_store (th_shared c))"
    using assms(2) by (simp_all add: threads_ok_def)
  from assms(1) show ?thesis
  proof (cases rule: thread_step.cases)
    case (Call params)
    have "obeys_agent (answer_holds X) (execute_task X J g params) (th_shared c)"
      unfolding g using answered validate_gateway_config_Ok(2) [OF valid] by (rule tool_task_obeys)
    then show ?thesis
      using assms(2) unfolding Call
      by (auto simp: threads_ok_def calls_ok_def operator_ok_def replies_ok_def connections_def in_progress_def
          split: option.splits)
  next
    case (Call_Section i f t gs')
    then have "obeys_agent (answer_holds X) (Section f) (th_shared c)"
      using assms(2) nth_mem [of i "th_calls c"] by (auto simp: threads_ok_def calls_ok_def)
    from tool_others.obeys_now [OF this Call_Section(4)]
    have step: "bystander (th_shared c) gs'" and rest: "obeys_agent (answer_holds X) t gs'" by simp_all
    have ok: "threads_ok X g (c\<lparr>th_shared := gs'\<rparr>)" using assms(2) step by (rule bystander_threads)
    then have "calls_ok X (c\<lparr>th_shared := gs', th_calls := (th_calls c)[i := t]\<rparr>)"
      using rest by (auto simp: threads_ok_def calls_ok_def dest!: set_update_subset_insert [THEN subsetD])
    then show ?thesis
      using ok unfolding Call_Section
      by (simp add: threads_ok_def operator_ok_def replies_ok_def connections_def in_progress_def
          split: option.splits)
  next
    case (Answer i r)
    then have "obeys_agent (answer_holds X) (Done r) (th_shared c)"
      using assms(2) nth_mem [of i "th_calls c"] by (auto simp: threads_ok_def calls_ok_def)
    then have "answer_holds X r (th_shared c)" by simp
    moreover have "set (take i (th_calls c) @ drop (Suc i) (th_calls c)) \<subseteq> set (th_calls c)"
      using set_take_subset set_drop_subset by (metis set_append Un_least)
    ultimately have "calls_ok X (c\<lparr>th_calls := take i (th_calls c) @ drop (Suc i) (th_calls c),
        th_answers := th_answers c @ [r]\<rparr>)"
      using assms(2) by (auto simp: threads_ok_def calls_ok_def)
    then show ?thesis
      using assms(2) unfolding Answer
      by (simp add: threads_ok_def operator_ok_def replies_ok_def connections_def in_progress_def
          split: option.splits)
  next
    case (Connect stream)
    have "zg_audit g = anchored_persist X log" by (simp add: g)
    from connection_task_obeys [OF ledger_start [where E = one_review, OF answered well_typed one_review_intros(1)] this one_review_intros]
    have "obeys_operator (th_shared c) one_review (\<lambda>(r, line). reply_holds (th_shared c) r)
        (connection_task X J T g stream) (th_shared c)" .
    then show ?thesis
      using assms(2) Connect(2) one_review_intros(1) unfolding Connect(1)
      by (simp add: threads_ok_def calls_ok_def operator_ok_def replies_ok_def connections_def in_progress_def
          new_events_def split: option.splits)
  next
    case (Operator_Section f t gs')
    then show ?thesis using assms(2) operator_step by simp
  next
    case (Reply r line)
    then have "reply_holds (th_accepted c) r (th_shared c)"
      and "one_review (filter needs_approval (new_events (th_accepted c) (th_shared c)))"
      using assms(2) by (simp_all add: threads_ok_def operator_ok_def)
    then show ?thesis
      using assms(2) Reply(2) unfolding Reply(1)
      by (auto simp: threads_ok_def calls_ok_def operator_ok_def replies_ok_def reply_holds_def connections_def in_progress_def
          split: option.splits)
  next
    case (Outside w' a b)
    then show ?thesis using bystander_threads [OF assms(2) outside_bystander] by simp
  qed
qed

lemma thread_invariant: "thread_run X J toml T g c \<Longrightarrow> threads_ok X g c"
proof (induction rule: thread_run.induct)
  case (Start w rg w')
  from Start(1) obtain fc conf log where "rg_gateway rg = anchored_gateway X fc conf log"
    and "validate_gateway_config (x_host_parse X) conf = Ok ()"
    and "store_ok (gs_store (rg_state rg))" and "quiet w (gs_world (rg_state rg))"
    by (rule start_gateway_Ok)
  moreover from this(4) have "trace (rg_state rg) = []" using Start(2) by (simp add: quiet_def)
  ultimately show ?case
    using answered_harmless [of "[]"] store_ok_well_typed
    by (auto simp: threads_ok_def idle_def calls_ok_def operator_ok_def replies_ok_def connections_def in_progress_def
          split: option.splits)
next
  case (Next g c c')
  then show ?case by (blast intro: step_threads_ok)
qed

end
