(* ===== verification/Anchored.thy ===== *)
theory Anchored
  imports Quiet Samples "HOL-Library.Code_Target_Nat"
begin

text \<open>
  Reading and writing through the open workspace directory.  The contract of that directory is a
  locale; a handle that walks plain directory entries from its inode provides it.  Under the
  contract, a write of \<open>filesystem.rs\<close> replaces the file as a whole or leaves it alone.
\<close>

section \<open>The contract\<close>

text \<open>Two entries of one directory.\<close>

definition siblings :: "path \<Rightarrow> path \<Rightarrow> bool" where
  "siblings p q \<longleftrightarrow>
     path_parent p = path_parent q \<and> path_file_name p \<noteq> None \<and> path_file_name q \<noteq> None \<and>
     path_file_name p \<noteq> path_file_name q"

lemma siblings_sym: "siblings p q \<Longrightarrow> siblings q p"
  by (auto simp: siblings_def)

text \<open>
  What \<open>create_new\<close>, \<open>rename\<close> and \<open>remove_file\<close> promise: a created file is new and empty and
  disturbs no other file, renaming a regular file moves it with its content and durable image,
  removing one leaves its siblings alone, and using an open file moves no name.
\<close>

locale anchored_directory =
  fixes D :: cap_dir
  assumes opened_exists: "cd_open_nofollow D p fs = Ok i \<Longrightarrow> fs_inodes fs i \<noteq> None"
    and created: "fs_wf fs \<Longrightarrow> cd_create_new D p fs = Ok (i, fs') \<Longrightarrow>
      fs_inodes fs i = None \<and> cd_open_nofollow D p fs' = Ok i \<and> file_content fs' i = Some [] \<and>
      (\<forall>j. j \<noteq> i \<longrightarrow> file_content fs' j = file_content fs j) \<and>
      (\<forall>q. siblings p q \<longrightarrow> cd_open_nofollow D q fs' = cd_open_nofollow D q fs)"
    and in_place:
      "cd_open_nofollow D p (fs_append i b fs) = cd_open_nofollow D p fs"
      "cd_open_nofollow D p (fs_chmod i m fs) = cd_open_nofollow D p fs"
      "cd_open_nofollow D p (fs_sync i fs) = cd_open_nofollow D p fs"
    and renamed: "siblings p q \<Longrightarrow> cd_open_nofollow D p fs = Ok i \<Longrightarrow> file_content fs i = Some c \<Longrightarrow>
      cd_rename D p q fs = Ok ((), fs') \<Longrightarrow>
      cd_open_nofollow D q fs' = Ok i \<and> file_content fs' i = Some c \<and> fs_stable fs' i = fs_stable fs i"
    and removed: "siblings p q \<Longrightarrow> cd_remove_file D p fs = Ok ((), fs') \<Longrightarrow>
      cd_open_nofollow D q fs' = cd_open_nofollow D q fs \<and> file_content fs' = file_content fs"

section \<open>Replacing a file under the contract\<close>

text \<open>
  What is seen at a path stays: the same file or error, and the same content.  Nothing but the
  inode \<open>i\<close> changes.
\<close>

definition undisturbed :: "cap_dir \<Rightarrow> path \<Rightarrow> fsys \<Rightarrow> fsys \<Rightarrow> bool" where
  "undisturbed D q fs fs' \<longleftrightarrow>
     cd_open_nofollow D q fs' = cd_open_nofollow D q fs \<and>
     (\<forall>j. cd_open_nofollow D q fs = Ok j \<longrightarrow> file_content fs' j = file_content fs j)"

definition only_inode :: "cap_dir \<Rightarrow> nat \<Rightarrow> world \<Rightarrow> world \<Rightarrow> bool" where
  "only_inode D i w w' \<longleftrightarrow>
     (\<forall>q. cd_open_nofollow D q (w_fs w') = cd_open_nofollow D q (w_fs w)) \<and>
     (\<forall>j. j \<noteq> i \<longrightarrow> file_content (w_fs w') j = file_content (w_fs w) j)"

lemma only_inode_order: "reflp (only_inode D i)" "transp (only_inode D i)"
  by (auto simp: only_inode_def reflp_def transp_def)

text \<open>A file holding these bytes, which a crash cannot take back.\<close>

definition holds_synced :: "fsys \<Rightarrow> nat \<Rightarrow> string \<Rightarrow> bool" where
  "holds_synced fs i c \<longleftrightarrow>
     file_content fs i = Some c \<and> map_option ino_node (fs_stable fs i) = Some (FileNode c)"

lemma file_content_node: "file_content fs i = Some c \<Longrightarrow> map_option ino_node (fs_inodes fs i) = Some (FileNode c)"
  by (auto simp: file_content_def split: option.splits node.splits)

context anchored_directory
begin

lemma in_place_calls:
  "keeps (only_inode D i) (sys_chmod i m)" "keeps (only_inode D i) (sys_write_all i b)"
  "keeps (only_inode D i) (sys_sync i)"
  by (auto intro!: keepsI simp: only_inode_def in_place fs_simps sys_chmod_def sys_write_all_def sys_sync_def sys_update_def
      split: option.splits prod.splits)

lemmas in_place_intros =
  in_place_calls keeps_and_then [OF only_inode_order(2)] keeps_with_err
  keeps_pure [OF only_inode_order(1)] keeps_option

lemma undisturbed_by:
  assumes "fs_inodes fs i = None" and "siblings t q"
    and "fs_wf fs" and "cd_create_new D t fs = Ok (i, w_fs w1)" and "only_inode D i w1 w2"
  shows "undisturbed D q fs (w_fs w2)"
proof -
  note new = created [OF assms(3,4)]
  have "cd_open_nofollow D q fs = Ok j \<Longrightarrow> j \<noteq> i" for j
    using opened_exists [of q fs j] assms(1) by auto
  then show ?thesis
    using new assms(2,5) by (auto simp: undisturbed_def only_inode_def)
qed

lemma temporary_written:
  assumes "and_then (case m of None \<Rightarrow> ret () | Some mode \<Rightarrow> with_err PreservePermissions (sys_chmod i mode)) (\<lambda>_.
      and_then (with_err WriteTemporary (sys_write_all i content)) (\<lambda>_.
      with_err SyncTemporary (sys_sync i))) w = (Ok u, w')"
    and "file_content (w_fs w) i = Some []"
  shows "holds_synced (w_fs w') i content"
proof -
  from assms(1) obtain v w1 w2 where first: "(case m of None \<Rightarrow> ret ()
        | Some mode \<Rightarrow> with_err PreservePermissions (sys_chmod i mode)) w = (Ok v, w1)"
    and data: "sys_write_all i content w1 = (Ok (), w2)" and synced: "sys_sync i w2 = (Ok u, w')"
    by (auto simp: with_err_eq_Ok elim!: and_then_OkE)
  have perms: "file_content (w_fs w1) i = file_content (w_fs w) i"
    using first by (cases m) (auto simp: with_err_eq_Ok fs_simps dest!: sys_chmod_OkD)
  have "file_content (w_fs w') i = Some content"
    using perms assms(2) sys_write_all_OkD [OF data] sys_sync_OkD [OF synced] by (simp add: fs_simps)
  moreover have "fs_stable (w_fs w') i = fs_inodes (w_fs w') i"
    using sys_sync_OkD [OF synced] by (simp add: fs_simps)
  ultimately show ?thesis by (simp add: holds_synced_def file_content_node)
qed

lemma replaced:
  assumes "replace_through_temporary D t q m name content w = (r, w')"
    and "fs_wf (w_fs w)" and "siblings t q"
  shows "(case r of Ok _ \<Rightarrow> \<exists>i. cd_open_nofollow D q (w_fs w') = Ok i \<and> holds_synced (w_fs w') i content
          | Err e \<Rightarrow> undisturbed D q (w_fs w) (w_fs w'))"
proof -
  let ?fill = "\<lambda>i. and_then (case m of None \<Rightarrow> ret () | Some mode \<Rightarrow> with_err PreservePermissions (sys_chmod i mode)) (\<lambda>_.
      and_then (with_err WriteTemporary (sys_write_all i content)) (\<lambda>_.
      with_err SyncTemporary (sys_sync i)))"
  let ?swap = "and_then (with_err ReplaceTarget (sys_update (cd_rename D t q)))
      (\<lambda>_ w. (Ok (), emit (EvReplaced name content) w))"
  have "and_then (with_err CreateTemporary (sys_update (cd_create_new D t)))
      (\<lambda>i. and_then (?fill i) (\<lambda>_. ?swap)) w = (r, w')"
    using assms(1) by (simp add: replace_through_temporary_def and_then_assoc)
  then show ?thesis
  proof (cases rule: and_then_cases)
    case (1 e)
    then show ?thesis by (auto simp: undisturbed_def dest: sys_update_ErrD elim!: with_err_cases)
  next
    case (2 i w1)
    then have create: "cd_create_new D t (w_fs w) = Ok (i, w_fs w1)"
      by (auto simp: with_err_eq_Ok dest!: sys_update_OkD)
    note new = created [OF assms(2) create]
    note safe = undisturbed_by [OF _ assms(3,2) create]
    have fill: "keeps (only_inode D i) (?fill i)" by (intro in_place_intros)
    from 2(2) show ?thesis
    proof (cases rule: and_then_cases)
      case (1 e)
      then show ?thesis using safe keepsD [OF fill 1(1)] new by simp
    next
      case (2 u w2)
      have kept: "only_inode D i w1 w2" using fill 2(1) by (rule keepsD)
      have written: "holds_synced (w_fs w2) i content"
        using temporary_written [OF 2(1)] new by simp
      have opened: "cd_open_nofollow D t (w_fs w2) = Ok i"
        using kept new by (simp add: only_inode_def)
      from 2(2) show ?thesis
      proof (cases rule: and_then_cases)
        case (1 e)
        then have "w_fs w' = w_fs w2" by (auto dest: sys_update_ErrD elim!: with_err_cases)
        then show ?thesis using 1 safe kept new by simp
      next
        case (2 v w3)
        then have rename: "cd_rename D t q (w_fs w2) = Ok ((), w_fs w3)" and w': "w_fs w' = w_fs w3" "r = Ok ()"
          by (auto simp: with_err_eq_Ok emit_def dest!: sys_update_OkD)
        show ?thesis
          using renamed [OF assms(3) opened _ rename] written w' by (auto simp: holds_synced_def)
      qed
    qed
  qed
qed

lemma removal_undisturbed:
  assumes "siblings t q" and "undisturbed D q fs (w_fs w)"
  shows "undisturbed D q fs (w_fs (ignore_err (sys_update (cd_remove_file D t)) w))"
proof -
  obtain r w' where run: "sys_update (cd_remove_file D t) w = (r, w')" by fastforce
  then have "w_fs w' = w_fs w \<or> cd_remove_file D t (w_fs w) = Ok ((), w_fs w')"
    by (cases r) (auto dest: sys_update_OkD sys_update_ErrD)
  then show ?thesis
    using removed [OF assms(1)] assms(2) run by (auto simp: ignore_err_def undisturbed_def)
qed

text \<open>The whole write: the file is replaced by a synced one with the new content, or a reader of the
  path sees what was there before.\<close>

lemma write_text_file_runs:
  assumes "write_text_file X fc requested content w = (r, w')"
    and "fc_workspace_dir fc = Some D" and "fs_wf (w_fs w)"
    and "\<And>u. path_file_name (path_of requested) \<noteq> Some (temporary_write_name X u)"
  shows "(case r of
      Ok _ \<Rightarrow> length content \<le> MAX_WRITE_BYTES \<and>
        (\<exists>i. cd_open_nofollow D (path_of requested) (w_fs w') = Ok i \<and> holds_synced (w_fs w') i content)
    | Err e \<Rightarrow> undisturbed D (path_of requested) (w_fs w) (w_fs w'))"
proof -
  let ?target = "path_of requested"
  have same: ?thesis if "w_fs w' = w_fs w" "is_err r"
    using that by (cases r) (simp_all add: undisturbed_def)
  show ?thesis
  proof (cases "length content \<le> MAX_WRITE_BYTES \<and> check_relative ?target = Ok () \<and> path_file_name ?target \<noteq> None")
    case False
    have "w' = w \<and> is_err r"
    proof (cases "check_relative ?target")
      case (Err e)
      then have "w' = w \<and> (r = Err e \<or> is_err r)"
        using assms(1) by (auto simp: write_text_file_def Let_def split: if_splits)
      then show ?thesis by auto
    qed (use assms(1) False in \<open>auto simp: write_text_file_def Let_def split: if_splits\<close>)
    then show ?thesis using same by simp
  next
    case True
    then obtain name where name: "path_file_name ?target = Some name" by blast
    then have target: "?target = butlast ?target @ [Normal name]" by (rule path_file_name_SomeD)
    have parent: "path_parent ?target = Some (butlast ?target)"
      by (subst target) (simp only: path_parent_simps)
    have parent_or_root: "(case path_parent ?target of None \<Rightarrow> [] | Some p \<Rightarrow> p) = butlast ?target"
      by (simp add: parent)
    let ?temporary = "\<lambda>u. butlast ?target @ [Normal (temporary_write_name X u)]"
    have temporary: "(if butlast ?target = [] then [Normal (temporary_write_name X u)]
      else path_join (butlast ?target) [Normal (temporary_write_name X u)]) = ?temporary u" for u
      by (simp add: path_join_def)
    have siblings: "siblings (?temporary u) ?target" for u
      unfolding siblings_def parent using assms(4) name by auto
    have rest: "and_then (revalidate_write_target fc requested) (\<lambda>_ w.
        case (case sys_read (cd_symlink_metadata D ?target) w of
                (Ok metadata, w1) \<Rightarrow> (Ok (Some (md_mode metadata)), w1)
              | (Err e, w1) \<Rightarrow> if e = NotFound then (Ok None, w1) else (Err (ReadTargetMetadata e), w1)) of
          (Err e, w1) \<Rightarrow> (Err e, w1)
        | (Ok m, w1) \<Rightarrow> (case new_uuid w1 of (u, w2) \<Rightarrow>
            (case replace_through_temporary D (?temporary u) ?target m requested content w2 of
               (Ok _, w3) \<Rightarrow> (Ok (), w3)
             | (Err e, w3) \<Rightarrow> (Err e, ignore_err (sys_update (cd_remove_file D (?temporary u))) w3)))) w = (r, w')"
      using assms(1) [unfolded write_text_file_def Let_def parent_or_root temporary] assms(2) True by simp
    then show ?thesis
    proof (cases rule: and_then_cases)
      case (1 e)
      then show ?thesis using same keepsD [OF same_fs_revalidate_write] by (simp add: same_fs_def)
    next
      case (2 v w1)
      have fs1: "w_fs w1 = w_fs w" using keepsD [OF same_fs_revalidate_write 2(1)] by (simp add: same_fs_def)
      obtain q w2 where inspect: "sys_read (cd_symlink_metadata D ?target) w1 = (q, w2)" by fastforce
      have fs2: "w_fs w2 = w_fs w" using sys_read_fs [OF inspect] fs1 by simp
      obtain u w3 where id: "new_uuid w2 = (u, w3)" by fastforce
      have fs3: "w_fs w3 = w_fs w" using id fs2 by (auto simp: new_uuid_def)
      show ?thesis
      proof (cases "q \<in> range Ok \<or> q = Err NotFound")
        case False
        then show ?thesis using 2(2) inspect fs2 same by (cases q) auto
      next
        case True
        define m where "m = (case q of Ok metadata \<Rightarrow> Some (md_mode metadata) | Err _ \<Rightarrow> None)"
        obtain p w4 where run: "replace_through_temporary D (?temporary u) ?target m requested content w3 = (p, w4)"
          by fastforce
        have ended: "(case p of (Ok _) \<Rightarrow> (Ok (), w4)
             | (Err e) \<Rightarrow> (Err e, ignore_err (sys_update (cd_remove_file D (?temporary u))) w4)) = (r, w')"
          using 2(2) inspect True id run by (auto simp: m_def)
        have outcome: "case p of Ok _ \<Rightarrow> \<exists>i. cd_open_nofollow D ?target (w_fs w4) = Ok i \<and> holds_synced (w_fs w4) i content
          | Err e \<Rightarrow> undisturbed D ?target (w_fs w3) (w_fs w4)"
          by (rule replaced [OF run _ siblings]) (use fs3 assms(3) in simp)
        show ?thesis
        proof (cases p)
          case (Ok x)
          then show ?thesis using ended outcome \<open>length content \<le> MAX_WRITE_BYTES \<and> _\<close> by auto
        next
          case (Err e)
          then have "undisturbed D ?target (w_fs w) (w_fs w4)" using outcome fs3 by simp
          then show ?thesis using ended Err removal_undisturbed [OF siblings] by auto
        qed
      qed
    qed
  qed
qed

end

section \<open>A directory handle\<close>

text \<open>
  A handle on the directory \<open>d\<close> that walks plain entries: a component that is not the name of a
  directory leads nowhere, so no link is followed and nothing above \<open>d\<close> is reached.
\<close>

definition subdirectory :: "fsys \<Rightarrow> nat \<Rightarrow> string \<Rightarrow> nat option" where
  "subdirectory fs d n =
     (case dir_lookup fs d n of None \<Rightarrow> None | Some i \<Rightarrow> if dir_entries fs i = None then None else Some i)"

fun handle_dir :: "fsys \<Rightarrow> nat \<Rightarrow> path \<Rightarrow> nat option" where
  "handle_dir fs d [] = Some d"
| "handle_dir fs d (Normal n # p) =
     (case subdirectory fs d n of None \<Rightarrow> None | Some i \<Rightarrow> handle_dir fs i p)"
| "handle_dir fs d (CurDir # p) = handle_dir fs d p"
| "handle_dir fs d (_ # p) = None"

definition at_entry ::
  "nat \<Rightarrow> path \<Rightarrow> fsys \<Rightarrow> (nat \<Rightarrow> string \<Rightarrow> ('a, io_error) result) \<Rightarrow> ('a, io_error) result" where
  "at_entry d p fs f =
     (case path_file_name p of
        None \<Rightarrow> Err (OtherIo ''Invalid argument'')
      | Some n \<Rightarrow> (case handle_dir fs d (butlast p) of None \<Rightarrow> Err NotFound | Some e \<Rightarrow> f e n))"

definition dir_handle :: "nat \<Rightarrow> cap_dir" where
  "dir_handle d =
     \<lparr>cd_open_dir_nofollow = (\<lambda>p fs. if handle_dir fs d p = None then Err NotFound else Ok ()),
      cd_symlink_metadata = (\<lambda>p fs. at_entry d p fs
        (\<lambda>e n. bind_result (ok_or NotFound (dir_lookup fs e n)) (stat_inode fs))),
      cd_open_nofollow = (\<lambda>p fs. at_entry d p fs (\<lambda>e n. fs_open_at False e n fs)),
      cd_create_new = (\<lambda>p fs. at_entry d p fs (\<lambda>e n. fs_create_at e n mode_owner_only fs)),
      cd_rename = (\<lambda>p q fs. at_entry d p fs (\<lambda>e n. at_entry d q fs
        (\<lambda>e' n'. if e' \<noteq> e then Err (OtherIo ''Invalid cross-device link'') else fs_rename_at e n n' fs))),
      cd_remove_file = (\<lambda>p fs. at_entry d p fs (\<lambda>e n. fs_unlink_at e n fs))\<rparr>"

lemma handle_dir_cong:
  "(\<And>e n. subdirectory fs' e n = subdirectory fs e n) \<Longrightarrow> handle_dir fs' d p = handle_dir fs d p"
  by (induction fs d p rule: handle_dir.induct) (auto split: option.splits)

text \<open>Opening an entry looks at the entry and at the kind of what it names.\<close>

lemma fs_open_at_cong:
  assumes "dir_lookup fs' e n = dir_lookup fs e n"
    and "dir_entries fs' e = None \<longleftrightarrow> dir_entries fs e = None"
    and "\<And>i. dir_lookup fs e n = Some i \<Longrightarrow>
      map_option (node_kind \<circ> ino_node) (fs_inodes fs' i) = map_option (node_kind \<circ> ino_node) (fs_inodes fs i)"
  shows "fs_open_at False e n fs' = fs_open_at False e n fs"
proof -
  have same: "fs_open_at False e n g = (if dir_entries g e = None then Err NotADirectory
      else (case dir_lookup g e n of None \<Rightarrow> Err NotFound | Some i \<Rightarrow>
        (case map_option (node_kind \<circ> ino_node) (fs_inodes g i) of None \<Rightarrow> Err NotFound
         | Some KSymlink \<Rightarrow> Err FilesystemLoop
         | Some KSocket \<Rightarrow> Err (OtherIo ''No such device or address'')
         | Some _ \<Rightarrow> Ok i)))" for g
    by (auto simp: fs_open_at_def dir_lookup_def node_kind_def split: option.splits node.splits)
  show ?thesis unfolding same using assms by (auto split: option.splits)
qed

text \<open>Updates of one directory that neither add nor remove a way to a subdirectory.\<close>

lemma subdirectory_update:
  assumes "\<And>n. n \<noteq> a \<Longrightarrow> n \<noteq> b \<Longrightarrow> dir_lookup fs' e n = dir_lookup fs e n"
    and "\<And>x n. x \<noteq> e \<Longrightarrow> dir_lookup fs' x n = dir_lookup fs x n"
    and "\<And>x i. dir_lookup fs x n = Some i \<Longrightarrow> dir_entries fs' i = None \<longleftrightarrow> dir_entries fs i = None"
    and "subdirectory fs e a = None" "subdirectory fs e b = None"
    and "subdirectory fs' e a = None" "subdirectory fs' e b = None"
  shows "subdirectory fs' x n = subdirectory fs x n"
proof (cases "x = e \<and> (n = a \<or> n = b)")
  case False
  then have "dir_lookup fs' x n = dir_lookup fs x n" using assms(1,2) by metis
  then show ?thesis using assms(3) by (auto simp: subdirectory_def split: option.splits)
qed (use assms(4-7) in auto)

lemma handle_dir_fs [fs_simps]:
  "handle_dir (fs_append i b fs) d p = handle_dir fs d p"
  "handle_dir (fs_chmod i m fs) d p = handle_dir fs d p"
  "handle_dir (fs_sync i fs) d p = handle_dir fs d p"
  by (rule handle_dir_cong; simp add: subdirectory_def fs_simps cong: option.case_cong)+

lemma node_kind_in_place:
  "map_option (node_kind \<circ> ino_node) (fs_inodes (fs_append i b fs) j) = map_option (node_kind \<circ> ino_node) (fs_inodes fs j)"
  "map_option (node_kind \<circ> ino_node) (fs_inodes (fs_chmod i m fs) j) = map_option (node_kind \<circ> ino_node) (fs_inodes fs j)"
  "map_option (node_kind \<circ> ino_node) (fs_inodes (set_entries e es fs) j) =
     (if j = e \<and> fs_inodes fs e \<noteq> None then Some KDir else map_option (node_kind \<circ> ino_node) (fs_inodes fs j))"
  by (auto simp: fs_append_def fs_chmod_def set_entries_def set_inode_def node_kind_def
      split: option.splits node.splits)

lemma fs_open_at_in_place:
  "fs_open_at False e n (fs_append i b fs) = fs_open_at False e n fs"
  "fs_open_at False e n (fs_chmod i m fs) = fs_open_at False e n fs"
  "fs_open_at False e n (fs_sync i fs) = fs_open_at False e n fs"
  by (rule fs_open_at_cong; simp add: fs_simps node_kind_in_place)+

lemma subdirectory_file: "dir_lookup fs e n = Some i \<Longrightarrow> dir_entries fs i = None \<Longrightarrow> subdirectory fs e n = None"
  by (simp add: subdirectory_def)

lemma subdirectory_absent: "dir_lookup fs e n = None \<Longrightarrow> subdirectory fs e n = None"
  by (simp add: subdirectory_def)

text \<open>The three updates of a directory, as a handle sees them.\<close>

lemma create_seen:
  assumes "fs_create_at e name m fs = Ok (i, fs')" and "fs_wf fs"
  shows "handle_dir fs' d p = handle_dir fs d p"
    and "n \<noteq> name \<Longrightarrow> fs_open_at False x n fs' = fs_open_at False x n fs"
    and "fs_open_at False e name fs' = Ok i" and "fs_inodes fs i = None"
proof -
  note c = fs_create_at_Ok [OF assms]
  obtain es where es: "dir_entries fs e = Some es" using c(8) by blast
  let ?fs1 = "set_inode i \<lparr>ino_node = FileNode [], ino_dev = (case fs_inodes fs e of Some n \<Rightarrow> ino_dev n | None \<Rightarrow> 0),
      ino_mode = m\<rparr> (fs\<lparr>fs_fresh := Suc i\<rparr>)"
  have fs': "fs' = set_entries e (AList.update name i es) ?fs1"
    using assms(1) es c(1) by (auto simp: fs_create_at_def Let_def split: if_splits)
  have e1: "dir_entries ?fs1 e = Some es" using es c(2) by (simp add: fs_simps)
  show none: "fs_inodes fs i = None" using fs_wf_unused [OF assms(2)] c(1) by simp
  then have i: "dir_entries fs i = None" by (simp add: dir_entries_def)
  have dirs: "dir_entries fs' x = None \<longleftrightarrow> dir_entries fs x = None" for x
    using e1 es i by (auto simp: fs' fs_simps)
  have others: "dir_lookup fs' x n = dir_lookup fs x n" if "x \<noteq> e" for x n
    using e1 i that by (auto simp: fs' fs_simps dir_lookup_def)
  have i': "dir_entries fs' i = None" using dirs i by simp
  have "subdirectory fs' x n = subdirectory fs x n" for x n
    by (rule subdirectory_update [where e = e and a = name and b = name])
      (use others dirs c(3,4) i' in \<open>auto simp: subdirectory_def\<close>)
  then show "handle_dir fs' d p = handle_dir fs d p" by (rule handle_dir_cong)
  have kinds: "map_option (node_kind \<circ> ino_node) (fs_inodes fs' j) = map_option (node_kind \<circ> ino_node) (fs_inodes fs j)"
    if "j \<noteq> i" for j
  proof -
    have "map_option (node_kind \<circ> ino_node) (fs_inodes fs e) = Some KDir"
      using es by (auto simp: dir_entries_def node_kind_def split: option.splits node.splits)
    then show ?thesis using that e1 by (auto simp: fs' node_kind_in_place fs_simps)
  qed
  show "fs_open_at False x n fs' = fs_open_at False x n fs" if "n \<noteq> name"
  proof (rule fs_open_at_cong)
    show "dir_lookup fs' x n = dir_lookup fs x n" using others c(4) that by (cases "x = e") auto
    show "dir_entries fs' x = None \<longleftrightarrow> dir_entries fs x = None" by (rule dirs)
    show "map_option (node_kind \<circ> ino_node) (fs_inodes fs' j) = map_option (node_kind \<circ> ino_node) (fs_inodes fs j)"
      if "dir_lookup fs x n = Some j" for j
      using fs_wf_entry [OF assms(2) that] c(1) by (intro kinds) simp
  qed
  have "fs_inodes fs' i \<noteq> None" using c(7) by auto
  moreover have "file_content fs' i = Some []" using c(5) by simp
  ultimately show "fs_open_at False e name fs' = Ok i"
    using c(4) [of name] by (auto simp: fs_open_at_def dir_lookup_def file_content_def split: option.splits node.splits)
qed

lemma entries_kind: "dir_entries fs e = Some es \<Longrightarrow> map_option (node_kind \<circ> ino_node) (fs_inodes fs e) = Some KDir"
  by (auto simp: dir_entries_def node_kind_def split: option.splits node.splits)

lemma set_entries_seen:
  assumes "dir_entries fs e = Some es"
  shows "dir_entries (set_entries e es' fs) x = None \<longleftrightarrow> dir_entries fs x = None"
    and "x \<noteq> e \<Longrightarrow> dir_lookup (set_entries e es' fs) x n = dir_lookup fs x n"
    and "map_option (node_kind \<circ> ino_node) (fs_inodes (set_entries e es' fs) j) =
      map_option (node_kind \<circ> ino_node) (fs_inodes fs j)"
  using assms entries_kind [OF assms] by (auto simp: fs_simps dir_lookup_def node_kind_in_place)

lemma rename_seen:
  assumes "fs_rename_at e a b fs = Ok (u, fs')" and "a \<noteq> b"
    and "fs_open_at False e a fs = Ok i" and "file_content fs i = Some c"
  shows "handle_dir fs' d p = handle_dir fs d p" and "fs_open_at False e b fs' = Ok i"
proof -
  note r = fs_rename_at_Ok [OF assms(1,2)]
  obtain es where es: "dir_entries fs e = Some es" "map_of es a = Some i"
    using assms(3) by (auto simp: fs_open_at_def split: option.splits node.splits)
  then have fs': "fs' = set_entries e (AList.update b i (AList.delete a es)) fs"
    and target: "map_of es b = Some j \<Longrightarrow> dir_entries fs j = None" for j
    using assms(1) by (auto simp: fs_rename_at_def split: option.splits if_splits)
  note seen = set_entries_seen [OF es(1), where es' = "AList.update b i (AList.delete a es)", folded fs']
  have i: "dir_entries fs i = None" "dir_lookup fs e a = Some i"
    using file_not_dir [OF assms(4)] es by (simp_all add: dir_lookup_def)
  have "subdirectory fs' x n = subdirectory fs x n" for x n
    by (rule subdirectory_update [where e = e and a = a and b = b])
      (use r(1) seen(1,2) i es target assms(2) in \<open>auto simp: subdirectory_def dir_lookup_def split: option.splits\<close>)
  then show "handle_dir fs' d p = handle_dir fs d p" by (rule handle_dir_cong)
  have "file_content fs' i = Some c" using r(2) assms(4) by simp
  then show "fs_open_at False e b fs' = Ok i"
    using r(1) [of b] i(2) by (auto simp: fs_open_at_def dir_lookup_def file_content_def split: option.splits node.splits)
qed

lemma unlink_seen:
  assumes "fs_unlink_at e a fs = Ok (u, fs')"
  shows "handle_dir fs' d p = handle_dir fs d p"
    and "n \<noteq> a \<Longrightarrow> fs_open_at False e n fs' = fs_open_at False e n fs"
proof -
  obtain es where es: "dir_entries fs e = Some es" and fs': "fs' = set_entries e (AList.delete a es) fs"
    and target: "map_of es a = Some j \<Longrightarrow> dir_entries fs j = None" for j
    using assms by (auto simp: fs_unlink_at_def split: option.splits if_splits)
  note seen = set_entries_seen [OF es, where es' = "AList.delete a es", folded fs']
  note r = fs_unlink_at_Ok [OF assms]
  have "subdirectory fs' x n = subdirectory fs x n" for x n
    by (rule subdirectory_update [where e = e and a = a and b = a])
      (use r(1) seen(1,2) es target in \<open>auto simp: subdirectory_def dir_lookup_def split: option.splits\<close>)
  then show "handle_dir fs' d p = handle_dir fs d p" by (rule handle_dir_cong)
  show "fs_open_at False e n fs' = fs_open_at False e n fs" if "n \<noteq> a"
    by (rule fs_open_at_cong) (use that r(1) seen(1,3) in simp_all)
qed

lemma at_entry_Ok:
  "at_entry d p fs f = Ok x \<longleftrightarrow>
   (\<exists>n e. path_file_name p = Some n \<and> handle_dir fs d (butlast p) = Some e \<and> f e n = Ok x)"
  by (auto simp: at_entry_def split: option.splits)

lemma siblings_iff:
  assumes "path_file_name p = Some n"
  shows "siblings p q \<longleftrightarrow> butlast q = butlast p \<and> (\<exists>m. path_file_name q = Some m \<and> m \<noteq> n)"
proof -
  have parent: "path_parent x = Some (butlast x)" if "path_file_name x = Some k" for x k
    by (metis path_file_name_SomeD [OF that] path_parent_simps(5))
  show ?thesis using assms parent by (auto simp: siblings_def)
qed

lemma opened_inode: "fs_open_at False e n fs = Ok i \<Longrightarrow> fs_inodes fs i \<noteq> None"
  by (auto simp: fs_open_at_def split: option.splits node.splits)

interpretation handle: anchored_directory "dir_handle d" for d
proof (unfold_locales, goal_cases)
  case (1 p fs i)
  then show ?case by (auto simp: dir_handle_def at_entry_Ok simp del: not_None_eq dest: opened_inode)
next
  case (2 fs p i fs')
  then obtain n e where n: "path_file_name p = Some n" "handle_dir fs d (butlast p) = Some e"
    and run: "fs_create_at e n mode_owner_only fs = Ok (i, fs')"
    by (auto simp: dir_handle_def at_entry_Ok)
  note seen = create_seen [OF run 2(1)] and content = fs_create_at_Ok(5) [OF run 2(1)]
  have "cd_open_nofollow (dir_handle d) q fs' = cd_open_nofollow (dir_handle d) q fs" if "siblings p q" for q
    using that seen(1,2) n by (auto simp: dir_handle_def at_entry_def siblings_iff)
  then show ?case
    using seen n content by (auto simp: dir_handle_def at_entry_def)
next
  case (3 p i b fs)
  then show ?case by (simp add: dir_handle_def at_entry_def fs_simps fs_open_at_in_place cong: option.case_cong)
next
  case (4 p i m fs)
  then show ?case by (simp add: dir_handle_def at_entry_def fs_simps fs_open_at_in_place cong: option.case_cong)
next
  case (5 p i fs)
  then show ?case by (simp add: dir_handle_def at_entry_def fs_simps fs_open_at_in_place cong: option.case_cong)
next
  case (6 p q fs i c fs')
  then obtain a b e where names: "path_file_name p = Some a" "path_file_name q = Some b" "a \<noteq> b"
    "handle_dir fs d (butlast p) = Some e" "butlast q = butlast p"
    and opened: "fs_open_at False e a fs = Ok i" and run: "fs_rename_at e a b fs = Ok ((), fs')"
    by (auto simp: dir_handle_def at_entry_Ok siblings_iff split: if_splits)
  then show ?case
    using rename_seen [OF run names(3) opened 6(3)] fs_rename_at_Ok(2,3) [OF run names(3)] 6(3)
    by (auto simp: dir_handle_def at_entry_def)
next
  case (7 p q fs fs')
  then obtain a e where a: "path_file_name p = Some a" "handle_dir fs d (butlast p) = Some e"
    and run: "fs_unlink_at e a fs = Ok ((), fs')"
    by (auto simp: dir_handle_def at_entry_Ok)
  have "cd_open_nofollow (dir_handle d) q fs' = cd_open_nofollow (dir_handle d) q fs"
    using 7(1) unlink_seen [OF run] a by (auto simp: dir_handle_def at_entry_def siblings_iff)
  moreover have "file_content fs' = file_content fs"
    using fs_unlink_at_Ok(2) [OF run] by (intro ext) simp
  ultimately show ?case by blast
qed

section \<open>Evaluation\<close>

text \<open>Sizes of a megabyte are compared as binary numbers when the examples are evaluated.\<close>

lemma utf8_rest_code [code]:
  "utf8_rest n k cs =
     (if n = 0 then (True, k)
      else (case cs of [] \<Rightarrow> (False, k)
            | c # cs \<Rightarrow> if byte_in 0x80 0xBF c then utf8_rest (n - 1) (Suc k) cs else (False, k)))"
  by (cases n; cases cs) simp_all

section \<open>Properties\<close>

text \<open>C10: under the contract of the open directory, a write that succeeds leaves at the
  path a file with exactly the new content, at most the maximum long and synced; a write that fails,
  at any of its calls, leaves at the path what was there, with the same content.\<close>

theorem write_replaces:
  assumes "anchored_directory D" and "fc_workspace_dir fc = Some D" and "fs_wf (w_fs w)"
    and "\<And>u. path_file_name (path_of requested) \<noteq> Some (temporary_write_name X u)"
  shows "case write_text_file X fc requested content w of
      (Ok _, w') \<Rightarrow> length content \<le> MAX_WRITE_BYTES \<and>
        (\<exists>i. cd_open_nofollow D (path_of requested) (w_fs w') = Ok i \<and> holds_synced (w_fs w') i content)
    | (Err e, w') \<Rightarrow> undisturbed D (path_of requested) (w_fs w) (w_fs w')"
proof -
  obtain r w' where run: "write_text_file X fc requested content w = (r, w')" by fastforce
  from anchored_directory.write_text_file_runs [OF assms(1) run assms(2,3,4)] show ?thesis
    by (simp add: run split: result.splits)
qed

theorem write_replaces_witness:
  "\<exists>w' i. write_text_file sample_externals
      \<lparr>fc_workspace_root = [RootDir, Normal ''work''], fc_workspace_dir = Some (dir_handle 2)\<rparr> ''a'' ''b'' sample_world = (Ok (), w') \<and>
    cd_open_nofollow (dir_handle 2) [Normal ''a''] (w_fs w') = Ok i \<and> holds_synced (w_fs w') i ''b''"
proof -
  let ?fc = "\<lparr>fc_workspace_root = [RootDir, Normal ''work''], fc_workspace_dir = Some (dir_handle 2)\<rparr>"
  have ran: "fst (write_text_file sample_externals ?fc ''a'' ''b'' sample_world) = Ok ()" by code_simp
  then obtain w' where run: "write_text_file sample_externals ?fc ''a'' ''b'' sample_world = (Ok (), w')"
    by (metis prod.collapse)
  have target: "path_of ''a'' = [Normal ''a'']" by code_simp
  have "fs_wf (w_fs sample_world)" using sample_fs_wf by (simp add: sample_world_def)
  with write_replaces [OF handle.anchored_directory_axioms, of ?fc 2 sample_world "''a''" sample_externals "''b''"] run
  show ?thesis by (auto simp: target path_file_name_def temporary_write_name_def)
qed

text \<open>C23: a read that succeeds gives the whole content of a regular file that the open
  directory finds at the relative path without following a link at its end, at most the maximum
  long and UTF-8, and changes nothing.\<close>

theorem read_whole_file:
  assumes "read_text_file fc requested w = (Ok text, w')"
  shows "w_fs w' = w_fs w \<and> length text \<le> MAX_READ_BYTES \<and> valid_utf8 text \<and>
    ParentDir \<notin> set (path_of requested) \<and> RootDir \<notin> set (path_of requested) \<and>
    (\<exists>D m i. fc_workspace_dir fc = Some D \<and> cd_symlink_metadata D (path_of requested) (w_fs w) = Ok m \<and>
      is_file m \<and> cd_open_nofollow D (path_of requested) (w_fs w) = Ok i \<and> file_content (w_fs w) i = Some text)"
proof -
  have kept: "keeps same_fs (read_text_file fc requested)"
    unfolding read_text_file_def Let_def by (intro keeps_intros)
  from assms obtain D parent v w1 where D: "fc_workspace_dir fc = Some D" "path_parent (path_of requested) = Some parent"
    and relative: "check_relative (path_of requested) = Ok ()"
    and first: "(if parent \<noteq> [] then with_err ReadParent (sys_read (cd_open_dir_nofollow D parent)) else ret ()) w = (Ok v, w1)"
    and rest: "and_then (with_err InspectFile (sys_read (cd_symlink_metadata D (path_of requested))))
        (\<lambda>metadata. if is_symlink metadata then fail ReadIsSymlink
          else if \<not> is_file metadata then fail ReadNotRegular
          else and_then (with_err OpenFile (sys_read (cd_open_nofollow D (path_of requested)))) (\<lambda>file.
            and_then (with_err ReadFileFailed (sys_read (file_bytes file))) (\<lambda>bytes.
            if length (take (MAX_READ_BYTES + 1) bytes) > MAX_READ_BYTES then fail FileTooLarge
            else from_result (ok_or NotUtf8 (from_utf8 (take (MAX_READ_BYTES + 1) bytes)))))) w1 = (Ok text, w')"
    unfolding read_text_file_def Let_def
    by (auto simp: validate_relative_path_def bind_result_eq_Ok elim!: and_then_OkE split: option.splits)
  have fs1: "w_fs w1 = w_fs w"
    using first by (auto simp: with_err_eq_Ok dest!: sys_read_fs split: if_splits)
  have found: "\<exists>m i bytes. cd_symlink_metadata D (path_of requested) (w_fs w) = Ok m \<and> is_file m \<and>
      cd_open_nofollow D (path_of requested) (w_fs w) = Ok i \<and> file_bytes i (w_fs w) = Ok bytes \<and>
      length (take (MAX_READ_BYTES + 1) bytes) \<le> MAX_READ_BYTES \<and>
      from_utf8 (take (MAX_READ_BYTES + 1) bytes) = Some text"
    using rest fs1
    by (auto simp: with_err_eq_Ok simp del: length_take elim!: and_then_OkE dest!: sys_read_OkD split: if_splits)
  then show ?thesis
    using D(1) relative keepsD [OF kept assms]
    by (auto simp: same_fs_def check_relative_iff file_bytes_def from_utf8_def min_def split: option.splits if_splits)
qed

theorem read_whole_file_witness:
  "\<exists>m i. cd_symlink_metadata (dir_handle 2) [Normal ''Cargo.toml''] sample_fs = Ok m \<and> is_file m \<and>
    cd_open_nofollow (dir_handle 2) [Normal ''Cargo.toml''] sample_fs = Ok i \<and>
    file_content sample_fs i = Some ''[package]''"
proof -
  let ?fc = "\<lparr>fc_workspace_root = [RootDir, Normal ''work''], fc_workspace_dir = Some (dir_handle 2)\<rparr>"
  have "fst (read_text_file ?fc ''Cargo.toml'' sample_world) = Ok ''[package]''" by code_simp
  then obtain w' where run: "read_text_file ?fc ''Cargo.toml'' sample_world = (Ok ''[package]'', w')"
    by (metis prod.collapse)
  have target: "path_of ''Cargo.toml'' = [Normal ''Cargo.toml'']" by code_simp
  from read_whole_file [OF run] show ?thesis by (auto simp: target sample_world_def)
qed

end
