(* ===== verification/Containment.thy ===== *)
theory Containment
  imports FileSystem Samples
begin

text \<open>
  What resolving a path by name establishes: the position that is found, whatever symbolic links
  the walk followed, lies below the position of the workspace root and is reached from it by plain
  directory entries.
\<close>

section \<open>Positions\<close>

definition is_link :: "fsys \<Rightarrow> nat \<Rightarrow> bool" where
  "is_link fs i = (case map_option ino_node (fs_inodes fs i) of Some (LinkNode _) \<Rightarrow> True | _ \<Rightarrow> False)"

text \<open>A stack of names and inodes that is a chain of directory entries without links.\<close>

fun real_position :: "fsys \<Rightarrow> (string \<times> nat) list \<Rightarrow> bool" where
  "real_position fs [] = True"
| "real_position fs ((n, i) # st) =
     (real_position fs st \<and> dir_lookup fs (pos_inode fs st) n = Some i \<and>
      fs_inodes fs i \<noteq> None \<and> \<not> is_link fs i)"

lemma real_position_tl: "real_position fs st \<Longrightarrow> real_position fs (tl st)"
  by (cases st) auto

lemma real_position_append: "real_position fs (a @ b) \<Longrightarrow> real_position fs b"
  by (induction a) auto

lemma is_link_iff: "is_link fs i \<longleftrightarrow> (\<exists>t. map_option ino_node (fs_inodes fs i) = Some (LinkNode t))"
  by (auto simp: is_link_def split: option.splits node.splits)

lemma walk_entry:
  "dir_lookup fs (pos_inode fs st) n = Some i \<Longrightarrow> fs_inodes fs i \<noteq> None \<Longrightarrow> \<not> is_link fs i \<Longrightarrow>
   walk k fs st (Normal n # cs) f = walk k fs ((n, i) # st) cs f"
  by (auto simp: dir_lookup_def is_link_iff split: option.splits node.splits)

lemma walk_Normal_OkE:
  assumes "walk k fs st (Normal n # cs) True = Ok st'"
  obtains i where "dir_lookup fs (pos_inode fs st) n = Some i" and "fs_inodes fs i \<noteq> None"
      and "\<not> is_link fs i" and "walk k fs ((n, i) # st) cs True = Ok st'"
    | t where "k \<noteq> 0" and "walk (k - 1) fs st (path_of t @ cs) True = Ok st'"
  using assms by (fastforce simp: dir_lookup_def is_link_iff split: option.splits node.splits if_splits)

lemma walk_real: "walk k fs st p True = Ok st' \<Longrightarrow> real_position fs st \<Longrightarrow> real_position fs st'"
proof (induction k arbitrary: st p rule: less_induct)
  case (less k)
  show ?case using less.prems
  proof (induction p arbitrary: st)
    case (Cons c cs)
    show ?case
    proof (cases c)
      case (Normal n)
      from Cons.prems(1) [unfolded Normal] show ?thesis
      proof (cases rule: walk_Normal_OkE)
        case (1 i)
        then show ?thesis using Cons.IH [OF 1(4)] Cons.prems(2) by simp
      next
        case (2 t)
        then show ?thesis using less.IH Cons.prems(2) by (metis One_nat_def Suc_pred diff_less not_gr_zero zero_less_one)
      qed
    qed (use Cons in \<open>auto simp: real_position_tl split: if_splits\<close>)
  qed simp
qed

text \<open>The names of a position lead back to it.\<close>

definition names :: "(string \<times> nat) list \<Rightarrow> path" where
  "names st = List.map (\<lambda>(n, i). Normal n) (rev st)"

lemma walk_names: "real_position fs (st @ base) \<Longrightarrow> walk k fs base (names st) f = Ok (st @ base)"
proof (induction st arbitrary: base rule: rev_induct)
  case (snoc e st)
  obtain n i where e: "e = (n, i)" by fastforce
  have real: "real_position fs ((n, i) # base)"
    using real_position_append [of fs st "(n, i) # base"] snoc.prems e by simp
  then have "walk k fs base (Normal n # names st) f = walk k fs ((n, i) # base) (names st) f"
    by (intro walk_entry) simp_all
  also have "\<dots> = Ok (st @ (n, i) # base)"
    by (rule snoc.IH) (use snoc.prems e in simp)
  finally show ?case by (simp add: e names_def)
qed (simp add: names_def)

lemma pos_path_names: "pos_path st = RootDir # names st"
  by (simp add: pos_path_def names_def)

lemma walk_pos_path: "real_position fs st \<Longrightarrow> walk k fs base (pos_path st) f = Ok st"
  using walk_names [of fs st "[]"] by (simp add: pos_path_names)

lemma real_position_unique:
  "real_position fs a \<Longrightarrow> real_position fs b \<Longrightarrow> pos_path a = pos_path b \<Longrightarrow> a = b"
  by (metis walk_pos_path result.inject(1))

text \<open>A canonical path that starts with another one names a position below the other one's.\<close>

lemma below:
  assumes "real_position fs a" and "real_position fs b" and "path_starts_with (pos_path b) (pos_path a)"
  shows "\<exists>st. b = st @ a"
proof -
  obtain rest where "names b = names a @ rest"
    using assms(3) by (auto simp: path_starts_with_def pos_path_names prefix_def)
  then obtain x y where xy: "rev b = x @ y" "List.map (\<lambda>(n, i). Normal n) x = names a"
    unfolding names_def map_eq_append_conv by auto
  then have b: "b = rev y @ rev x" by (metis rev_append rev_rev_ident)
  have "real_position fs (rev x)" using assms(2) unfolding b by (rule real_position_append)
  moreover have "pos_path (rev x) = pos_path a" using xy(2) by (simp add: pos_path_names names_def)
  ultimately show ?thesis using real_position_unique assms(1) b by blast
qed

lemma fs_canonicalize_Ok:
  assumes "fs_canonicalize p fs = Ok q" and "real_position fs (fs_cwd fs)"
  obtains st where "walk max_links fs (fs_cwd fs) p True = Ok st" and "q = pos_path st"
    and "real_position fs st"
  using assms walk_real by (auto simp: fs_canonicalize_def bind_result_eq_Ok)

lemma canonical_fixed: "real_position fs st \<Longrightarrow> fs_canonicalize (pos_path st) fs = Ok (pos_path st)"
  by (simp add: fs_canonicalize_def walk_pos_path)

text \<open>What a write target was found as.\<close>

definition write_target :: "path \<Rightarrow> path \<Rightarrow> fsys \<Rightarrow> path \<Rightarrow> bool" where
  "write_target candidate canonical_root fs q \<longleftrightarrow>
     (fs_canonicalize candidate fs = Ok q \<and> path_starts_with q canonical_root \<and>
        (\<exists>m. fs_metadata q fs = Ok m \<and> is_file m)) \<or>
     (\<exists>parent name canonical_parent. path_parent candidate = Some parent \<and>
        path_file_name candidate = Some name \<and> fs_canonicalize parent fs = Ok canonical_parent \<and>
        path_starts_with canonical_parent canonical_root \<and> q = path_join canonical_parent [Normal name])"

lemma resolve_write_target_Ok:
  assumes "resolve_write_target fc requested w = (Ok q, w')"
  obtains canonical_root where "fs_canonicalize (fc_workspace_root fc) (w_fs w) = Ok canonical_root"
    and "w_fs w' = w_fs w"
    and "write_target (path_join (fc_workspace_root fc) (path_of requested)) canonical_root (w_fs w) q"
proof -
  let ?candidate = "path_join (fc_workspace_root fc) (path_of requested)"
  let ?existing = "\<lambda>root. and_then (with_err ResolvePath (sys_read (fs_canonicalize ?candidate)))
    (\<lambda>found w2. if \<not> path_starts_with found root then (Err EscapesWorkspace, w2)
       else (case sys_is_file found w2 of (regular, w3) \<Rightarrow>
         if \<not> regular then (Err TargetNotRegular, w3) else (Ok found, w3)))"
  let ?fresh = "\<lambda>root parent. and_then (with_err ResolveTargetParent (sys_read (fs_canonicalize parent)))
    (\<lambda>canonical_parent. if \<not> path_starts_with canonical_parent root then fail EscapesWorkspace
       else (case path_file_name ?candidate of None \<Rightarrow> fail TargetNoFileName
         | Some name \<Rightarrow> ret (path_join canonical_parent [Normal name])))"
  from assms obtain root where root: "fs_canonicalize (fc_workspace_root fc) (w_fs w) = Ok root"
    and rest: "(case sys_read (fs_symlink_metadata ?candidate) (tick w) of
        (Ok m, w2) \<Rightarrow> ?existing root w2
      | (Err e, w2) \<Rightarrow> (case path_parent ?candidate of None \<Rightarrow> (Err TargetNoParent, w2)
          | Some parent \<Rightarrow> ?fresh root parent w2)) = (Ok q, w')"
    unfolding resolve_write_target_def
    by (auto simp: with_err_eq_Ok validate_relative_path_def bind_result_eq_Ok
        elim!: and_then_OkE dest!: sys_read_OkD)
  obtain r w2 where inspect: "sys_read (fs_symlink_metadata ?candidate) (tick w) = (r, w2)" by fastforce
  have fs2: "w_fs w2 = w_fs w" using sys_read_fs [OF inspect] by simp
  have "w_fs w' = w_fs w \<and> write_target ?candidate root (w_fs w) q"
  proof (cases r)
    case (Ok m)
    let ?w3 = "tick (tick (tick w))"
    from Ok have found: "fs_canonicalize ?candidate (w_fs w) = Ok q" "path_starts_with q root"
      "sys_is_file q ?w3 = (True, w')"
      using rest inspect fs2
      by (auto simp: with_err_eq_Ok elim!: and_then_OkE dest!: sys_read_OkD split: if_splits prod.splits)
    obtain s w4 where "sys_read (fs_metadata q) ?w3 = (s, w4)" by fastforce
    with found(3) obtain m where "sys_read (fs_metadata q) ?w3 = (Ok m, w')" "is_file m"
      by (auto simp: sys_is_file_def split: result.splits)
    then show ?thesis using found by (auto simp: write_target_def dest!: sys_read_OkD)
  next
    case (Err e)
    then obtain parent name canonical_parent where "path_parent ?candidate = Some parent"
      "path_file_name ?candidate = Some name" "fs_canonicalize parent (w_fs w) = Ok canonical_parent"
      "path_starts_with canonical_parent root" "q = path_join canonical_parent [Normal name]"
      "w_fs w' = w_fs w"
      using rest inspect fs2
      by (auto simp: with_err_eq_Ok elim!: and_then_OkE dest!: sys_read_OkD split: if_splits option.splits)
    then show ?thesis unfolding write_target_def by blast
  qed
  then show thesis using root that by blast
qed

section \<open>Properties\<close>

text \<open>C11: a path that is accepted for reading denotes, with all symbolic links followed,
  a position below the workspace root: it is reached from the root's own position by plain directory
  entries, and the path returned is its canonical one, which resolves to itself.\<close>

theorem reads_inside:
  assumes "resolve_existing_path fc requested w = (Ok q, w')"
    and "real_position (w_fs w) (fs_cwd (w_fs w))"
  shows "w_fs w' = w_fs w \<and>
    (\<exists>root st. walk max_links (w_fs w) (fs_cwd (w_fs w)) (fc_workspace_root fc) True = Ok root \<and>
      walk max_links (w_fs w) (fs_cwd (w_fs w)) (path_join (fc_workspace_root fc) (path_of requested)) True = Ok (st @ root) \<and>
      real_position (w_fs w) (st @ root) \<and> q = pos_path (st @ root) \<and> fs_canonicalize q (w_fs w) = Ok q)"
proof -
  from assms(1) obtain candidate canonical_root w1 where
    candidate: "candidate = path_join (fc_workspace_root fc) (path_of requested)"
    and root: "fs_canonicalize (fc_workspace_root fc) (w_fs w) = Ok canonical_root"
    and found: "fs_canonicalize candidate (w_fs w) = Ok q" and inside: "path_starts_with q canonical_root"
    and fs: "w_fs w' = w_fs w"
    unfolding resolve_existing_path_def
    by (auto simp: with_err_eq_Ok validate_relative_path_def bind_result_eq_Ok
        elim!: and_then_OkE dest!: sys_read_OkD split: if_splits)
  from root assms(2) obtain a where a: "walk max_links (w_fs w) (fs_cwd (w_fs w)) (fc_workspace_root fc) True = Ok a"
    "canonical_root = pos_path a" "real_position (w_fs w) a" by (rule fs_canonicalize_Ok)
  from found assms(2) obtain b where b: "walk max_links (w_fs w) (fs_cwd (w_fs w)) candidate True = Ok b"
    "q = pos_path b" "real_position (w_fs w) b" by (rule fs_canonicalize_Ok)
  obtain st where "b = st @ a" using below a(2,3) b(2,3) inside by blast
  then show ?thesis using a b fs candidate canonical_fixed [OF b(3)] by auto
qed

theorem reads_inside_witness:
  "\<exists>root st. walk max_links sample_fs [] [RootDir, Normal ''work''] True = Ok root \<and>
    walk max_links sample_fs [] [RootDir, Normal ''work'', Normal ''Cargo.toml''] True = Ok (st @ root)"
proof -
  let ?fc = "\<lparr>fc_workspace_root = [RootDir, Normal ''work''], fc_workspace_dir = None\<rparr>"
  have "fst (resolve_existing_path ?fc ''Cargo.toml'' sample_world)
      = Ok [RootDir, Normal ''work'', Normal ''Cargo.toml'']" by code_simp
  then obtain w' where run: "resolve_existing_path ?fc ''Cargo.toml'' sample_world
      = (Ok [RootDir, Normal ''work'', Normal ''Cargo.toml''], w')" by (metis prod.collapse)
  have join: "path_join [RootDir, Normal ''work''] (path_of ''Cargo.toml'') = [RootDir, Normal ''work'', Normal ''Cargo.toml'']"
    by code_simp
  from reads_inside [OF run] show ?thesis by (auto simp: join sample_world_def sample_fs_def)
qed



end
