(* ===== verification/Examples.thy ===== *)
theory Examples
  imports Answers Anchored Containment
begin

text \<open>
  Calls of the gateway on the small world of \<open>Samples\<close>, evaluated: an approval that writes a file,
  calls of the tool that are held for review, and a build.
\<close>

section \<open>A small gateway\<close>

definition sample_capability :: file_system_capability where
  "sample_capability = \<lparr>fc_workspace_root = [RootDir, Normal ''work''], fc_workspace_dir = Some sample_cap_dir\<rparr>"

definition sample_gateway :: zyguor_gateway where
  "sample_gateway = anchored_gateway sample_externals sample_capability default_gateway_config sample_log"

definition sample_state :: gateway_state where
  "sample_state =
     \<lparr>gs_store = sample_held, gs_store_poisoned = False, gs_audit_poisoned = False, gs_world = sample_world\<rparr>"

lemma sample_state_ok: "store_ok (gs_store sample_state)"
  using sample_held_ok by (simp add: sample_state_def)

section \<open>Runs\<close>

text \<open>A request of the sample store, approved.\<close>

definition sample_approved :: gateway_state where
  "sample_approved =
     snd (handle_admin_command_with_config sample_externals sample_json sample_gateway (Approve 5) sample_state)"

lemma sample_approval: "filter effect (new_events sample_state sample_approved) = [EvReplaced ''a'' ''b'']"
  by code_simp

text \<open>The environment of a run, and a call of the agent that asks for a page.\<close>

definition run_externals :: externals where
  "run_externals = sample_externals
     \<lparr>x_env := [(''ZYGUOR_WORKSPACE_ROOT'', ''/work''), (''ZYGUOR_ADMIN_SOCKET'', ''/state/socket''),
               (''ZYGUOR_PENDING_REVIEW_STATE_PATH'', ''/state/reviews''),
               (''ZYGUOR_AUDIT_LOG_PATH'', ''/state/audit'')]\<rparr>"

definition run_toml :: "string \<Rightarrow> (gateway_config_file, string) result" where
  "run_toml t = Err ''none''"

definition run_texts :: error_texts where
  "run_texts = \<lparr>et_operation = (\<lambda>_. []), et_store = (\<lambda>_. []), et_gateway = (\<lambda>_. []), et_parse = (\<lambda>_. [])\<rparr>"

definition run_params :: execute_params where
  "run_params =
     \<lparr>ep_operation = ''http_request'',
      ep_arguments = \<lparr>ea_left = None, ea_right = None, ea_path = None, ea_content = None,
        ea_method = Some ''get'', ea_url = Some ''https://api.example.com/'', ea_body = None\<rparr>,
      ep_purpose = ''why''\<rparr>"

text \<open>A call of the tool that is held for review, from an empty store.\<close>

definition fresh_state :: gateway_state where
  "fresh_state =
     \<lparr>gs_store = new_store, gs_store_poisoned = False, gs_audit_poisoned = False, gs_world = sample_world\<rparr>"

definition write_params :: execute_params where
  "write_params =
     \<lparr>ep_operation = ''write_file'',
      ep_arguments = \<lparr>ea_left = None, ea_right = None, ea_path = Some ''a'', ea_content = Some ''b'',
        ea_method = None, ea_url = None, ea_body = None\<rparr>,
      ep_purpose = ''why''\<rparr>"

lemma write_call:
  "fst (execute sample_externals sample_json sample_gateway write_params fresh_state) = ToolResult ''held_for_review''"
  by code_simp

lemma write_review:
  "decision (fst (evaluate_request_with_config sample_externals (WriteFile \<lparr>wf_path = ''a'', wf_content = ''b''\<rparr>)
     sample_capability default_gateway_config (gs_world fresh_state))) = Review"
  by code_simp

text \<open>The same request with a blank purpose.\<close>

lemma blank_call:
  "(case execute sample_externals sample_json sample_gateway (write_params\<lparr>ep_purpose := '' ''\<rparr>) fresh_state of
     (response, gs') \<Rightarrow> response = GatewayError MessageEmpty \<and> length (reviews (gs_store gs')) = 1 \<and>
       new_events fresh_state gs' = [])"
  by code_simp

text \<open>The sample request, claimed by a process that died.\<close>

definition sample_interrupted :: gateway_state where
  "sample_interrupted = sample_state\<lparr>gs_store := sample_held\<lparr>reviews := [], claimed_reviews := reviews sample_held\<rparr>\<rparr>"

text \<open>A build of the sample workspace.\<close>

definition sample_fingerprint :: string where
  "sample_fingerprint =
     (case fst (compute_workspace_fingerprint sample_externals [RootDir, Normal ''work''] sample_world) of
        Ok f \<Rightarrow> f | Err _ \<Rightarrow> [])"

lemma sample_fingerprint_Ok:
  "fst (compute_workspace_fingerprint sample_externals [RootDir, Normal ''work''] sample_world) = Ok sample_fingerprint"
  by code_simp

lemma sample_build:
  "length (w_trace (snd (cargo_run sample_externals default_cargo_test [RootDir, Normal ''work''] sample_fingerprint sample_world))) = 1"
  by code_simp

end
