(* ===== verification/Schedules.thy ===== *)
theory Schedules
  imports Concurrency Examples
begin

text \<open>
  Schedules in which a thread runs alone until it has answered: they are what the handlers of
  \<open>Gateway\<close> and \<open>Admin\<close> compute, so every sequential run of the gateway is one of its schedules,
  and concrete configurations can be evaluated.
\<close>

section \<open>A thread that runs alone\<close>

lemma call_alone:
  assumes "thread_run X J toml T g c" and "i < length (th_calls c)"
    and "run_task (th_calls c ! i) (th_shared c) = (r, gs')"
  shows "thread_run X J toml T g (c\<lparr>th_shared := gs', th_calls := (th_calls c)[i := Done r]\<rparr>)"
  using assms
proof (induction "th_calls c ! i" arbitrary: c)
  case (Done a)
  have "a = r" and shared: "gs' = th_shared c" using Done(4) unfolding Done(1) [symmetric] by simp_all
  then have "(th_calls c)[i := Done r] = th_calls c" using Done(1) list_update_id [of "th_calls c" i] by simp
  then show ?case using Done(2) shared by simp
next
  case (Section f)
  obtain t gs1 where step: "f (th_shared c) = (t, gs1)" by fastforce
  let ?c = "c\<lparr>th_shared := gs1, th_calls := (th_calls c)[i := t]\<rparr>"
  have "thread_run X J toml T g ?c"
    using Section(3) Call_Section [OF Section(4) Section(2) [symmetric] step] by (rule thread_run.Next)
  moreover have "run_task t gs1 = (r, gs')"
    using Section(5) step unfolding Section(2) [symmetric] by simp
  moreover have "t \<in> Basic_BNFs.fsts (f (th_shared c))" by (simp add: step prod_set_defs)
  ultimately show ?case using Section(1) [of "f (th_shared c)" ?c] Section(4) by simp
qed

lemma operator_part_alone:
  assumes "thread_run X J toml T g c" and "th_operator c = Some (bind_task t k)"
    and "run_task t (th_shared c) = (a, gs')"
  shows "thread_run X J toml T g (c\<lparr>th_shared := gs', th_operator := Some (k a)\<rparr>)"
  using assms
proof (induction t arbitrary: c)
  case (Done b)
  then have "c\<lparr>th_shared := gs', th_operator := Some (k a)\<rparr> = c" by simp
  then show ?case using Done(1) by simp
next
  case (Section f)
  obtain t gs1 where step: "f (th_shared c) = (t, gs1)" by fastforce
  let ?c = "c\<lparr>th_shared := gs1, th_operator := Some (bind_task t k)\<rparr>"
  have "thread_run X J toml T g ?c"
    by (rule thread_run.Next [OF Section(2) Operator_Section [OF Section(3) [unfolded bind_task.simps]]]) (simp add: step)
  moreover have "run_task t gs1 = (a, gs')" using Section(4) step by simp
  moreover have "t \<in> Basic_BNFs.fsts (f (th_shared c))" by (simp add: step prod_set_defs)
  ultimately show ?case using Section(1) [of "f (th_shared c)" t ?c] by simp
qed

lemma operator_alone:
  assumes "thread_run X J toml T g c" and "th_operator c = Some t" and "run_task t (th_shared c) = (r, gs')"
  shows "thread_run X J toml T g (c\<lparr>th_shared := gs', th_operator := Some (Done r)\<rparr>)"
  using operator_part_alone [OF assms(1) _ assms(3), of Done] assms(2) by (simp add: bind_Done)

lemma tool_alone:
  assumes "thread_run X J toml T g c" and "execute_request_with_config X J g params (th_shared c) = (r, gs')"
  shows "thread_run X J toml T g (c\<lparr>th_shared := gs', th_answers := th_answers c @ [r]\<rparr>)"
proof -
  let ?n = "length (th_calls c)"
  let ?c = "c\<lparr>th_calls := th_calls c @ [execute_task X J g params]\<rparr>"
  have "thread_run X J toml T g ?c" using assms(1) Call by (rule thread_run.Next)
  then have "thread_run X J toml T g (?c\<lparr>th_shared := gs', th_calls := (th_calls ?c)[?n := Done r]\<rparr>)"
    by (rule call_alone) (simp_all add: run_execute_task assms(2))
  then have "thread_run X J toml T g (c\<lparr>th_shared := gs', th_calls := th_calls c @ [Done r]\<rparr>)" by simp
  from thread_run.Next [OF this Answer [of ?n]] show ?thesis by simp
qed

lemma connection_alone:
  assumes "thread_run X J toml T g c" and "th_operator c = None"
    and "handle_admin_connection X J T g stream (th_shared c) = ((r, line), gs')"
  shows "thread_run X J toml T g (c\<lparr>th_shared := gs', th_accepted := th_shared c,
    th_replies := th_replies c @ [(new_events (th_shared c) gs', r, line)]\<rparr>)"
proof -
  let ?c = "c\<lparr>th_operator := Some (connection_task X J T g stream), th_accepted := th_shared c\<rparr>"
  have "thread_run X J toml T g ?c" using assms(1) Connect [OF assms(2)] by (rule thread_run.Next)
  then have "thread_run X J toml T g (?c\<lparr>th_shared := gs', th_operator := Some (Done (r, line))\<rparr>)"
    by (rule operator_alone [where t = "connection_task X J T g stream"]) (simp_all add: run_connection_task assms(3))
  from thread_run.Next [OF this Reply] show ?thesis using assms(2) by (cases c) simp
qed

text \<open>The runs in which one handler follows the other.\<close>

lemma sequential_run:
  assumes "gateway_run X J toml T g gs"
  shows "\<exists>c. thread_run X J toml T g c \<and> th_shared c = gs \<and> th_operator c = None"
  using assms
proof (induction rule: gateway_run.induct)
  case (Start w rg w')
  then show ?case using thread_run.Start by (metis idle_def threads.select_convs(1,3))
next
  case (Next g gs gs')
  then obtain c where c: "thread_run X J toml T g c" "th_shared c = gs" "th_operator c = None" by blast
  from Next(2) show ?case
  proof (cases rule: gateway_step.cases)
    case (Tool params response)
    then obtain r where "execute_request_with_config X J g params gs = (r, gs')"
      by (auto simp: execute_def split: prod.splits result.splits)
    from tool_alone [OF c(1) this [folded c(2)]] show ?thesis using c(3) by force
  next
    case (Operator stream outcome)
    then show ?thesis using connection_alone [OF c(1,3)] c(2,3) by (cases outcome) force
  next
    case (Environment w' a b)
    then show ?thesis using thread_run.Next [OF c(1) Outside [of w']] c(2,3) by force
  qed
qed

section \<open>An approval on a small world\<close>

text \<open>The gateway starts with the sample request in its state file, and the operator approves it.\<close>

definition held_inodes :: "nat \<Rightarrow> inode option" where
  "held_inodes =
     [0 \<mapsto> sample_dir [(''state'', 1), (''work'', 2)],
      1 \<mapsto> sample_dir [(''reviews'', 4)],
      2 \<mapsto> sample_dir [],
      4 \<mapsto> sample_file ''held'']"

definition held_world :: world where
  "held_world = sample_world\<lparr>w_fs :=
     \<lparr>fs_inodes = held_inodes, fs_stable = held_inodes, fs_root = 0, fs_cwd = [], fs_fresh = 5\<rparr>\<rparr>"

definition held_json :: store_json where
  "held_json =
     \<lparr>sj_to_string_pretty = (\<lambda>s. Ok (if ps_reviews s = [] then ''{}'' else ''held'')),
      sj_from_str = (\<lambda>t. Ok \<lparr>ps_version = state_version, ps_reviews = [\<lparr>pp_request_id = 5, pp_purpose = ''why'',
        pp_status = PendingStatus, pp_operation = PersistedWriteFile ''a'' ''b'' Missing\<rparr>]\<rparr>)\<rparr>"

definition held_started :: "(running_gateway, startup_error) result \<times> world" where
  "held_started = start_gateway run_externals held_json run_toml held_world"

definition held_gateway :: zyguor_gateway where
  "held_gateway = (case fst held_started of Ok rg \<Rightarrow> rg_gateway rg | Err _ \<Rightarrow> sample_gateway)"

definition held_state0 :: gateway_state where
  "held_state0 = (case fst held_started of Ok rg \<Rightarrow> rg_state rg | Err _ \<Rightarrow> sample_state)"

definition held_store :: pending_review_store where
  "held_store =
     \<lparr>reviews = [(5, sample_review)], claimed_reviews = [],
      persistence_path = Some [RootDir, Normal ''state'', Normal ''reviews''], persistence_parent = Some 1\<rparr>"

text \<open>The gateway with the world as it was at the start, but for the trace.\<close>

definition held_with :: "pending_review_store \<Rightarrow> event list \<Rightarrow> gateway_state" where
  "held_with st es =
     \<lparr>gs_store = st, gs_store_poisoned = False, gs_audit_poisoned = False, gs_world = held_world\<lparr>w_trace := es\<rparr>\<rparr>"

definition held_state :: gateway_state where
  "held_state = held_with held_store []"

definition approving :: admin_stream where
  "approving =
     \<lparr>as_getpeereid = Err NotFound, as_peercred = Ok \<lparr>uc_pid = 7, uc_uid = 1000, uc_gid = 1000\<rparr>,
       as_input = ''APPROVE u'' @ [CHR 0x0A], as_read_error = None, as_write_error = None\<rparr>"

definition held_approval :: audit_record where
  "held_approval =
     \<lparr>ar_request_id = 5, ar_timestamp_unix = 1700000000, ar_message = ''why'', ar_phase = Approval,
      ar_decision = Review, ar_reason = Write, ar_execution_outcome = NotExecuted\<rparr>"

definition held_claimed :: pending_review_store where
  "held_claimed = held_store\<lparr>reviews := [], claimed_reviews := [(5, sample_review)]\<rparr>"

definition held_audited :: gateway_state where
  "held_audited = held_with held_claimed [EvAudit held_approval, EvAuditSynced]"

definition held_executed :: "(admin_outcome, gateway_error) result \<times> gateway_state" where
  "held_executed = run_task (execute_approved_task run_externals held_json held_gateway 5 sample_review) held_audited"

lemma held_started_run:
  "case fst held_started of
     Ok rg \<Rightarrow> gs_store (rg_state rg) = held_store \<and> trace (rg_state rg) = []
   | Err _ \<Rightarrow> False"
  by code_simp

lemma held_start: "\<not> is_err (fst held_started)" "gs_store held_state0 = held_store" "trace held_state0 = []"
  using held_started_run by (auto simp: held_state0_def split: result.splits)

text \<open>What the operator's thread does up to the execution, each step with the world set back.\<close>

definition ends :: "('a \<times> gateway_state) \<Rightarrow> 'a \<Rightarrow> pending_review_store \<Rightarrow> event list \<Rightarrow> bool" where
  "ends p a st es \<longleftrightarrow> fst p = a \<and> gs_store (snd p) = st \<and> trace (snd p) = es"

lemma held_stages:
  "ends (run_task (atomically (inspect_pending_request 5)) (held_with held_store [])) (Ok sample_review) held_store []"
  "ends (run_task (atomically (on_world (revalidate_pending_request_with_config run_externals sample_review
     (zg_filesystem held_gateway) (zg_config held_gateway)))) (held_with held_store [])) (Ok ()) held_store []"
  "ends (run_task (atomically (claim_section run_externals held_json 5)) (held_with held_store [])) (Ok sample_review) held_claimed []"
  "ends (run_task (audit_claimed_approval_task run_externals held_json held_gateway sample_review) (held_with held_claimed []))
     (Ok ()) held_claimed [EvAudit held_approval, EvAuditSynced]"
  unfolding run_atomically
  subgoal by code_simp
  subgoal by code_simp
  subgoal by code_simp
  subgoal by code_simp
  done

lemma approving_task:
  "connection_task X held_json run_texts g approving =
     bind_task (approve_task X held_json g 5) (\<lambda>r. Done (respond approving (error_response run_texts)
       (format_admin_outcome_response X run_texts) (map_err CommandFailed r)))" if "X = run_externals"
proof -
  have "verify_admin_peer X approving = Ok ()" and "read_line approving (MAX_ADMIN_COMMAND_LENGTH + 1) = Ok (as_input approving)"
    and "length (as_input approving) = 10" and "MAX_ADMIN_COMMAND_LENGTH = 256"
    and "parse_admin_command X (as_input approving) = Ok (Approve 5)"
    unfolding that by code_simp+
  then show ?thesis by (simp add: connection_task_def command_task_def)
qed

lemma held_run:
  "case held_executed of (r, gs') \<Rightarrow> r = Ok (Approved 5) \<and>
     filter effect (trace gs') = [EvReplaced ''a'' ''b''] \<and> gs_store gs' = held_store\<lparr>reviews := []\<rparr>"
  by code_simp

lemma held_done:
  "fst held_executed = Ok (Approved 5)"
  "filter effect (trace (snd held_executed)) = [EvReplaced ''a'' ''b'']"
  "gs_store (snd held_executed) = held_store\<lparr>reviews := []\<rparr>"
  using held_run by (simp_all add: case_prod_unfold)

lemma held_outside:
  assumes "thread_run X J toml T g c"
  shows "thread_run X J toml T g (c\<lparr>th_shared := held_with (gs_store (th_shared c)) (trace (th_shared c))\<rparr>)"
proof -
  let ?w = "held_world\<lparr>w_trace := trace (th_shared c)\<rparr>"
  have "(th_shared c)\<lparr>gs_store_poisoned := False, gs_audit_poisoned := False, gs_world := ?w\<rparr> =
      held_with (gs_store (th_shared c)) (trace (th_shared c))"
    by (cases "th_shared c") (simp add: held_with_def)
  then show ?thesis using thread_run.Next [OF assms Outside [of ?w _ _ _ _ _ False False]] by simp
qed

text \<open>The connection while its command runs.\<close>

definition busy :: "gateway_state \<Rightarrow> (admin_outcome, gateway_error) thread \<Rightarrow> threads" where
  "busy gs t =
     \<lparr>th_shared = gs, th_calls = [],
      th_operator = Some (bind_task t (\<lambda>r. Done (respond approving (error_response run_texts)
        (format_admin_outcome_response run_externals run_texts) (map_err CommandFailed r)))),
      th_accepted = held_state, th_answers = [], th_replies = []\<rparr>"

lemma busy_stage:
  assumes "thread_run X J toml T g (busy gs (and_then_task t k))" and "ends (run_task t gs) (Ok x) st es"
  shows "thread_run X J toml T g (busy (held_with st es) (k x))"
proof -
  let ?l = "\<lambda>r. Done (respond approving (error_response run_texts)
    (format_admin_outcome_response run_externals run_texts) (map_err CommandFailed r))"
  have "th_operator (busy gs (and_then_task t k)) =
      Some (bind_task t (\<lambda>r. bind_task (case r of Ok x \<Rightarrow> k x | Err e \<Rightarrow> Done (Err e)) ?l))"
    by (simp add: busy_def and_then_task_def bind_bind)
  from operator_part_alone [OF assms(1) this prod.collapse [symmetric]]
  have "thread_run X J toml T g (busy (snd (run_task t gs)) (k x))"
    using assms(2) by (simp add: ends_def busy_def)
  from held_outside [OF this] show ?thesis using assms(2) by (simp add: ends_def busy_def)
qed

lemma busy_end:
  assumes "thread_run X J toml T g (busy gs t)" and "run_task t gs = (r, gs')"
    and "respond approving (error_response run_texts) (format_admin_outcome_response run_externals run_texts)
      (map_err CommandFailed r) = (q, line)"
  shows "thread_run X J toml T g
    \<lparr>th_shared = gs', th_calls = [], th_operator = None, th_accepted = held_state, th_answers = [],
     th_replies = [(new_events held_state gs', q, line)]\<rparr>"
proof -
  let ?l = "\<lambda>r. Done (respond approving (error_response run_texts)
    (format_admin_outcome_response run_externals run_texts) (map_err CommandFailed r))"
  have "thread_run X J toml T g ((busy gs t)\<lparr>th_shared := gs', th_operator := Some (?l r)\<rparr>)"
    by (rule operator_part_alone [OF assms(1), of t ?l r gs']) (simp_all add: busy_def assms(2))
  then have "thread_run X J toml T g ((busy gs t)\<lparr>th_shared := gs', th_operator := Some (Done (q, line))\<rparr>)"
    using assms(3) by simp
  from thread_run.Next [OF this Reply] show ?thesis by (simp add: busy_def)
qed

definition held_end :: threads where
  "held_end =
     \<lparr>th_shared = snd held_executed, th_calls = [], th_operator = None, th_accepted = held_state, th_answers = [],
      th_replies = [(new_events held_state (snd held_executed), Ok (Approved 5), Some (''OK APPROVED u'' @ [CHR 0x0A]))]\<rparr>"

definition held_idle :: threads where
  "held_idle = (idle held_state0)\<lparr>th_shared := held_with held_store []\<rparr>"

lemma held_started_Ok:
  obtains rg where "start_gateway run_externals held_json run_toml held_world = (Ok rg, snd held_started)"
    and "rg_gateway rg = held_gateway" and "rg_state rg = held_state0"
proof -
  obtain rg where rg: "fst held_started = Ok rg" using held_start(1) by (cases "fst held_started") auto
  then have "start_gateway run_externals held_json run_toml held_world = (Ok rg, snd held_started)"
    by (simp add: held_started_def prod_eq_iff)
  then show thesis using that rg by (simp add: held_gateway_def held_state0_def)
qed

lemma held_idle_run: "thread_run run_externals held_json run_toml run_texts held_gateway held_idle"
proof -
  have "w_trace held_world = []" by (simp add: held_world_def sample_world_def)
  then have "thread_run run_externals held_json run_toml run_texts held_gateway (idle held_state0)"
    using held_started_Ok thread_run.Start by metis
  from held_outside [OF this] show ?thesis using held_start by (simp add: idle_def held_idle_def)
qed

lemma held_example: "thread_run run_externals held_json run_toml run_texts held_gateway held_end"
proof -
  let ?run = "thread_run run_externals held_json run_toml run_texts held_gateway"
  from thread_run.Next [OF held_idle_run Connect [of _ _ _ _ _ approving]]
  have s0: "?run (busy (held_with held_store []) (approve_task run_externals held_json held_gateway 5))"
    by (simp add: idle_def held_idle_def approving_task held_state_def busy_def)
  note s1 = busy_stage [OF s0 [unfolded approve_task_def] held_stages(1)]
  note s2 = busy_stage [OF s1 held_stages(2)]
  note s3 = busy_stage [OF s2 held_stages(3)]
  note s4 = busy_stage [OF s3 held_stages(4), folded held_audited_def]
  have "respond approving (error_response run_texts) (format_admin_outcome_response run_externals run_texts)
      (map_err CommandFailed (Ok (Approved 5))) = (Ok (Approved 5), Some (''OK APPROVED u'' @ [CHR 0x0A]))"
    by code_simp
  then show ?thesis
    using busy_end [OF s4, of "Ok (Approved 5)" "snd held_executed"] held_done(1)
    by (simp add: held_end_def held_executed_def prod_eq_iff)
qed

end
