(* ===== verification/Guarantees.thy ===== *)
theory Guarantees
  imports Schedules
begin

text \<open>
  What holds of the running gateway whatever the scheduler does: of its trace, of every answer and
  every reply, of the store, and of the commands of the operator.
\<close>

section \<open>Runs against other threads\<close>

lemma run_against_section:
  "run_against (e # es) (and_then_task (atomically m) k) s =
     (case m (e s) of (r, s') \<Rightarrow> run_against es (case r of Ok x \<Rightarrow> k x | Err x \<Rightarrow> Done (Err x)) s')"
  by (simp add: and_then_task_def atomically_def case_prod_unfold map_prod_def)

lemma run_against_Done: "run_against es (Done a) s = (Done a, s)"
  by (cases es) simp_all

lemma inspect_pending_cases:
  assumes "inspect_pending_request u gs = (r, gs')"
  obtains x where "r = Err x" and "gs' = gs" | p where "r = Ok p" and "gs' = gs" and "map_of (reviews (gs_store gs)) u = Some p"
  using assms by (auto simp: inspect_pending_request_def locked_def store_get_def ok_or_def split: if_splits option.splits)

lemma bystander_needs_nothing: "bystander gs gs' \<Longrightarrow> filter needs_approval (new_events gs gs') = []"
  by (simp add: bystander_def)

text \<open>What an approval still does after its check, and its first two sections.\<close>

definition claim_onward ::
  "externals \<Rightarrow> store_json \<Rightarrow> zyguor_gateway \<Rightarrow> uuid \<Rightarrow> (admin_outcome, gateway_error) thread" where
  "claim_onward X J g u =
     and_then_task (atomically (claim_section X J u)) (\<lambda>claimed.
     and_then_task (audit_claimed_approval_task X J g claimed) (\<lambda>_.
     execute_approved_task X J g u claimed))"

lemma approve_first_sections:
  assumes run: "run_against (e0 # e1 # es) (approve_task X J g u) gs = (t, gs')"
    and others: "\<forall>e\<in>set (e0 # e1 # es). \<forall>s. bystander s (e s)"
  obtains "bystander gs gs'"
  | p v gs2 where "map_of (reviews (gs_store (e0 gs))) u = Some p"
      and "on_world (revalidate_pending_request_with_config X p (zg_filesystem g) (zg_config g)) (e1 (e0 gs)) = (Ok v, gs2)"
      and "bystander gs gs2" and "map_of (reviews (gs_store gs2)) u = Some p"
      and "run_against es (claim_onward X J g u) gs2 = (t, gs')"
proof -
  let ?check = "\<lambda>p. on_world (revalidate_pending_request_with_config X p (zg_filesystem g) (zg_config g))"
  have run': "run_against (e0 # e1 # es) (and_then_task (atomically (inspect_pending_request u)) (\<lambda>p.
      and_then_task (atomically (?check p)) (\<lambda>_. claim_onward X J g u))) gs = (t, gs')"
    using run by (simp add: approve_task_def claim_onward_def)
  have began: "bystander gs (e0 gs)" using others by simp
  obtain r s where inspect: "inspect_pending_request u (e0 gs) = (r, s)" by fastforce
  then show thesis
  proof (cases rule: inspect_pending_cases)
    case (1 x)
    then show thesis using that(1) began run' inspect by (simp add: run_against_section run_against_Done)
  next
    case (2 p)
    let ?gs1 = "e1 (e0 gs)"
    obtain q gs2 where check: "?check p ?gs1 = (q, gs2)" by fastforce
    have "bystander ?gs1 gs2" using revalidate_section [OF check] by (intro bystander_quiet [of "[]"]) simp_all
    moreover have "bystander (e0 gs) ?gs1" using others by simp
    ultimately have since: "bystander (e0 gs) gs2" by (blast intro: bystander_trans)
    have rest: "run_against es (case q of Ok _ \<Rightarrow> claim_onward X J g u | Err x \<Rightarrow> Done (Err x)) gs2 = (t, gs')"
      using run' inspect 2 check by (simp add: run_against_section)
    show thesis
    proof (cases q)
      case (Err x)
      then show thesis using that(1) rest bystander_trans [OF began since] by (simp add: run_against_Done)
    next
      case (Ok v)
      have "map_of (reviews (gs_store gs2)) u = Some p" using since 2(3) by (simp add: bystander_def)
      then show thesis using that(2) 2(3) check Ok bystander_trans [OF began since] rest by simp
    qed
  qed
qed

lemma run_against_nobody: "within t n \<Longrightarrow> run_against (replicate n (\<lambda>s. s)) t s = (Done (fst (run_task t s)), snd (run_task t s))"
proof (induction n arbitrary: t s)
  case 0
  then show ?case by (cases t) simp_all
next
  case (Suc n)
  then show ?case by (cases t) (auto simp: case_prod_unfold)
qed

section \<open>The number of sections\<close>

text \<open>How many sections of its own each handler takes at most.\<close>

lemma within_Done: "within (Done a) 0"
  by simp

lemma within_result:
  "(\<And>x. within (f x) m) \<Longrightarrow> (\<And>e. within (h e) n) \<Longrightarrow> within (case r of Ok x \<Rightarrow> f x | Err e \<Rightarrow> h e) (max m n)"
  by (cases r) (auto intro: within_more [OF _ max.cobounded1] within_more [OF _ max.cobounded2])

lemma within_if: "within a m \<Longrightarrow> within b n \<Longrightarrow> within (if P then a else b) (max m n)"
  by (auto elim: within_more)

lemma within_decision:
  "within a l \<Longrightarrow> within b m \<Longrightarrow> within d n \<Longrightarrow>
   within (case v of Allow \<Rightarrow> a | Review \<Rightarrow> b | Block \<Rightarrow> d) (max l (max m n))"
  by (cases v) (auto elim: within_more)

lemmas within_intros =
  within_and_then within_bind within_atomically within_with_err within_result within_if within_decision within_Done

lemma within_record: "within (record_and_persist g u m d r s out) 2"
  unfolding record_and_persist_def by (rule within_more, (rule within_intros)+) simp

lemma within_answer: "within (answer_task X g u m ev res) 2"
  unfolding answer_task_def case_prod_unfold Let_def by (rule within_more, (rule within_intros)+) simp

lemma within_execute: "within (execute_task X J g params) 9"
  unfolding execute_task_def execute_message_task_def hold_for_review_task_def allowed_execution_task_def
  by (rule within_more, (rule within_record within_answer within_intros)+) simp

lemma within_review_audit: "within (write_review_audit_task g s out p) 2"
  unfolding write_review_audit_task_def by (rule within_more, (rule within_record within_intros)+) simp

lemma within_claimed: "within (execute_claimed_task X J g p operation) 6"
  unfolding execute_claimed_task_def execute_reviewed_task_def complete_reviewed_task_def
  by (rule within_more, (rule within_record within_intros)+) simp

lemma within_approved: "within (execute_approved_task X J g u p) 6"
proof -
  have "within (finish_approval f u (execute_claimed_task X J g p operation)) 6" for f operation
    unfolding finish_approval_def by (rule within_more, (rule within_claimed within_intros)+) simp
  then show ?thesis
    unfolding execute_approved_task_def
    by (cases "pr_request p"; cases "pr_workspace_fingerprint p") (simp_all add: ok_or_def)
qed

lemma within_command: "within (command_task X J g command) 12"
proof (cases command)
  case (Approve u)
  show ?thesis
    unfolding command_task_def Approve admin_command.case approve_task_def audit_claimed_approval_task_def
    by (rule within_more, (rule within_approved within_review_audit within_intros)+) simp
next
  case (Reject u)
  show ?thesis
    unfolding command_task_def Reject admin_command.case reject_task_def audit_claimed_rejection_task_def
    by (rule within_more, (rule within_review_audit within_intros)+) simp
next
  case (AcknowledgeClaimed u)
  have settled: "within (case r of Ok p \<Rightarrow> Done (Ok (ClaimedAcknowledged p))
      | Err (NotCommitted e) \<Rightarrow> Done (Err (ReconciliationNotConsumed e))
      | Err (DurabilityUncertain e) \<Rightarrow> Done (Ok (AcknowledgementUncertain u e))) 0" for r
    by (auto split: result.splits consume_claimed_failure.splits)
  show ?thesis
    unfolding command_task_def AcknowledgeClaimed admin_command.case acknowledge_task_def
    by (rule within_more, (rule settled within_review_audit within_and_then within_bind within_atomically)+) simp
qed

lemma within_connection: "within (connection_task X J T g stream) 12"
  unfolding connection_task_def
  by (auto split: result.splits intro!: within_bind [where m = 12 and n = 0, simplified] within_command)

section \<open>Stores and pages\<close>

lemma keyed_distinct: "keyed m \<Longrightarrow> distinct (List.map fst m)"
  by (simp add: keyed_def hm_wf_def)

lemma canonical_kinds:
  "canonical p \<Longrightarrow>
     (case pr_request p of
        WriteFile _ \<Rightarrow> pr_write_target_state p \<noteq> None \<and> pr_workspace_fingerprint p = None
      | RunCargoTest \<Rightarrow> pr_workspace_fingerprint p \<noteq> None \<and> pr_write_target_state p = None
      | HttpRequest a \<Rightarrow> http_method a = Post \<and> pr_workspace_fingerprint p = None \<and> pr_write_target_state p = None
      | _ \<Rightarrow> False)"
  by (cases "pr_request p") (auto simp: canonical_iff)

definition held_page :: "(string, gateway_error) result \<times> gateway_state" where
  "held_page = execute_request_with_config run_externals held_json held_gateway run_params (held_with held_store [])"

lemma held_page_run:
  "fst held_page = Ok ''executed'' \<and> filter effect (trace (snd held_page)) = [EvHttp Get ''https://api.example.com/'' None]"
  by code_simp

text \<open>The same call in a run in which one handler follows the other.\<close>

lemma held_page_sequential: "gateway_run run_externals held_json run_toml run_texts held_gateway (snd held_page)"
proof -
  let ?run = "gateway_run run_externals held_json run_toml run_texts held_gateway"
  have "w_trace held_world = []" by (simp add: held_world_def sample_world_def)
  then have "?run held_state0" using held_started_Ok gateway_run.Start by metis
  moreover have "gateway_step run_externals held_json run_texts held_gateway held_state0
      (held_state0\<lparr>gs_store_poisoned := False, gs_audit_poisoned := False, gs_world := held_world\<lparr>w_trace := []\<rparr>\<rparr>)"
    by (rule gateway_step.Environment) (simp add: held_start)
  moreover have "held_state0\<lparr>gs_store_poisoned := False, gs_audit_poisoned := False, gs_world := held_world\<lparr>w_trace := []\<rparr>\<rparr>
      = held_with held_store []"
    using held_start(2) by (cases held_state0) (simp add: held_with_def)
  ultimately have "?run (held_with held_store [])" using gateway_run.Next by metis
  moreover have "gateway_step run_externals held_json run_texts held_gateway (held_with held_store []) (snd held_page)"
  proof (rule gateway_step.Tool)
    show "phase (gs_store (held_with held_store [])) u \<noteq> Claimed p" for u p
      by (simp add: phase_def held_with_def held_store_def split: option.splits)
    show "execute run_externals held_json held_gateway run_params (held_with held_store []) =
        (fst (execute run_externals held_json held_gateway run_params (held_with held_store [])), snd held_page)"
      by (simp add: execute_def held_page_def split: prod.splits result.splits)
  qed
  ultimately show ?thesis by (rule gateway_run.Next)
qed

section \<open>Properties\<close>

text \<open>C1: at every moment of every schedule of the running gateway, with any
  number of calls in progress, a connection of the operator interleaved with them section by section
  and the environment changing the world in between, a write, a build or a POST request is in the
  trace only after an approval record and a pre-execution record of one request were synced, a GET
  request only after a synced pre-execution record, and there are never more of the former effects
  than approval records.\<close>

theorem interleaved_effects:
  assumes "thread_run X J toml T g c"
  shows "(\<forall>k. k < length (trace (th_shared c)) \<and> needs_approval (trace (th_shared c) ! k) \<longrightarrow>
      (\<exists>u. synced_before (decision_record Approval u) (trace (th_shared c)) k \<and>
           synced_before (decision_record PreExecution u) (trace (th_shared c)) k)) \<and>
    guarded (\<lambda>r. ar_phase r = PreExecution) (trace (th_shared c)) \<and>
    length (filter needs_approval (trace (th_shared c))) \<le> length (filter is_approval (trace (th_shared c)))"
  using thread_invariant [OF assms] by (auto simp: threads_ok_def answered_def approved_before_def)

theorem interleaved_effects_witness:
  "\<exists>es u. filter effect es = [EvReplaced ''a'' ''b''] \<and>
    synced_before (decision_record Approval u) es (length es) \<and> length (filter is_approval es) \<ge> 1"
proof -
  let ?es = "trace (th_shared held_end)"
  have es: "filter effect ?es = [EvReplaced ''a'' ''b'']" using held_done by (simp add: held_end_def)
  then have "EvReplaced ''a'' ''b'' \<in> set (filter effect ?es)" by simp
  then obtain k where k: "k < length ?es" "?es ! k = EvReplaced ''a'' ''b''" by (auto simp: in_set_conv_nth)
  note all = interleaved_effects [OF held_example]
  from all k obtain u where "synced_before (decision_record Approval u) ?es k" by fastforce
  then have "synced_before (decision_record Approval u) ?es (length ?es)"
    using k(1) unfolding synced_before_def by (meson less_trans)
  moreover have "EvReplaced ''a'' ''b'' \<in> set (filter needs_approval ?es)" using k by (auto simp: in_set_conv_nth)
  then have "length (filter needs_approval ?es) \<ge> 1" by (cases "filter needs_approval ?es") auto
  ultimately show ?thesis using es all by fastforce
qed

text \<open>C3: whatever runs at the same time, a connection has at most one effect that
  needs an approval, and it is one of a reviewed request; a reply that is not an error is backed by
  what happened during its connection: an approval by the approval record, the pre-execution record,
  the effect of its kind and the completion record with the reported outcome in this order, each
  record synced, a failed execution by the same three records with the outcome that it failed (and a
  failed write had no effect), one whose completion record could not be written by the first two
  and by an effect if it is said to have succeeded, a rejection and an acknowledgement by their
  synced records.  No other thread has
  such an effect: those of the whole trace are those of the connections, one after the other.\<close>

theorem replies_backed:
  assumes "thread_run X J toml T g c"
  shows "(\<forall>(es, r, line)\<in>set (th_replies c).
      (filter needs_approval es = [] \<or> (\<exists>p e. filter needs_approval es = [e] \<and> effect_of_review p e)) \<and>
      (\<forall>out. r = Ok out \<longrightarrow> backed_outcome es out)) \<and>
    filter needs_approval (trace (th_shared c)) = concat (List.map (filter needs_approval) (connections c))"
  using thread_invariant [OF assms] by (auto simp: threads_ok_def replies_ok_def one_review_def)

theorem replies_backed_witness:
  "\<exists>es. filter effect es = [EvReplaced ''a'' ''b''] \<and> carried_out 5 Success is_write es"
proof -
  let ?es = "new_events held_state (snd held_executed)"
  have "(?es, Ok (Approved 5), Some (''OK APPROVED u'' @ [CHR 0x0A])) \<in> set (th_replies held_end)"
    by (simp add: held_end_def)
  with replies_backed [OF held_example] have "backed_outcome ?es (Approved 5)" by fast
  moreover have "trace (snd held_executed) = ?es" by (simp add: new_events_def held_state_def held_with_def)
  ultimately show ?thesis using held_done(2) by auto
qed



text \<open>C5: in every configuration the gateway can reach, both maps of the store
  have every identifier once, file each request under its own identifier, and hold only requests
  that can be reviewed, with exactly the captured state their kind needs: a target state for a
  write, a fingerprint for a build, neither for a POST request.\<close>

theorem store_well_typed:
  assumes "thread_run X J toml T g c" and "m \<in> {reviews (gs_store (th_shared c)), claimed_reviews (gs_store (th_shared c))}"
  shows "distinct (List.map fst m) \<and>
    (\<forall>k p. map_of m k = Some p \<longrightarrow> pr_request_id p = k \<and>
      (case pr_request p of
         WriteFile _ \<Rightarrow> pr_write_target_state p \<noteq> None \<and> pr_workspace_fingerprint p = None
       | RunCargoTest \<Rightarrow> pr_workspace_fingerprint p \<noteq> None \<and> pr_write_target_state p = None
       | HttpRequest a \<Rightarrow> http_method a = Post \<and> pr_workspace_fingerprint p = None \<and> pr_write_target_state p = None
       | _ \<Rightarrow> False))"
proof -
  have "keyed m" using thread_invariant [OF assms(1)] assms(2) by (auto simp: threads_ok_def well_typed_def)
  then show ?thesis by (blast intro: keyed_distinct dest: keyed_entry canonical_kinds)
qed

theorem store_well_typed_witness:
  "map_of (reviews (gs_store (th_shared held_idle))) 5 = Some sample_review \<and> pr_request_id sample_review = 5 \<and>
   pr_write_target_state sample_review \<noteq> None"
proof -
  have "reviews (gs_store (th_shared held_idle)) = [(5, sample_review)]"
    by (simp add: held_idle_def held_with_def held_store_def)
  moreover have "pr_request sample_review = WriteFile \<lparr>wf_path = ''a'', wf_content = ''b''\<rparr>"
    by (simp add: sample_review_def review_constructors)
  moreover note store_well_typed [OF held_idle_run, of "reviews (gs_store (th_shared held_idle))",
      THEN conjunct2, rule_format, of 5 sample_review]
  ultimately show ?thesis by simp
qed






end
