(* ===== verification/Lifetime.thy ===== *)
theory Lifetime
  imports Concurrency
begin

text \<open>
  The life of the process: \<open>main\<close> starts the gateway or reports why not, the threads run until the
  agent is served, and the guard of the admin socket ends it.  The socket is a new entry that only
  its owner may use, and what is removed in the end is this socket or nothing.
\<close>

section \<open>Paths that end at a socket\<close>

lemma ino_node_chmod: "map_option ino_node (fs_inodes (fs_chmod i m fs) j) = map_option ino_node (fs_inodes fs j)"
  by (auto simp: fs_chmod_def set_inode_def split: option.splits)

lemma pos_inode_chmod: "pos_inode (fs_chmod i m fs) st = pos_inode fs st"
  by (auto simp: pos_inode_def fs_chmod_def set_inode_def split: option.splits list.splits)

lemma walk_chmod: "walk k (fs_chmod i m fs) st p f = walk k fs st p f"
proof (induction k fs st p f rule: walk.induct)
  case (5 k fs st n cs follow)
  then show ?case
    by (auto simp: dir_entries_chmod ino_node_chmod pos_inode_chmod split: option.splits node.splits)
qed (simp_all add: dir_entries_chmod pos_inode_chmod)

text \<open>Following the last link makes no difference where there is none.\<close>

lemma walk_no_link:
  assumes "walk k fs st p False = Ok st'" and "\<not> (\<exists>t. map_option ino_node (fs_inodes fs (pos_inode fs st')) = Some (LinkNode t))"
  shows "walk k fs st p True = Ok st'"
  using assms
proof (induction k fs st p "False" rule: walk.induct)
  case (5 k fs st n cs)
  then show ?case by (auto simp: pos_inode_def split: option.splits node.splits if_splits)
qed (auto split: if_splits)

lemma lookup_socket:
  assumes "fs_symlink_metadata p fs = Ok md" and "is_socket md"
  shows "fs_lookup True p fs = Ok (md_ino md)" and "stat_inode fs (md_ino md) = Ok md"
proof -
  obtain st where st: "walk max_links fs (fs_cwd fs) p False = Ok st" and md: "stat_inode fs (pos_inode fs st) = Ok md"
    using assms(1) by (auto simp: fs_symlink_metadata_def fs_lookup_def bind_result_eq_Ok)
  then have "md_ino md = pos_inode fs st" and "map_option ino_node (fs_inodes fs (pos_inode fs st)) = Some SocketNode"
    using assms(2)
    by (auto simp: stat_inode_def is_socket_def node_kind_def split: option.splits node.splits)
  with walk_no_link [OF st] md show "fs_lookup True p fs = Ok (md_ino md)" "stat_inode fs (md_ino md) = Ok md"
    by (simp_all add: fs_lookup_def)
qed

lemma chmod_lookup:
  "fs_lookup f p (fs_chmod i m fs) = fs_lookup f p fs"
proof -
  have "fs_cwd (fs_chmod i m fs) = fs_cwd fs" by (simp add: fs_chmod_def set_inode_def split: option.splits)
  then show ?thesis by (simp add: fs_lookup_def walk_chmod pos_inode_chmod)
qed

section \<open>The admin socket\<close>

lemma create_listener_Ok:
  assumes "create_admin_listener p w = (Ok u, w1)"
  shows "\<exists>d n. fs_locate p (w_fs w) = Ok (d, n) \<and> dir_lookup (w_fs w) d n = None"
    and "\<exists>fs i. fs_lookup True p fs = Ok i \<and> w_fs w1 = fs_chmod i mode_owner_only fs"
proof -
  obtain w0 w2 where exists: "sys_exists p w = (False, w0)"
    and bind: "sys_bind_socket p w0 = (Ok (), w2)" and secure: "sys_set_permissions p mode_owner_only w2 = (Ok (), w1)"
    using assms unfolding create_admin_listener_def
    by (auto simp: with_err_eq_Ok split: prod.splits if_splits elim!: and_then_OkE)
  have "w_fs w0 = w_fs w" using exists by (auto simp: sys_exists_def dest: sys_read_fs split: prod.splits)
  then obtain fs where "fs_bind_socket p (w_fs w) = Ok ((), fs)"
    using bind by (auto simp: sys_bind_socket_def dest!: sys_update_OkD)
  then obtain d n m x where "fs_locate p (w_fs w) = Ok (d, n)" and "fs_create_at d n m (w_fs w) = Ok x"
    unfolding fs_bind_socket_def by (auto elim!: bind_result_OkE split: prod.splits result.splits)
  then show "\<exists>d n. fs_locate p (w_fs w) = Ok (d, n) \<and> dir_lookup (w_fs w) d n = None"
    by (auto simp: fs_create_at_def dir_lookup_def split: option.splits if_splits)
  from secure show "\<exists>fs i. fs_lookup True p fs = Ok i \<and> w_fs w1 = fs_chmod i mode_owner_only fs"
    by (fastforce simp: sys_set_permissions_def fs_set_permissions_def bind_result_eq_Ok
        dest!: sys_update_OkD split: if_splits)
qed

lemma drop_guard_fs:
  "w_fs (drop_socket_guard guard w) = w_fs w \<or>
   (\<exists>md. fs_symlink_metadata (ag_path guard) (w_fs w) = Ok md \<and> is_socket md \<and>
      md_dev md = ag_device guard \<and> md_ino md = ag_inode guard \<and>
      fs_remove_file (ag_path guard) (w_fs w) = Ok ((), w_fs (drop_socket_guard guard w)))"
proof (cases "sys_read (fs_symlink_metadata (ag_path guard)) w")
  case (Pair r w1)
  have fs: "w_fs w1 = w_fs w" using sys_read_fs [OF Pair] .
  show ?thesis
  proof (cases r)
    case (Ok md)
    have md: "fs_symlink_metadata (ag_path guard) (w_fs w) = Ok md" using sys_read_OkD [OF Pair [unfolded Ok]] by simp
    obtain q w2 where remove: "sys_remove_file (ag_path guard) w1 = (q, w2)" by fastforce
    show ?thesis
    proof (cases q)
      case (Ok v)
      then have "fs_remove_file (ag_path guard) (w_fs w) = Ok ((), w_fs w2)"
        using remove fs by (auto simp: sys_remove_file_def dest!: sys_update_OkD)
      then show ?thesis
        using Pair \<open>r = Ok md\<close> md fs remove Ok by (simp add: drop_socket_guard_def ignore_err_def)
    next
      case (Err e)
      then have "w_fs w2 = w_fs w"
        using remove fs by (auto simp: sys_remove_file_def dest!: sys_update_ErrD)
      then show ?thesis
        using Pair \<open>r = Ok md\<close> fs remove Err by (simp add: drop_socket_guard_def ignore_err_def)
    qed
  qed (simp add: drop_socket_guard_def Pair fs)
qed

lemma shut_down_drops: "snd (shut_down guard served task w) = drop_socket_guard guard w"
  by (simp add: shut_down_def split: result.splits)

section \<open>The life of the process\<close>

text \<open>
  \<open>main\<close>: it does not start, or the threads run for as long as the agent is served, then the
  listener is stopped and the guard dropped.
\<close>

datatype ('e, 'f) main_failure = NotStarted startup_error | Ended "('e, 'f) main_error"

inductive main_run ::
  "externals \<Rightarrow> store_json \<Rightarrow> (string \<Rightarrow> (gateway_config_file, string) result) \<Rightarrow> error_texts
   \<Rightarrow> world \<Rightarrow> (unit, ('e, 'f) main_failure) result \<Rightarrow> world \<Rightarrow> bool"
  for X J toml T
where
  Fails: "start_gateway X J toml w = (Err e, w') \<Longrightarrow> main_run X J toml T w (Err (NotStarted e)) w'"
| Serves: "start_gateway X J toml w = (Ok rg, w1) \<Longrightarrow>
     (thread_step X J T (rg_gateway rg))\<^sup>*\<^sup>* (idle (rg_state rg)) c \<Longrightarrow>
     shut_down (rg_guard rg) served admin_task (gs_world (th_shared c)) = (r, w') \<Longrightarrow>
     main_run X J toml T w (map_err Ended r) w'"

lemma thread_run_steps:
  "(thread_step X J T g)\<^sup>*\<^sup>* c c' \<Longrightarrow> thread_run X J toml T g c \<Longrightarrow> thread_run X J toml T g c'"
  by (induction rule: rtranclp_induct) (auto intro: thread_run.Next)

lemma quiet_drop_guard: "quiet w (drop_socket_guard guard w)"
proof (cases "sys_read (fs_symlink_metadata (ag_path guard)) w")
  case (Pair r w1)
  then have "quiet w w1" using keepsD [OF quiet_sys_read] by blast
  moreover have "quiet w1 (ignore_err (sys_remove_file (ag_path guard)) w1)"
    by (rule quiet_ignore_err) (rule quiet_path_calls)
  ultimately show ?thesis
    using Pair by (auto simp: drop_socket_guard_def intro: quiet_trans split: result.splits)
qed

lemma start_gateway_quiet: "keeps quiet (start_gateway X J toml)"
proof -
  have opened: "keeps quiet (\<lambda>w. case open_gateway X J c root w of
       (Err error, w1) \<Rightarrow> (Err error, drop_socket_guard guard w1)
     | (Ok (gateway, store), w1) \<Rightarrow> (Ok (f gateway store w1), w1))" for c root guard and f :: "_ \<Rightarrow> _ \<Rightarrow> _ \<Rightarrow> running_gateway"
  proof (rule keepsI)
    fix w r w' assume run: "(case open_gateway X J c root w of
       (Err error, w1) \<Rightarrow> (Err error, drop_socket_guard guard w1)
     | (Ok (gateway, store), w1) \<Rightarrow> (Ok (f gateway store w1), w1)) = (r, w')"
    obtain q w1 where opens: "open_gateway X J c root w = (q, w1)" by fastforce
    then have "quiet w w1" by (rule keepsD [OF quiet_open_gateway])
    then show "quiet w w'"
      using run opens quiet_drop_guard [of w1 guard] by (auto intro: quiet_trans split: result.splits prod.splits)
  qed
  show ?thesis
    unfolding start_gateway_def by (intro keeps_intros opened)
qed

text \<open>The trace the process leaves, however it ends.\<close>

lemma main_run_answered:
  assumes "main_run X J toml T w r w'" and "w_trace w = []"
  shows "answered (w_trace w')"
  using assms(1)
proof (cases rule: main_run.cases)
  case (Fails e)
  then have "w_trace w' = []" using keepsD [OF start_gateway_quiet] assms(2) by (fastforce simp: quiet_def)
  then show ?thesis using answered_harmless [of "[]"] by simp
next
  case (Serves rg w1 c served admin_task r)
  have "thread_run X J toml T (rg_gateway rg) c"
    using thread_run_steps [OF Serves(3)] thread_run.Start [OF Serves(2) assms(2)] by blast
  then have "answered (trace (th_shared c))" using thread_invariant by (simp add: threads_ok_def)
  moreover have "w' = drop_socket_guard (rg_guard rg) (gs_world (th_shared c))"
    using shut_down_drops Serves(4) by (metis snd_conv)
  ultimately show ?thesis using quiet_drop_guard by (simp add: quiet_def)
qed

section \<open>Properties\<close>

text \<open>C33: an admin socket that is created is a new entry at a name that was free, a
  socket only its owner may use, and its guard has its device and inode; when the gateway stops,
  nothing of the file system changes but that this very socket is removed, if it is still what the
  path leads to.\<close>

theorem socket_owned:
  assumes "create_managed_admin_listener p w = (Ok guard, w1)"
  shows "(\<exists>d n. fs_locate p (w_fs w) = Ok (d, n) \<and> dir_lookup (w_fs w) d n = None) \<and>
    (\<exists>md. fs_symlink_metadata p (w_fs w1) = Ok md \<and> is_socket md \<and> md_mode md = mode_owner_only \<and>
      guard = \<lparr>ag_path = p, ag_device = md_dev md, ag_inode = md_ino md\<rparr>) \<and>
    (w_fs (snd (shut_down guard served admin_task w2)) = w_fs w2 \<or>
      (\<exists>md. fs_symlink_metadata p (w_fs w2) = Ok md \<and> is_socket md \<and>
        md_dev md = ag_device guard \<and> md_ino md = ag_inode guard \<and>
        fs_remove_file p (w_fs w2) = Ok ((), w_fs (snd (shut_down guard served admin_task w2)))))"
proof -
  obtain w0 where create: "create_admin_listener p w = (Ok (), w0)" and own: "new_socket_guard p w0 = (Ok guard, w1)"
    using assms unfolding create_managed_admin_listener_def
    by (auto elim!: and_then_OkE split: prod.splits result.splits if_splits)
  obtain md where md: "fs_symlink_metadata p (w_fs w0) = Ok md" "is_socket md" "w_fs w1 = w_fs w0"
    and guard: "guard = \<lparr>ag_path = p, ag_device = md_dev md, ag_inode = md_ino md\<rparr>"
    using own unfolding new_socket_guard_def
    by (auto simp: with_err_eq_Ok elim!: and_then_OkE dest!: sys_read_OkD split: if_splits)
  obtain fs i where fs: "fs_lookup True p fs = Ok i" "w_fs w0 = fs_chmod i mode_owner_only fs"
    using create_listener_Ok(2) [OF create] by blast
  then have "md_ino md = i" using lookup_socket(1) [OF md(1,2)] by (simp add: chmod_lookup)
  then have "stat_inode (fs_chmod i mode_owner_only fs) i = Ok md" using lookup_socket(2) [OF md(1,2)] fs(2) by simp
  then have "md_mode md = mode_owner_only"
    by (auto simp: stat_inode_def fs_chmod_def set_inode_def split: option.splits)
  then show ?thesis
    using create_listener_Ok(1) [OF create] md guard drop_guard_fs [of guard w2] by (auto simp: shut_down_drops)
qed

theorem socket_owned_witness:
  "\<exists>guard w1 md. create_managed_admin_listener [RootDir, Normal ''state'', Normal ''socket''] sample_world = (Ok guard, w1) \<and>
     fs_symlink_metadata [RootDir, Normal ''state'', Normal ''socket''] (w_fs w1) = Ok md \<and> md_mode md = mode_owner_only"
proof -
  let ?p = "[RootDir, Normal ''state'', Normal ''socket'']"
  have "\<not> is_err (fst (create_managed_admin_listener ?p sample_world))" by code_simp
  then obtain guard where "fst (create_managed_admin_listener ?p sample_world) = Ok guard"
    by (cases "fst (create_managed_admin_listener ?p sample_world)") auto
  then have "create_managed_admin_listener ?p sample_world = (Ok guard, snd (create_managed_admin_listener ?p sample_world))"
    by (simp add: prod_eq_iff)
  from this socket_owned [OF this] show ?thesis by blast
qed

text \<open>
  A socket whose mode cannot be restricted stays where it is, and the next start finds it.
\<close>

lemma socket_left_behind:
  "case create_managed_admin_listener [RootDir, Normal ''state'', Normal ''socket'']
       (sample_world\<lparr>w_fault := (\<lambda>t. if t = 2 then Some (PermissionDenied, 0) else None)\<rparr>) of
     (r, w1) \<Rightarrow> r = Err (SecureSocket PermissionDenied) \<and>
       fst (create_managed_admin_listener [RootDir, Normal ''state'', Normal ''socket''] w1) = Err SocketPathExists"
  by code_simp

end
