(* ===== verification/Opening.thy ===== *)
theory Opening
  imports System Anchored
begin

text \<open>
  What a start establishes: the two operational files lie outside the workspace in the directories
  that were validated, and the store holds what the state file says.
\<close>

section \<open>Operational files\<close>

text \<open>A validated path, against the file system it was validated on.\<close>

definition outside_workspace :: "path \<Rightarrow> path \<Rightarrow> fsys \<Rightarrow> validated_operational_state_path \<Rightarrow> bool" where
  "outside_workspace workspace_root p fs v \<longleftrightarrow>
     is_absolute p \<and>
     (\<exists>parent name canonical_root canonical_parent m. path_parent p = Some parent \<and> path_file_name p = Some name \<and>
        fs_canonicalize workspace_root fs = Ok canonical_root \<and> fs_canonicalize parent fs = Ok canonical_parent \<and>
        fs_metadata canonical_parent fs = Ok m \<and> is_dir m \<and>
        vp_parent_device v = md_dev m \<and> vp_parent_inode v = md_ino m \<and>
        (vp_path v = path_join canonical_parent [Normal name] \<or>
         fs_canonicalize (path_join canonical_parent [Normal name]) fs = Ok (vp_path v)) \<and>
        \<not> path_starts_with (vp_path v) canonical_root)"

lemma same_fs_check_operational [keeps_intros]: "keeps same_fs (check_operational_file p)"
  by (rule keepsI) (auto simp: check_operational_file_def same_fs_def
      split: prod.splits result.splits if_splits dest!: sys_read_fs)

lemma resolve_operational_runs:
  assumes "resolve_operational_file p w = (r, w')"
  shows "w_fs w' = w_fs w" and "r = Ok q \<Longrightarrow> q = p \<or> fs_canonicalize p (w_fs w) = Ok q"
  using assms by (auto simp: resolve_operational_file_def
      split: prod.splits result.splits if_splits dest!: sys_read_fs sys_read_OkD)

lemma validate_operational_Ok:
  assumes "validate_operational_state_path workspace_root p w = (Ok v, w')"
  shows "outside_workspace workspace_root p (w_fs w) v" and "w_fs w' = w_fs w"
proof -
  from assms obtain canonical_root parent canonical_parent m name w1 w2 resolved where
    absolute: "is_absolute p" and parent: "path_parent p = Some parent" "path_file_name p = Some name"
    and root: "fs_canonicalize workspace_root (w_fs w) = Ok canonical_root"
    and found: "fs_canonicalize parent (w_fs w) = Ok canonical_parent"
    and m: "fs_metadata canonical_parent (w_fs w) = Ok m" "is_dir m"
    and check: "check_operational_file (path_join canonical_parent [Normal name]) (tick (tick (tick w))) = (Ok (), w1)"
    and resolve: "resolve_operational_file (path_join canonical_parent [Normal name]) w1 = (Ok resolved, w2)"
    and rest: "(if path_starts_with resolved canonical_root then fail InsideWorkspace
          else ret \<lparr>vp_path = resolved, vp_parent_device = md_dev m, vp_parent_inode = md_ino m\<rparr>) w2 = (Ok v, w')"
    unfolding validate_operational_state_path_def Let_def
    by (auto simp: with_err_eq_Ok elim!: and_then_OkE dest!: sys_read_OkD split: if_splits)
  have fs: "w_fs w1 = w_fs w" using keepsD [OF same_fs_check_operational check] by (simp add: same_fs_def)
  note resolved = resolve_operational_runs [OF resolve]
  show "w_fs w' = w_fs w" using rest resolved(1) fs by (auto split: if_splits)
  show "outside_workspace workspace_root p (w_fs w) v"
    using absolute parent root found m rest resolved(2) fs
    unfolding outside_workspace_def by (auto split: if_splits)
qed

section \<open>Directories opened\<close>

text \<open>The open directory is the validated one.\<close>

definition opened_as :: "fsys \<Rightarrow> nat \<Rightarrow> nat \<Rightarrow> nat \<Rightarrow> bool" where
  "opened_as fs d dev ino \<longleftrightarrow>
     d = ino \<and> dir_entries fs d \<noteq> None \<and> map_option ino_dev (fs_inodes fs d) = Some dev"

lemma stat_opened:
  "stat_inode fs d = Ok m \<Longrightarrow> is_dir m \<Longrightarrow> md_dev m = dev \<Longrightarrow> md_ino m = ino \<Longrightarrow> opened_as fs d dev ino"
  by (auto simp: opened_as_def stat_is_dir) (auto simp: stat_inode_def split: option.splits)

lemma from_validated_Ok:
  assumes "from_validated_path p dev ino w = (Ok log, w')"
  shows "w_fs w' = w_fs w" and "opened_as (w_fs w) (al_parent_directory log) dev ino"
    and "path_file_name (al_path log) = path_file_name p"
  using assms unfolding from_validated_path_def
  by (auto simp: with_err_eq_Ok path_join_def path_file_name_def stat_opened elim!: and_then_OkE
      dest!: sys_read_OkD sys_fd_metadata_OkD split: option.splits if_splits)

text \<open>Without a device that claims that something is missing, a load reads what the file holds.\<close>

definition honest :: "world \<Rightarrow> bool" where
  "honest w \<longleftrightarrow> (\<forall>t e n. w_fault w t = Some (e, n) \<longrightarrow> e \<noteq> NotFound)"

lemma read_state_file_Ok:
  assumes "read_state_file J d name w = (Ok st, w')"
  shows "w_fs w' = w_fs w"
    and "honest w \<Longrightarrow> case state_text (w_fs w) d name of
        None \<Rightarrow> st = new_store | Some bytes \<Rightarrow> from_serialized_state J bytes = Ok st"
proof -
  obtain r w1 where opened: "sys_read (fs_open_at False d name) w = (r, w1)" by fastforce
  have fs1: "w_fs w1 = w_fs w" using opened by (rule sys_read_fs)
  show "w_fs w' = w_fs w"
    using assms opened fs1
    by (cases r) (auto simp: read_state_file_def with_err_eq_Ok elim!: and_then_OkE
        dest!: sys_read_OkD sys_fd_metadata_OkD split: if_splits option.splits)
  show "case state_text (w_fs w) d name of
        None \<Rightarrow> st = new_store | Some bytes \<Rightarrow> from_serialized_state J bytes = Ok st" if "honest w"
  proof (cases r)
    case (Ok i)
    then have "dir_lookup (w_fs w) d name = Some i"
      using opened by (auto simp: fs_open_at_def dir_lookup_def dest!: sys_read_OkD split: option.splits node.splits)
    moreover obtain bytes where "file_content (w_fs w) i = Some bytes" "from_serialized_state J bytes = Ok st"
      using assms opened fs1 Ok
      by (auto simp: read_state_file_def with_err_eq_Ok file_bytes_def from_utf8_def elim!: and_then_OkE
        dest!: sys_read_OkD sys_fd_metadata_OkD split: if_splits option.splits)
    ultimately show ?thesis by (simp add: state_text_def)
  next
    case (Err e)
    then have "e = NotFound" "st = new_store"
      using assms opened by (auto simp: read_state_file_def split: if_splits)
    moreover from this Err opened that have "fs_open_at False d name (w_fs w) = Err NotFound"
      by (auto simp: sys_read_def honest_def split: option.splits)
    then have "state_text (w_fs w) d name = None"
      by (auto simp: fs_open_at_def state_text_def dir_lookup_def file_content_def split: option.splits node.splits if_splits)
    ultimately show ?thesis by simp
  qed
qed

lemma load_validated_runs:
  assumes "load_from_validated_path J p dev ino w = (Ok st, w')"
  obtains d name st0 where "w_fs w' = w_fs w" and "opened_as (w_fs w) d dev ino"
    and "path_file_name p = Some name" and "persistence_parent st = Some d"
    and "\<exists>path. persistence_path st = Some path \<and> path_file_name path = Some name"
    and "same_content st st0"
    and "honest w \<Longrightarrow> case state_text (w_fs w) d name of
        None \<Rightarrow> st0 = new_store | Some bytes \<Rightarrow> from_serialized_state J bytes = Ok st0"
proof -
  from assms obtain name canonical_parent d m w1 st0 where name: "path_file_name p = Some name"
    and m: "stat_inode (w_fs w) d = Ok m" "is_dir m" "md_dev m = dev" "md_ino m = ino"
    and w1: "w1 = tick (tick (tick w))" and load: "read_state_file J d name w1 = (Ok st0, w')"
    and st: "st = st0\<lparr>persistence_path := Some (path_join canonical_parent [Normal name]), persistence_parent := Some d\<rparr>"
    unfolding load_from_validated_path_def load_from_path_with_parent_identity_def
    by (auto simp: with_err_eq_Ok elim!: and_then_OkE dest!: sys_read_OkD sys_fd_metadata_OkD
        split: option.splits if_splits)
  have fs: "w_fs w1 = w_fs w" "w_fault w1 = w_fault w" by (simp_all add: w1 tick_def)
  note read = read_state_file_Ok [OF load]
  show thesis
  proof (rule that [of d name st0])
    show "w_fs w' = w_fs w" using read(1) fs by simp
    show "opened_as (w_fs w) d dev ino" using m by (rule stat_opened)
    show "\<exists>path. persistence_path st = Some path \<and> path_file_name path = Some name"
      by (simp add: st path_join_def path_file_name_def)
    show "same_content st st0" by (simp add: st same_content_def)
    show "case state_text (w_fs w) d name of
        None \<Rightarrow> st0 = new_store | Some bytes \<Rightarrow> from_serialized_state J bytes = Ok st0" if "honest w"
      using read(2) that fs by (simp add: honest_def)
  qed (simp_all add: name st)
qed

section \<open>Opening everything\<close>

lemma operational_file_Ok:
  assumes "operational_file X root name w = (Ok v, w')"
  obtains t where "map_of (x_env X) name = Some t" and "outside_workspace root (path_of t) (w_fs w) v"
    and "w_fs w' = w_fs w"
  using assms validate_operational_Ok
  by (auto simp: operational_file_def env_var_def with_err_eq_Ok elim!: and_then_OkE
      split: option.splits if_splits)

section \<open>Properties\<close>

text \<open>C17: a gateway that opens has its audit log and its state file outside
  the workspace, each in the very directory (device and inode) that was validated, and changed
  nothing on the way.\<close>

theorem opened_where_validated:
  assumes "open_gateway X J config root w = (Ok (g, st), w')"
  shows "w_fs w' = w_fs w \<and>
    (\<exists>fc log t vs vl. g = anchored_gateway X fc config log \<and> fc_workspace_root fc = root \<and>
      map_of (x_env X) ''ZYGUOR_PENDING_REVIEW_STATE_PATH'' = Some t \<and>
      outside_workspace root (path_of t) (w_fs w) vs \<and>
      (\<exists>d. persistence_parent st = Some d \<and> opened_as (w_fs w) d (vp_parent_device vs) (vp_parent_inode vs)) \<and>
      (\<exists>t. map_of (x_env X) ''ZYGUOR_AUDIT_LOG_PATH'' = Some t \<and> outside_workspace root (path_of t) (w_fs w) vl) \<and>
      opened_as (w_fs w) (al_parent_directory log) (vp_parent_device vl) (vp_parent_inode vl) \<and>
      path_file_name (al_path log) = path_file_name (vp_path vl))"
proof -
  from assms obtain vs w1 vl w2 log w3 w4 fc where
    state: "operational_file X root ''ZYGUOR_PENDING_REVIEW_STATE_PATH'' w = (Ok vs, w1)"
    and audit: "operational_file X root ''ZYGUOR_AUDIT_LOG_PATH'' w1 = (Ok vl, w2)"
    and log: "from_validated_path (vp_path vl) (vp_parent_device vl) (vp_parent_inode vl) w2 = (Ok log, w3)"
    and load: "load_from_validated_path J (vp_path vs) (vp_parent_device vs) (vp_parent_inode vs) w3 = (Ok st, w4)"
    and workspace: "try_new X root w4 = (Ok fc, w')"
    and g: "g = anchored_gateway X fc config log"
    unfolding open_gateway_def
    by (auto simp: with_err_eq_Ok anchored_gateway_def elim!: and_then_OkE)
  obtain t where t: "map_of (x_env X) ''ZYGUOR_PENDING_REVIEW_STATE_PATH'' = Some t"
    "outside_workspace root (path_of t) (w_fs w) vs" "w_fs w1 = w_fs w"
    using state by (rule operational_file_Ok)
  obtain t' where t': "map_of (x_env X) ''ZYGUOR_AUDIT_LOG_PATH'' = Some t'"
    "outside_workspace root (path_of t') (w_fs w1) vl" "w_fs w2 = w_fs w1"
    using audit by (rule operational_file_Ok)
  note opened = from_validated_Ok [OF log]
  obtain d where d: "w_fs w4 = w_fs w3" "opened_as (w_fs w3) d (vp_parent_device vs) (vp_parent_inode vs)"
    "persistence_parent st = Some d"
    using load by (rule load_validated_runs)
  have "w_fs w' = w_fs w4" "fc_workspace_root fc = root"
    using workspace by (auto simp: try_new_def with_err_eq_Ok elim!: and_then_OkE dest!: sys_read_OkD)
  then show ?thesis using g t t' opened d by metis
qed

theorem opened_where_validated_witness:
  "\<exists>g st w'. open_gateway (sample_externals\<lparr>x_env := [(''ZYGUOR_PENDING_REVIEW_STATE_PATH'', ''/state/reviews''),
      (''ZYGUOR_AUDIT_LOG_PATH'', ''/state/audit'')]\<rparr>) sample_json default_gateway_config [RootDir, Normal ''work''] sample_world
      = (Ok (g, st), w') \<and> w_fs w' = sample_fs \<and>
    (\<exists>v. outside_workspace [RootDir, Normal ''work''] (path_of ''/state/reviews'') sample_fs v)"
proof -
  let ?X = "sample_externals\<lparr>x_env := [(''ZYGUOR_PENDING_REVIEW_STATE_PATH'', ''/state/reviews''),
      (''ZYGUOR_AUDIT_LOG_PATH'', ''/state/audit'')]\<rparr>"
  have "\<not> is_err (fst (open_gateway ?X sample_json default_gateway_config [RootDir, Normal ''work''] sample_world))"
    by code_simp
  then obtain g st w' where run: "open_gateway ?X sample_json default_gateway_config [RootDir, Normal ''work''] sample_world
      = (Ok (g, st), w')"
    unfolding not_is_err by (metis prod.collapse)
  from opened_where_validated [OF run] run show ?thesis by (auto simp: sample_world_def)
qed



end
