(* ===== verification/Spec2Isabelle.thy ===== *)
theory Spec2Isabelle
  imports Guarantees Lifetime Opening
begin

text \<open>
  A model of the agent execution gateway of \<open>src/src\<close> and its correctness.

  \<^bold>\<open>The program.\<close> The gateway is a process with one tool, \<open>execute\<close>, that an agent calls over
  standard input and output, and one Unix socket on which the operator of the machine sends
  commands. A call of the tool names one of six operations and a purpose. A capability policy
  answers \<open>Allow\<close>, \<open>Review\<close> or \<open>Block\<close>. An allowed operation runs at once (an addition in a
  WebAssembly sandbox, a bounded read below the workspace, a GET request to an allowlisted host, a
  Git status); one to be reviewed (a write, \<open>cargo test\<close>, a POST request) is put into a store of
  pending requests that is saved in a state file, and waits for \<open>APPROVE\<close> or \<open>REJECT\<close>. An approval
  checks that what was reviewed still holds, claims the request, writes an approval record and a
  pre-execution record to the audit log, performs the operation, writes the completion record and
  consumes the request. What was claimed when the process died is settled by \<open>ACK_CLAIMED\<close>.

  \<^bold>\<open>Theories and sources\<close>, in the order they build on each other:

  \<^item> \<open>Prelude\<close>: \<open>result\<close> values, the state-passing calls \<open>act\<close> with \<open>and_then\<close>, \<open>with_err\<close>,
    \<open>fail\<close>, \<open>ret\<close>, the rule collections, and the predicate \<open>keeps\<close> with its rules: a relation that
    every call of a composed operation respects is respected by the operation.
  \<^item> \<open>Strings\<close>, \<open>Paths\<close>: what the sources use of Rust's strings (as bytes) and paths.
  \<^item> \<open>Policy\<close> (\<open>policy.rs\<close>, policy part of \<open>config.rs\<close>), \<open>Execution\<close> (\<open>execution.rs\<close> and the data
    the other files exchange), \<open>Config\<close> (\<open>config.rs\<close>), \<open>Http\<close> (\<open>http.rs\<close>, \<open>http_execution.rs\<close>).
  \<^item> \<open>World\<close>, \<open>FsFacts\<close>, \<open>PathCalls\<close>: the operating system below the program: a file system of
    inodes with a volatile and a stable part, symbolic links and open directories; every call may be
    failed by the fault plan \<open>w_fault\<close>; clocks, random identifiers and the trace \<open>w_trace\<close> of what
    left the process (audit lines and their syncs, HTTP requests, builds, replaced files).
  \<^item> \<open>Externals\<close>: the parameters, that is the functions of crates and of programs the gateway
    starts, as fields of the record \<open>externals\<close>: URL parsing, DNS, the HTTP client, SHA-256, UUID
    texts, JSON texts, Wasmtime, libgit2, the child process, and the capability directory of
    cap-std.
  \<^item> \<open>AuditLog\<close> (\<open>audit.rs\<close>), \<open>FileSystem\<close> (\<open>filesystem.rs\<close>), \<open>PendingReview\<close> and \<open>Persistence\<close>
    (\<open>pending_review.rs\<close>: the two maps, the four operations with their roll back, the save through
    a synced temporary file and a rename), \<open>Workspace\<close> (\<open>workspace_fingerprint.rs\<close>,
    \<open>workspace_snapshot.rs\<close>), \<open>CargoTest\<close> (\<open>cargo_test.rs\<close>), \<open>Sandbox\<close> (\<open>sandbox.rs\<close>),
    \<open>GitStatus\<close> (\<open>git.rs\<close>).
  \<^item> \<open>Gateway\<close>, \<open>Admin\<close>, \<open>Startup\<close> (\<open>main.rs\<close>): the tool handler, the commands of the operator
    and their connection, and starting and stopping.
  \<^item> \<open>Quiet\<close>, \<open>Safety\<close>, \<open>System\<close>: the facts about the whole: which calls emit nothing, what each
    handler emits and in which order, what it leaves in the store, and runs.
  \<^item> \<open>Containment\<close>: paths that pass the checks of \<open>filesystem.rs\<close> name places below the workspace
    root, for every arrangement of symbolic links. \<open>Anchored\<close>: the locale \<open>anchored_directory\<close>, the
    contract the code relies on of a directory opened through cap-std, with its interpretation
    \<open>handle\<close> on the calls of the world relative to an open directory; on it, a write replaces the
    whole file and a read returns the whole file. \<open>Answers\<close>: what an answer to the agent or to the
    operator says was done. \<open>Opening\<close>: loading of the saved store at a start.
  \<^item> \<open>Tasks\<close>, \<open>Handlers\<close>: the handlers of \<open>main.rs\<close> again, as tasks that other threads can
    interrupt. \<open>Interleaving\<close>, \<open>Contracts\<close>: what each task may do to the others and what it
    promises, section by section. \<open>Concurrency\<close>: the running gateway with all its threads, and its
    invariant. \<open>Guarantees\<close>: what follows for the trace, the answers, the replies and the store.
    \<open>Lifetime\<close>: \<open>main\<close> from the start to the end of the process, and the admin socket it owns.
  \<^item> \<open>Samples\<close>, \<open>Examples\<close>, \<open>Schedules\<close>: a small world, evaluated runs and one evaluated
    schedule, used by the witnesses.

  \<^bold>\<open>State.\<close> A handler maps a \<open>gateway_state\<close> (the store behind its mutex, the poison flags of the
  two mutexes, the world) to a result and the next state, so every early return, with the state it
  leaves, is a branch. A Rust record is a record with the field names prefixed, an \<open>enum\<close> is a
  datatype, an error type is the datatype of the places it can arise at; integers keep their width
  where the source computes with them (the sum of the sandbox, ports, status codes, lengths that are
  hashed); sizes and durations that are only compared are natural numbers.

  \<^bold>\<open>Lemmas.\<close> The locale \<open>review_store\<close> states the contract of the store (insert, claim, put back,
  consume over the phases \<open>Absent\<close>, \<open>Pending\<close>, \<open>Claimed\<close>) and is interpreted on the store alone
  (\<open>memory\<close>) and on the store together with its file (\<open>on_disk\<close>); \<open>audit_sink\<close> and \<open>audit_writer\<close>
  state that a sink emits one record, synced when it reports success, and are interpreted on both
  sinks of the source (\<open>anchored\<close>, \<open>path_sink\<close>). \<open>Safety\<close> proves
  in the order of the code that no effect precedes its records (\<open>guarded\<close>), \<open>System\<close> closes this
  under \<open>gateway_step\<close>: a call of the tool, a connection of the operator, or a change of the world
  that is not the gateway's own.

  \<^bold>\<open>Threads.\<close> The calls of the tool run at the same time as each other and as the operator's
  connection, and share the store, the audit log and the world. A \<open>task\<close> is a sequence of sections,
  one for each use of the store under its mutex, each record written under the audit mutex, and each
  other call of a handler; a thread can be stopped between two sections for as long as the scheduler
  likes, or for ever. \<open>thread_step\<close> moves one thread by one section, starts or answers a call, takes
  or answers a connection (one at a time, as the accept loop does), or changes the world from outside.
  A task run alone is its handler (\<open>alone_is_handler\<close>). \<open>obeys R G Q\<close> is a contract of a task: if the
  others move the state only as \<open>R\<close> allows, its own sections move it as \<open>G\<close> says and the end
  satisfies \<open>Q\<close>. The locale \<open>interference\<close> is what a rely must be (interpreted on \<open>extends\<close>, what
  anybody may do, as \<open>tool_others\<close>, and on \<open>bystander\<close>, what calls of the tool may do to the
  operator, as \<open>operator_others\<close>); the locale \<open>contributor\<close> is a thread that keeps a log of what it
  has added to the trace and writes audit records, interpreted on the tool's log (\<open>agent\<close>) and on
  the operator's ledger (\<open>operator\<close>). The calls of the system inside one section are not interleaved
  with other sections.

  \<^bold>\<open>Bounds.\<close> Resolving a path follows at most \<open>max_links\<close> = 40 symbolic links, as Linux does, and
  fails with the error of the kernel after that. A workspace is walked to \<open>max_depth\<close> = 2048 levels:
  a deeper path is longer than the 4096 bytes the kernel accepts, so the call there fails with that
  error. The waiting loop for Cargo is a function on the remaining time. No other fuel is used. A call
  of the tool is done after nine sections, a connection after twelve (\<open>handlers_finish\<close>).

  \<^bold>\<open>Not modelled.\<close> Within one section, such as a whole build or a whole save of the state file, the
  gateway's own threads do not interleave; the environment changes the world between sections only.
  The transport of the tool (MCP over standard input and output) only carries parameters and a text.
  The texts of most errors are a parameter. The test modules, and what is compiled for tests only,
  are left out.
\<close>

section \<open>Properties\<close>

text \<open>In every run of the gateway, whatever the agent asks, the operator
  sends and the environment does in between, a write, a build or a POST request happens only after
  an approval record and a pre-execution record of the same request were written to the audit log
  and synced, a GET request only after a synced pre-execution record, and there are never more of
  the former effects than approval records.\<close>

theorem every_effect_answered:
  assumes "gateway_run X J toml T g gs"
  shows "(\<forall>k. k < length (w_trace (gs_world gs)) \<and> needs_approval (w_trace (gs_world gs) ! k) \<longrightarrow>
      (\<exists>u. synced_before (decision_record Approval u) (w_trace (gs_world gs)) k \<and>
           synced_before (decision_record PreExecution u) (w_trace (gs_world gs)) k)) \<and>
    guarded (\<lambda>r. ar_phase r = PreExecution) (w_trace (gs_world gs)) \<and>
    length (filter needs_approval (w_trace (gs_world gs))) \<le> length (filter is_approval (w_trace (gs_world gs)))"
  using run_invariant [OF assms] by (auto simp: run_ok_def answered_def approved_before_def)

theorem every_effect_answered_witness:
  "\<exists>es. filter effect es = [EvHttp Get ''https://api.example.com/'' None] \<and>
    guarded (\<lambda>r. ar_phase r = PreExecution) es"
  using every_effect_answered [OF held_page_sequential] held_page_run by blast

text \<open>C18: a call of the tool has at most one effect, a GET request, and only after a
  synced pre-execution record of an allowed request; whatever was in the trace before is kept.\<close>

theorem agent_effects:
  "let gs' = snd (execute X J (anchored_gateway X fc c log) params gs); es = new_events gs gs' in
   w_trace (gs_world gs') = w_trace (gs_world gs) @ es \<and> get_only es \<and> guarded agent_record es"
proof -
  obtain r gs' where run: "execute_request_with_config X J (anchored_gateway X fc c log) params gs = (r, gs')"
    by fastforce
  then have "snd (execute X J (anchored_gateway X fc c log) params gs) = gs'"
    by (simp add: execute_def split: result.splits)
  moreover obtain es where "emits es gs gs'" "get_only es" "guarded agent_record es"
    using tool_runs [OF run] by blast
  ultimately show ?thesis
    using emits_new_events by (auto simp: Let_def emits_def adds_def)
qed

text \<open>An approval has at most one effect, the one the pending request stands
  for, and only after its approval record and its pre-execution record are synced.\<close>

theorem approval_effects:
  assumes "store_ok (gs_store gs)"
  shows "let es = new_events gs (snd (handle_admin_command_with_config X J (anchored_gateway X fc c log) (Approve u) gs)) in
    (filter effect es = [] \<or>
      (\<exists>p e. phase (gs_store gs) u = Pending p \<and> effect_of_review p e \<and> filter effect es = [e])) \<and>
    guarded (decision_record Approval u) es \<and> guarded (decision_record PreExecution u) es"
proof -
  obtain r gs' where run: "approve_command X J (anchored_gateway X fc c log) (execute_http_post_with_config X c) u gs = (r, gs')"
    by fastforce
  from approve_runs [OF run assms] show ?thesis
    by (auto simp: run Let_def approval_events_def dest: emits_new_events)
qed

theorem approval_effects_witness:
  "\<exists>p. phase sample_held 5 = Pending p \<and> effect_of_review p (EvReplaced ''a'' ''b'') \<and>
     guarded (decision_record Approval 5) (new_events sample_state sample_approved)"
proof -
  have "gs_store sample_state = sample_held" by (simp add: sample_state_def)
  then show ?thesis
    using approval_effects [OF sample_state_ok, where X = sample_externals and J = sample_json
        and fc = sample_capability and c = default_gateway_config and log = sample_log and u = 5] sample_approval
    by (auto simp: Let_def sample_approved_def sample_gateway_def)
qed

text \<open>An approval has an effect only if the state it was reviewed with still
  holds on the file system the command finds: the captured state of the write target, the
  fingerprint of the workspace, the allowlisted destination of a POST request.\<close>

theorem approved_as_reviewed:
  assumes "store_ok (gs_store gs)"
    and "filter effect (new_events gs
      (snd (handle_admin_command_with_config X J (anchored_gateway X fc c log) (Approve u) gs))) \<noteq> []"
  shows "\<exists>p. phase (gs_store gs) u = Pending p \<and> as_reviewed X fc c p (w_fs (gs_world gs))"
proof -
  obtain r gs' where run: "approve_command X J (anchored_gateway X fc c log) (execute_http_post_with_config X c) u gs = (r, gs')"
    by fastforce
  then have "filter effect (new_events gs gs') \<noteq> []" using assms(2) by simp
  with run assms(1) show ?thesis by (blast elim: approve_with_effect)
qed

theorem approved_as_reviewed_witness:
  "\<exists>p. phase sample_held 5 = Pending p \<and>
     as_reviewed sample_externals sample_capability default_gateway_config p (w_fs sample_world)"
proof -
  have "gs_store sample_state = sample_held" "gs_world sample_state = sample_world"
    by (simp_all add: sample_state_def)
  then show ?thesis
    using approved_as_reviewed [OF sample_state_ok, where X = sample_externals and J = sample_json
        and fc = sample_capability and c = default_gateway_config and log = sample_log and u = 5] sample_approval
    by (simp add: sample_approved_def sample_gateway_def)
qed

text \<open>C6: an approval that had an effect is used up: the request is no longer pending,
  and approving it again, with any gateway, changes nothing and is refused.\<close>

theorem approval_spent:
  assumes "store_ok (gs_store gs)"
    and "handle_admin_command_with_config X J (anchored_gateway X fc c log) (Approve u) gs = (r, gs')"
    and "filter effect (new_events gs gs') \<noteq> []"
  shows "(\<forall>p. phase (gs_store gs') u \<noteq> Pending p) \<and>
    (\<exists>e. handle_admin_command_with_config Y K h (Approve u) gs' = (Err e, gs'))"
proof -
  have run: "approve_command X J (anchored_gateway X fc c log) (execute_http_post_with_config X c) u gs = (r, gs')"
    using assms(2) by simp
  have "spent u (gs_store gs')"
    using run assms(1,3) by (rule approve_with_effect)
  moreover have "store_ok (gs_store gs')"
    using keepsD [OF sound_admin assms(2)] assms(1) by (simp add: sound_def)
  ultimately have "store_get u (gs_store gs') = None"
    using phase_cases(1) by (fastforce simp: spent_def store_get_def)
  then obtain e where "inspect_pending_request u gs' = (Err e, gs')"
    by (cases "gs_store_poisoned gs'") (auto simp: inspect_pending_request_def locked_def ok_or_def)
  then have "approve_command Y K h post u gs' = (Err e, gs')" for post
    by (simp add: approve_command_def)
  then show ?thesis using \<open>spent u (gs_store gs')\<close> by (auto simp: spent_def)
qed

theorem approval_spent_witness:
  "\<exists>e. handle_admin_command_with_config sample_externals sample_json sample_gateway (Approve 5) sample_approved
     = (Err e, sample_approved)"
proof -
  obtain r where run: "handle_admin_command_with_config sample_externals sample_json
      (anchored_gateway sample_externals sample_capability default_gateway_config sample_log) (Approve 5) sample_state
      = (r, sample_approved)"
    by (metis sample_approved_def sample_gateway_def prod.collapse)
  show ?thesis
    using approval_spent [OF sample_state_ok run] sample_approval by simp
qed

text \<open>Rejecting a request and acknowledging a claimed one never has an
  effect.\<close>

theorem decisions_without_effect:
  "filter effect (new_events gs (snd (handle_admin_command_with_config X J (anchored_gateway X fc c log) (Reject u) gs))) = [] \<and>
   filter effect (new_events gs
     (snd (handle_admin_command_with_config X J (anchored_gateway X fc c log) (AcknowledgeClaimed u) gs))) = []"
  using keepsD [OF harmless_reject prod.collapse [symmetric]]
    keepsD [OF harmless_acknowledge prod.collapse [symmetric]]
  by (auto intro!: harmless_new_events)

text \<open>C19: a rejection that is reported took a pending request out of the store for good
  and left exactly its rejection record, synced, in the trace.\<close>

theorem rejected_gone:
  assumes "store_ok (gs_store gs)"
    and "handle_admin_command_with_config X J (anchored_gateway X fc c log) (Reject u) gs = (Ok out, gs')"
  shows "\<exists>p r. out = Rejected p \<and> phase (gs_store gs) u = Pending p \<and>
    phase (gs_store gs') = (phase (gs_store gs))(u := Absent) \<and>
    new_events gs gs' = [EvAudit r, EvAuditSynced] \<and> decision_record Rejection u r"
proof -
  from assms(2) obtain p gs1 where
    claim: "locked (StoreFailed StoreLockPoisoned) (with_err StoreFailed (on_store (store_claim X J u))) gs = (Ok p, gs1)"
    and rest: "audit_claimed_rejection X J p (persist_audit_locked (anchored_persist X log)) gs1 = (Ok (), gs')"
    and out: "out = Rejected p"
    by (auto simp: reject_command_def reject_pending_request_def elim!: and_then_OkE)
  note p = claim_handler_Ok [OF claim assms(1)]
  obtain q gs2 where audit: "write_review_audit Rejection NotExecuted p (persist_audit_locked (anchored_persist X log)) gs1 = (q, gs2)"
    by fastforce
  have q: "q = Ok ()" and consume: "\<exists>x. consume_claimed_request X J (pr_request_id p) gs2 = (Ok x, gs')"
    using rest audit
    by (auto simp: audit_claimed_rejection_def write_rejection_audit_def with_err_eq_Ok
        split: result.splits elim!: and_then_OkE)
  from audit q obtain r where r: "emits [EvAudit r, EvAuditSynced] gs1 gs2" "decision_record Rejection u r"
      and shell: "same_shell gs1 gs2"
    by (cases rule: anchored.handler.write_review_audit_runs) (auto simp: decision_record_def p(2))
  obtain x where consumed: "consume_claimed_request X J u gs2 = (Ok x, gs')" using consume p(2) by auto
  have ok2: "store_ok (gs_store gs2)" using p(4) shell by (simp add: same_shell_def)
  note gone = consume_handler_Ok(3,4) [OF consumed ok2]
  have "phase (gs_store gs') = (phase (gs_store gs))(u := Absent)"
    using shell p(3) gone(1) by (simp add: same_shell_def)
  moreover have "emits ([] @ [EvAudit r, EvAuditSynced] @ []) gs gs'"
    by (rule emits_trans [OF store_handlers_emit_nothing(2) [OF claim] emits_trans [OF r(1) gone(2)]])
  ultimately show ?thesis using out p(1) r(2) emits_new_events by fastforce
qed

theorem rejected_gone_witness:
  "\<exists>gs'. phase (gs_store gs') = (phase sample_held)(5 := Absent) \<and>
     handle_admin_command_with_config sample_externals sample_json sample_gateway (Reject 5) sample_state
       = (Ok (Rejected sample_review), gs')"
proof -
  have "\<not> is_err (fst (handle_admin_command_with_config sample_externals sample_json sample_gateway (Reject 5) sample_state))"
    by code_simp
  then obtain out gs' where run: "handle_admin_command_with_config sample_externals sample_json
      (anchored_gateway sample_externals sample_capability default_gateway_config sample_log) (Reject 5) sample_state
      = (Ok out, gs')"
    unfolding not_is_err sample_gateway_def by (metis prod.collapse)
  have held: "gs_store sample_state = sample_held" "phase sample_held 5 = Pending sample_review"
    by (simp_all add: sample_state_def phase_def sample_held_def new_store_def)
  from rejected_gone [OF sample_state_ok run] run held show ?thesis
    by (auto simp: sample_gateway_def)
qed

text \<open>C7: a call of the tool for a write, a build or a POST request never
  performs it: when the call is answered, nothing had an effect, and the request is pending under its
  identifier with its content and purpose if the policy says review, and the store is as it was
  otherwise.\<close>

theorem reviewable_requests_wait:
  assumes "policy_ok (gc_policy c)" and "store_ok (gs_store gs)"
    and "\<And>p. phase (gs_store gs) (drawn_id X (anchored_gateway X fc c log) params gs) \<noteq> Claimed p"
    and "build_execution_request params = Ok request" and "is_reviewable request"
    and "execute X J (anchored_gateway X fc c log) params gs = (ToolResult text, gs')"
  shows "filter effect (new_events gs gs') = [] \<and>
    (if decision (fst (evaluate_request_with_config X request fc c (gs_world gs))) = Review
     then \<exists>p. pr_request p = request \<and> pr_purpose p = ep_purpose params \<and>
       phase (gs_store gs') =
         (phase (gs_store gs))(drawn_id X (anchored_gateway X fc c log) params gs := Pending p)
     else phase (gs_store gs') = phase (gs_store gs))"
proof -
  have run: "execute_request_with_config X J (anchored_gateway X fc c log) params gs = (Ok text, gs')"
    using assms(6) by (auto simp: execute_def split: prod.splits result.splits)
  from run show ?thesis
  proof (cases rule: tool_cases)
    case (answered request' ev w1 u w2 gs2)
    then have r: "request' = request" using assms(4) by simp
    note not_allowed = evaluate_decision(2) [OF assms(1) answered(2) [unfolded r] assms(5)]
    have shell: "gs_store gs' = gs_store gs2"
      using keepsD [OF shell_execute_message [OF shell_allowed_operation] answered(6)]
      by (simp add: same_shell_def)
    have "harmless gs2 gs'" using answered(6) not_allowed by (rule unallowed_message_harmless)
    moreover have "emits [] gs gs2" by (rule held_quiet [OF answered(2,3,5)])
    ultimately have "filter effect (new_events gs gs') = []"
      by (intro harmless_new_events) (rule harmless_trans [OF harmless_emits])
    moreover have "if decision ev = Review
       then \<exists>p. pr_request p = request \<and> pr_purpose p = ep_purpose params \<and>
         phase (gs_store gs') = (phase (gs_store gs))(u := Pending p)
       else phase (gs_store gs') = phase (gs_store gs)"
    proof (cases "decision ev = Review")
      case True
      have held: "hold_for_review X J fc u request (ep_purpose params) (gs\<lparr>gs_world := w2\<rparr>) = (Ok (), gs2)"
        using answered(5) True r by simp
      have "store_ok (gs_store (gs\<lparr>gs_world := w2\<rparr>))"
        and "phase (gs_store (gs\<lparr>gs_world := w2\<rparr>)) u \<noteq> Claimed p" for p
        using assms(2,3) answered(4) by simp_all
      from hold_for_review_store(2) [OF held assms(5) this refl] True show ?thesis
        using shell by auto
    qed (use answered(5) shell in simp)
    moreover have "fst (evaluate_request_with_config X request fc c (gs_world gs)) = ev"
      using answered(2) r by simp
    ultimately show ?thesis unfolding answered(4) [symmetric] by (simp only: simp_thms)
  qed simp_all
qed

theorem reviewable_requests_wait_witness:
  "filter effect (new_events fresh_state (snd (execute sample_externals sample_json sample_gateway write_params fresh_state))) = [] \<and>
   (\<exists>p. pr_request p = WriteFile \<lparr>wf_path = ''a'', wf_content = ''b''\<rparr> \<and>
     phase (gs_store (snd (execute sample_externals sample_json sample_gateway write_params fresh_state)))
       (drawn_id sample_externals sample_gateway write_params fresh_state) = Pending p)"
proof -
  let ?g = "anchored_gateway sample_externals sample_capability default_gateway_config sample_log"
  obtain gs' where run: "execute sample_externals sample_json ?g write_params fresh_state = (ToolResult ''held_for_review'', gs')"
    using write_call unfolding sample_gateway_def by (metis prod.collapse)
  have "policy_ok (gc_policy default_gateway_config)" by (simp add: default_gateway_config_def)
  moreover have "store_ok (gs_store fresh_state)" by (simp add: fresh_state_def)
  moreover have "phase (gs_store fresh_state) u \<noteq> Claimed p" for u p
    by (simp add: fresh_state_def phase_def new_store_def)
  moreover have "build_execution_request write_params = Ok (WriteFile \<lparr>wf_path = ''a'', wf_content = ''b''\<rparr>)"
    by code_simp
  moreover have "is_reviewable (WriteFile \<lparr>wf_path = ''a'', wf_content = ''b''\<rparr>)" by simp
  ultimately have "filter effect (new_events fresh_state gs') = [] \<and>
    (if decision (fst (evaluate_request_with_config sample_externals (WriteFile \<lparr>wf_path = ''a'', wf_content = ''b''\<rparr>)
        sample_capability default_gateway_config (gs_world fresh_state))) = Review
     then \<exists>p. pr_request p = WriteFile \<lparr>wf_path = ''a'', wf_content = ''b''\<rparr> \<and>
       pr_purpose p = ep_purpose write_params \<and>
       phase (gs_store gs') = (phase (gs_store fresh_state))(drawn_id sample_externals ?g write_params fresh_state := Pending p)
     else phase (gs_store gs') = phase (gs_store fresh_state))"
    by (rule reviewable_requests_wait [OF _ _ _ _ _ run])
  then show ?thesis
    using write_review run by (auto simp: sample_gateway_def)
qed

text \<open>C8: an approval reported as \<open>Approved\<close> did exactly this, in this order: the
  approval record, the pre-execution record, the write of the pending content to the pending path,
  the completion record with success, each record synced; and the request is gone.\<close>

theorem reported_write_done:
  assumes "store_ok (gs_store gs)"
    and "handle_admin_command_with_config X J (anchored_gateway X fc c log) (Approve u) gs = (Ok (Approved v), gs')"
  shows "v = u \<and> (\<exists>p a ra rb rc. phase (gs_store gs) u = Pending p \<and> pr_request p = WriteFile a \<and>
    new_events gs gs' = [EvAudit ra, EvAuditSynced, EvAudit rb, EvAuditSynced,
      EvReplaced (wf_path a) (wf_content a), EvAudit rc, EvAuditSynced] \<and>
    decision_record Approval u ra \<and> decision_record PreExecution u rb \<and> decision_record Completion u rc \<and>
    ar_execution_outcome rc = Success \<and> phase (gs_store gs') = (phase (gs_store gs))(u := Absent))"
proof -
  have run: "approve_command X J (anchored_gateway X fc c log) (execute_http_post_with_config X c) u gs = (Ok (Approved v), gs')"
    using assms(2) by simp
  from run assms(1) show ?thesis
    by (rule approved_write_runs) (use emits_new_events in fastforce)
qed

theorem reported_write_done_witness:
  "\<exists>ra rb rc. new_events sample_state sample_approved = [EvAudit ra, EvAuditSynced, EvAudit rb, EvAuditSynced,
      EvReplaced ''a'' ''b'', EvAudit rc, EvAuditSynced] \<and> phase (gs_store sample_approved) 5 = Absent"
proof -
  have "fst (handle_admin_command_with_config sample_externals sample_json sample_gateway (Approve 5) sample_state)
      = Ok (Approved 5)" by code_simp
  then have run: "handle_admin_command_with_config sample_externals sample_json
      (anchored_gateway sample_externals sample_capability default_gateway_config sample_log) (Approve 5) sample_state
      = (Ok (Approved 5), sample_approved)"
    by (metis sample_approved_def sample_gateway_def prod.collapse)
  have held: "phase (gs_store sample_state) 5 = Pending sample_review"
    by (simp add: sample_state_def phase_def sample_held_def new_store_def)
  have request: "pr_request sample_review = WriteFile \<lparr>wf_path = ''a'', wf_content = ''b''\<rparr>"
    by (simp add: sample_review_def review_constructors)
  from reported_write_done [OF sample_state_ok run] show ?thesis
    by (auto simp: held request)
qed

text \<open>C20: an acknowledgement that is reported took a claimed request out of the store
  after its reconciliation record, with the outcome unknown, was written and synced, and left
  nothing else in the trace.\<close>

theorem acknowledged_gone:
  assumes "store_ok (gs_store gs)"
    and "handle_admin_command_with_config X J (anchored_gateway X fc c log) (AcknowledgeClaimed u) gs
      = (Ok (ClaimedAcknowledged p), gs')"
  shows "phase (gs_store gs) u = Claimed p \<and> phase (gs_store gs') = (phase (gs_store gs))(u := Absent) \<and>
    (\<exists>r. new_events gs gs' = [EvAudit r, EvAuditSynced] \<and> decision_record Reconciliation u r)"
proof -
  let ?sink = "persist_audit_locked (anchored_persist X log)"
  from assms(2) obtain q gs1 where claimed: "store_get_claimed u (gs_store gs) = Some q"
    and audit: "write_reconciliation_audit q ?sink gs = (Ok (), gs1)"
    and consumed: "consume_claimed_request X J u gs1 = (Ok p, gs')"
    by (auto simp: acknowledge_command_def locked_def split: if_splits prod.splits result.splits
        consume_claimed_failure.splits elim!: and_then_OkE)
  have phase: "phase (gs_store gs) u = Claimed q"
    using claimed phase_cases(2) [OF assms(1)] by (simp add: store_get_claimed_def)
  have id: "pr_request_id q = u" using claimed assms(1)
    by (auto simp: store_get_claimed_def store_ok_def keyed_def)
  obtain r where r: "emits [EvAudit r, EvAuditSynced] gs gs1" "decision_record Reconciliation u r" "same_shell gs gs1"
    using audit unfolding write_reconciliation_audit_def
    by (cases rule: anchored.handler.write_review_audit_runs) (auto simp: decision_record_def id)
  have "store_ok (gs_store gs1)" using assms(1) r(3) by (simp add: same_shell_def)
  note gone = consume_handler_Ok [OF consumed this]
  have "emits ([EvAudit r, EvAuditSynced] @ []) gs gs'" using r(1) gone(4) by (rule emits_trans)
  then show ?thesis
    using phase gone r(2,3) emits_new_events by (fastforce simp: same_shell_def)
qed

theorem acknowledged_gone_witness:
  "\<exists>gs'. handle_admin_command_with_config sample_externals sample_json sample_gateway (AcknowledgeClaimed 5) sample_interrupted
      = (Ok (ClaimedAcknowledged sample_review), gs') \<and>
    phase (gs_store gs') = (phase (gs_store sample_interrupted))(5 := Absent)"
proof -
  have "case fst (handle_admin_command_with_config sample_externals sample_json sample_gateway (AcknowledgeClaimed 5) sample_interrupted)
      of Ok (ClaimedAcknowledged p) \<Rightarrow> True | _ \<Rightarrow> False" by code_simp
  then obtain p gs' where run: "handle_admin_command_with_config sample_externals sample_json
      (anchored_gateway sample_externals sample_capability default_gateway_config sample_log) (AcknowledgeClaimed 5) sample_interrupted
      = (Ok (ClaimedAcknowledged p), gs')"
    unfolding sample_gateway_def by (auto split: result.splits admin_outcome.splits) (metis prod.collapse)
  have ok: "store_ok (gs_store sample_interrupted)"
    using sample_state_ok by (auto simp: sample_interrupted_def sample_state_def store_ok_def)
  have "phase (gs_store sample_interrupted) 5 = Claimed sample_review"
    by (simp add: sample_interrupted_def phase_def sample_held_def new_store_def)
  then show ?thesis using acknowledged_gone [OF ok run] run by (auto simp: sample_gateway_def)
qed





text \<open>C25: the line the operator gets starts with OK exactly when the command did what
  it was asked for and its result could be rendered, with ERROR otherwise; it names the request and
  ends with a line feed.\<close>

theorem operator_reply:
  "let reply = format_admin_outcome_response X T outcome in
   (take 3 reply = ''OK '' \<longleftrightarrow> succeeded X outcome) \<and> (take 6 reply = ''ERROR '' \<longleftrightarrow> \<not> succeeded X outcome) \<and>
   (\<exists>a b. reply = a @ x_uuid_text X (outcome_id outcome) @ b @ newline)"
proof -
  have line: "\<exists>a b. admin_line (u # v # t # ws) = a @ t @ b @ newline" for u v t ws
  proof -
    have "admin_line (u # v # t # ws) = (u @ '' '' @ v @ '' '') @ t @
        (if ws = [] then [] else '' '' @ concat (List.map (\<lambda>w. w @ '' '') (butlast ws)) @ last ws) @ newline"
      by (cases ws) (simp_all add: admin_line_def)
    then show ?thesis by blast
  qed
  show ?thesis
    by (cases outcome)
      (auto simp: Let_def json_line_def outcome_id_def line split: result.splits,
       auto simp: admin_line_def)
qed



text \<open>C40: the purpose of a call is checked after its request is held: a
  call that is refused for a blank or too long purpose has left its request pending, with that
  purpose, and no record of it in the audit log.\<close>

theorem refused_purpose_left_pending:
  assumes "store_ok (gs_store gs)"
    and "\<And>p. phase (gs_store gs) (drawn_id X (anchored_gateway X fc c log) params gs) \<noteq> Claimed p"
    and "build_execution_request params = Ok request" and "is_reviewable request"
    and "decision (fst (evaluate_request_with_config X request fc c (gs_world gs))) = Review"
    and "execute X J (anchored_gateway X fc c log) params gs = (GatewayError e, gs')"
    and "e = MessageEmpty \<or> e = MessageTooLong"
  shows "new_events gs gs' = [] \<and>
    (\<exists>p. pr_request p = request \<and> pr_purpose p = ep_purpose params \<and>
      phase (gs_store gs') = (phase (gs_store gs))(drawn_id X (anchored_gateway X fc c log) params gs := Pending p))"
proof -
  have run: "execute_request_with_config X J (anchored_gateway X fc c log) params gs = (Err e, gs')"
    using assms(6) by (auto simp: execute_def split: prod.splits result.splits)
  from run show ?thesis
  proof (cases rule: tool_cases)
    case (unbuilt e')
    then show ?thesis using assms(3) by simp
  next
    case (unheld request' ev w1 u w2 e')
    then show ?thesis using assms(7) hold_for_review_Err by blast
  next
    case (answered request' ev w1 u w2 gs2)
    then have r: "request' = request" using assms(3) by simp
    have same: "gs' = gs2" using message_refused [OF answered(6) assms(7)] .
    have "decision ev = Review" using assms(5) answered(2) r by simp
    then have held: "hold_for_review X J fc u request (ep_purpose params) (gs\<lparr>gs_world := w2\<rparr>) = (Ok (), gs')"
      using answered(5) r same by simp
    have none: "new_events gs gs' = []"
      using held_quiet [OF answered(2,3,5)] emits_new_events same by fastforce
    have "store_ok (gs_store (gs\<lparr>gs_world := w2\<rparr>))"
      and "phase (gs_store (gs\<lparr>gs_world := w2\<rparr>)) u \<noteq> Claimed p" for p
      using assms(1,2) answered(4) by simp_all
    from hold_for_review_store(2) [OF held assms(4) this refl] none show ?thesis
      using answered(4) by auto
  qed
qed

theorem refused_purpose_left_pending_witness:
  "\<exists>p gs'. execute sample_externals sample_json sample_gateway (write_params\<lparr>ep_purpose := '' ''\<rparr>) fresh_state
      = (GatewayError MessageEmpty, gs') \<and> new_events fresh_state gs' = [] \<and>
    phase (gs_store gs') = (phase new_store)
      (drawn_id sample_externals sample_gateway (write_params\<lparr>ep_purpose := '' ''\<rparr>) fresh_state := Pending p)"
proof -
  let ?g = "anchored_gateway sample_externals sample_capability default_gateway_config sample_log"
  let ?params = "write_params\<lparr>ep_purpose := '' ''\<rparr>"
  obtain gs' where run: "execute sample_externals sample_json ?g ?params fresh_state = (GatewayError MessageEmpty, gs')"
    using blank_call unfolding sample_gateway_def by (auto split: prod.splits)
  have empty: "gs_store fresh_state = new_store" by (simp add: fresh_state_def)
  have "phase (gs_store fresh_state) u \<noteq> Claimed p" for u p
    by (simp add: empty phase_def new_store_def)
  moreover have "build_execution_request ?params = Ok (WriteFile \<lparr>wf_path = ''a'', wf_content = ''b''\<rparr>)"
    by code_simp
  ultimately show ?thesis
    using refused_purpose_left_pending [OF _ _ _ _ _ run] write_review run
    by (auto simp: empty sample_gateway_def)
qed

end
